theory Spec2Isabelle
  imports Complex_Main "HOL-Library.Word" "HOL-Library.Monad_Syntax"
begin

section \<open>The NTSC comb filter of ld-comb-ntsc (comb.cpp)\<close>

text \<open>
  Conventions of the embedding.
  \<^item> \<open>qint32\<close> values are \<open>int\<close>; \<open>/\<close> and \<open>%\<close> on them truncate towards zero
    (\<open>cdiv\<close>, \<open>crem\<close>). The model is that of the code as long as the values stay within
    32 bits.
  \<^item> \<open>qreal\<close> values that are stored in a buffer are \<open>real\<close>: exact arithmetic on finite
    numbers, without rounding. The one division whose divisor can be zero (by \<open>p_2drange\<close> in
    \<open>split2D\<close>) is computed on \<open>ieee\<close>, which adds the infinities and NaN; a pass that
    would store a value that is not finite returns \<open>None\<close>.
  \<^item> A \<open>QByteArray\<close> is a list of bytes. Reading or writing it through a
    \<open>quint16\<close> pointer is checked: outside the array the C++ is undefined and the model
    returns \<open>None\<close>. The same holds for a \<open>QVector\<close>.
  \<^item> The planes \<open>pixel[line][column]\<close> and the YIQ buffer are maps from (line, column).
  \<^item> \<open>Filter\<close> (deemp.h), \<open>RGB::conv\<close> (rgb.h) and the optical flow
    (opticalflow.h) are parameters, collected in the record \<open>Externals\<close>.
  \<^item> A \<open>for (i = a; i < n; i++)\<close> loop is \<open>for_loop a n body\<close>; the body returns the new
    state, or \<open>None\<close>.
\<close>

subsection \<open>Integers, bytes and loops\<close>

definition cdiv :: "int \<Rightarrow> int \<Rightarrow> int" where
  "cdiv a b = sgn a * sgn b * (\<bar>a\<bar> div \<bar>b\<bar>)"

definition crem :: "int \<Rightarrow> int \<Rightarrow> int" where
  "crem a b = a - b * cdiv a b"

type_synonym byte = "8 word"
type_synonym QByteArray = "byte list"

text \<open>\<open>reinterpret_cast<quint16 *>(buf.data() + offset)[idx]\<close> on a little-endian host.\<close>

definition quint16_at :: "QByteArray \<Rightarrow> int \<Rightarrow> int \<Rightarrow> int option" where
  "quint16_at buf offset idx =
     (let p = offset + 2 * idx in
      if 0 \<le> p \<and> p + 1 < int (length buf)
      then Some (uint (buf ! nat p) + 256 * uint (buf ! nat (p + 1)))
      else None)"

definition set_quint16 :: "QByteArray \<Rightarrow> int \<Rightarrow> int \<Rightarrow> int \<Rightarrow> QByteArray option" where
  "set_quint16 buf offset idx v =
     (let p = offset + 2 * idx in
      if 0 \<le> p \<and> p + 1 < int (length buf)
      then Some (buf[nat p := word_of_int (v mod 256), nat (p + 1) := word_of_int (v div 256 mod 256)])
      else None)"

function for_loop :: "int \<Rightarrow> int \<Rightarrow> (int \<Rightarrow> 's \<Rightarrow> 's option) \<Rightarrow> 's \<Rightarrow> 's option" where
  "for_loop i n body s =
     (if i < n
      then (case body i s of None \<Rightarrow> None | Some s' \<Rightarrow> for_loop (i + 1) n body s')
      else Some s)"
  by pat_completeness auto
termination
  by (relation "measure (\<lambda>(i, n, body, s). nat (n - i))") auto

declare for_loop.simps [simp del]

subsection \<open>Data model\<close>

text \<open>Modelled from the spec: the structs \<open>Configuration\<close>, \<open>FrameBuffer\<close>, \<open>PixelLine\<close> and
  \<open>YIQ\<close> and the class \<open>YiqBuffer\<close> are declared in comb.h, yiq.h and yiqbuffer.h, which
  are not among the sources. The fields are those comb.cpp uses, with the types of section 3
  of the specification: integer dimensions and line and column numbers, 16-bit integer IRE
  levels, boolean mode flags, real chroma planes and YIQ triplets, a raw plane of bytes, a
  vector of motion values, and phase IDs.\<close>

record Configuration =
  blackAndWhite :: bool
  whitePoint100 :: bool
  colorlpf :: bool
  colorlpf_hq :: bool
  fieldWidth :: int
  fieldHeight :: int
  activeVideoStart :: int
  activeVideoEnd :: int
  firstVisibleFrameLine :: int
  blackIre :: int
  whiteIre :: int
  use3D :: bool
  showOpticalFlowMap :: bool

record YIQ =
  y :: real
  i :: real
  q :: real

type_synonym YiqBuffer = "int \<Rightarrow> int \<Rightarrow> YIQ"
type_synonym PixelLine = "int \<Rightarrow> int \<Rightarrow> real"

record FrameBuffer =
  rawbuffer :: QByteArray
  clpbuffer :: "PixelLine list"
  kValues :: "real list"
  yiqBuffer :: YiqBuffer
  burstLevel :: real
  firstFieldPhaseID :: int
  secondFieldPhaseID :: int

text \<open>The collaborators: a filter is a state \<open>'f\<close> with \<open>feed\<close>, which returns the output
  and the new state; the four tables are the initial states that \<open>Filter f(table)\<close> copies.
  \<open>conv\<close> takes the arguments of the \<open>RGB\<close> constructor, the pixel and the burst level and
  returns \<open>r\<close>, \<open>g\<close>, \<open>b\<close>. \<open>denseOpticalFlow\<close> takes the flow object, the YIQ buffer and
  the motion vector and returns the new vector and the new object.\<close>

record ('f, 'o) Externals =
  feed :: "'f \<Rightarrow> real \<Rightarrow> real \<times> 'f"
  f_colorlpi :: 'f
  f_colorlpq :: 'f
  f_nr :: 'f
  f_nrc :: 'f
  conv :: "int \<Rightarrow> int \<Rightarrow> bool \<Rightarrow> bool \<Rightarrow> YIQ \<Rightarrow> real \<Rightarrow> real \<times> real \<times> real"
  denseOpticalFlow :: "'o \<Rightarrow> YiqBuffer \<Rightarrow> real list \<Rightarrow> real list \<times> 'o"

text \<open>The engine: the members of \<open>Comb\<close>.\<close>

record 'o Comb =
  configuration :: Configuration
  irescale :: real
  frameHeight :: int
  previousFrameBuffer :: FrameBuffer
  opticalFlow :: 'o

text \<open>\<open>v[idx]\<close> on a \<open>QVector\<close>, read and write.\<close>

definition qvector_at :: "'a list \<Rightarrow> int \<Rightarrow> 'a option" where
  "qvector_at v idx = (if 0 \<le> idx \<and> idx < int (length v) then Some (v ! nat idx) else None)"

definition qvector_set :: "'a list \<Rightarrow> int \<Rightarrow> 'a \<Rightarrow> 'a list option" where
  "qvector_set v idx x = (if 0 \<le> idx \<and> idx < int (length v) then Some (v[nat idx := x]) else None)"

definition set_pixel :: "PixelLine \<Rightarrow> int \<Rightarrow> int \<Rightarrow> real \<Rightarrow> PixelLine" where
  "set_pixel p lineNumber h v = p(lineNumber := (p lineNumber)(h := v))"

subsection \<open>The phase-inversion tracker\<close>

text \<open>The statement that opens every line loop: the flag of the line's field is toggled
  and becomes the line's \<open>invertphase\<close>. The state is (topInvertphase, bottomInvertphase,
  invertphase).\<close>

definition initial_phase :: "int \<Rightarrow> int \<Rightarrow> bool \<times> bool \<times> bool" where
  "initial_phase firstFieldPhaseID' secondFieldPhaseID' =
     (firstFieldPhaseID' = 2 \<or> firstFieldPhaseID' = 3,
      secondFieldPhaseID' = 1 \<or> secondFieldPhaseID' = 4,
      False)"

definition line_phase :: "int \<Rightarrow> bool \<times> bool \<times> bool \<Rightarrow> bool \<times> bool \<times> bool" where
  "line_phase lineNumber ph =
     (case ph of (topInvertphase, bottomInvertphase, invertphase) \<Rightarrow>
        if crem lineNumber 2 = 0
        then (\<not> topInvertphase, bottomInvertphase, \<not> topInvertphase)
        else (topInvertphase, \<not> bottomInvertphase, \<not> bottomInvertphase))"

subsection \<open>postConfigurationTasks\<close>

definition postConfigurationTasks :: "'o Comb \<Rightarrow> 'o Comb" where
  "postConfigurationTasks c =
     c\<lparr>irescale := real_of_int (cdiv (whiteIre (configuration c) - blackIre (configuration c)) 100),
       frameHeight := (fieldHeight (configuration c) * 2) - 1\<rparr>"

subsection \<open>split1D\<close>

definition split1D_pixel ::
  "('f, 'o) Externals \<Rightarrow> Configuration \<Rightarrow> QByteArray \<Rightarrow> int \<Rightarrow> bool \<Rightarrow> int
     \<Rightarrow> 'f \<times> 'f \<times> PixelLine list \<Rightarrow> ('f \<times> 'f \<times> PixelLine list) option" where
  "split1D_pixel ext cfg raw lineNumber invertphase h st =
     (case st of (f_1di, f_1dq, clp) \<Rightarrow> do {
        let line = (lineNumber * fieldWidth cfg) * 2;
        let phase = crem h 4;
        a \<leftarrow> quint16_at raw line (h + 2);
        b \<leftarrow> quint16_at raw line (h - 2);
        c \<leftarrow> quint16_at raw line h;
        let tc1 = real_of_int (cdiv (a + b) 2 - c);
        let tc1 = (if \<not> invertphase then - tc1 else tc1);
        let (tc1f, f_1di, f_1dq) =
          (if phase = 0 then (case feed ext f_1di tc1 of (r, f) \<Rightarrow> (r, f, f_1dq))
           else if phase = 1 then (case feed ext f_1dq (- tc1) of (r, f) \<Rightarrow> (- r, f_1di, f))
           else if phase = 2 then (case feed ext f_1di (- tc1) of (r, f) \<Rightarrow> (- r, f, f_1dq))
           else if phase = 3 then (case feed ext f_1dq tc1 of (r, f) \<Rightarrow> (r, f_1di, f))
           else (0, f_1di, f_1dq));
        let (tc1, tc1f) = (if \<not> invertphase then (- tc1, - tc1f) else (tc1, tc1f));
        p \<leftarrow> qvector_at clp 0;
        clp \<leftarrow> qvector_set clp 0 (set_pixel p lineNumber h tc1);
        Some (f_1di, f_1dq, clp)
      })"

definition split1D_line ::
  "('f, 'o) Externals \<Rightarrow> Configuration \<Rightarrow> int
     \<Rightarrow> (bool \<times> bool \<times> bool) \<times> FrameBuffer \<Rightarrow> ((bool \<times> bool \<times> bool) \<times> FrameBuffer) option" where
  "split1D_line ext cfg lineNumber st =
     (case st of (ph, frameBuffer) \<Rightarrow> do {
        let ph = line_phase lineNumber ph;
        let invertphase = snd (snd ph);
        (f_1di, f_1dq, clp) \<leftarrow>
          for_loop (activeVideoStart cfg) (activeVideoEnd cfg)
            (split1D_pixel ext cfg (rawbuffer frameBuffer) lineNumber invertphase)
            (f_colorlpi ext, f_colorlpq ext, clpbuffer frameBuffer);
        Some (ph, frameBuffer\<lparr>clpbuffer := clp\<rparr>)
      })"

definition split1D :: "('f, 'o) Externals \<Rightarrow> 'o Comb \<Rightarrow> FrameBuffer \<Rightarrow> FrameBuffer option" where
  "split1D ext c frameBuffer = do {
     (ph, frameBuffer) \<leftarrow>
       for_loop (firstVisibleFrameLine (configuration c)) (frameHeight c)
         (split1D_line ext (configuration c))
         (initial_phase (firstFieldPhaseID frameBuffer) (secondFieldPhaseID frameBuffer), frameBuffer);
     Some frameBuffer
   }"

subsection \<open>Non-finite doubles\<close>

text \<open>The values a \<open>double\<close> can take in \<open>split2D\<close>, where a finite number is divided by
  \<open>p_2drange\<close>, which is zero when \<open>irescale\<close> is. Comparisons with NaN are false. A zero
  divisor is taken as \<open>+0.0\<close>; signed zeros are not told apart otherwise.\<close>

datatype ieee = Finite real | PosInf | NegInf | NaN

fun ieee_neg :: "ieee \<Rightarrow> ieee" where
  "ieee_neg (Finite u) = Finite (- u)"
| "ieee_neg PosInf = NegInf"
| "ieee_neg NegInf = PosInf"
| "ieee_neg NaN = NaN"

fun ieee_add :: "ieee \<Rightarrow> ieee \<Rightarrow> ieee" where
  "ieee_add NaN b = NaN"
| "ieee_add a NaN = NaN"
| "ieee_add (Finite u) (Finite w) = Finite (u + w)"
| "ieee_add PosInf NegInf = NaN"
| "ieee_add NegInf PosInf = NaN"
| "ieee_add PosInf b = PosInf"
| "ieee_add NegInf b = NegInf"
| "ieee_add (Finite u) b = b"

definition ieee_sub :: "ieee \<Rightarrow> ieee \<Rightarrow> ieee" where
  "ieee_sub a b = ieee_add a (ieee_neg b)"

fun ieee_sgn :: "ieee \<Rightarrow> real" where
  "ieee_sgn (Finite u) = sgn u"
| "ieee_sgn PosInf = 1"
| "ieee_sgn NegInf = - 1"
| "ieee_sgn NaN = 0"

fun ieee_mul :: "ieee \<Rightarrow> ieee \<Rightarrow> ieee" where
  "ieee_mul NaN b = NaN"
| "ieee_mul a NaN = NaN"
| "ieee_mul (Finite u) (Finite w) = Finite (u * w)"
| "ieee_mul a b =
     (if ieee_sgn a * ieee_sgn b = 0 then NaN
      else if 0 < ieee_sgn a * ieee_sgn b then PosInf else NegInf)"

fun ieee_div :: "ieee \<Rightarrow> ieee \<Rightarrow> ieee" where
  "ieee_div NaN b = NaN"
| "ieee_div a NaN = NaN"
| "ieee_div (Finite u) (Finite w) =
     (if w \<noteq> 0 then Finite (u / w)
      else if 0 < u then PosInf else if u < 0 then NegInf else NaN)"
| "ieee_div (Finite u) b = Finite 0"
| "ieee_div a (Finite w) = (if 0 \<le> w then a else ieee_neg a)"
| "ieee_div a b = NaN"

fun ieee_less :: "ieee \<Rightarrow> ieee \<Rightarrow> bool" where
  "ieee_less NaN b = False"
| "ieee_less a NaN = False"
| "ieee_less (Finite u) (Finite w) = (u < w)"
| "ieee_less a NegInf = False"
| "ieee_less PosInf b = False"
| "ieee_less a b = True"

text \<open>\<open>Comb::clamp\<close>; its first argument may not be finite.\<close>

definition clamp :: "ieee \<Rightarrow> real \<Rightarrow> real \<Rightarrow> ieee" where
  "clamp v low high =
     (if ieee_less v (Finite low) then Finite low
      else if ieee_less (Finite high) v then Finite high
      else v)"

subsection \<open>split2D\<close>

text \<open>The weights \<open>kp\<close>, \<open>kn\<close> and the scale \<open>sc\<close> as they stand when \<open>tc1\<close> is formed.
  \<open>clp0\<close> is \<open>clpbuffer[0].pixel\<close>.\<close>

definition split2D_weights :: "real \<Rightarrow> PixelLine \<Rightarrow> int \<Rightarrow> int \<Rightarrow> ieee \<times> ieee \<times> ieee" where
  "split2D_weights irescale' clp0 lineNumber h =
     (let previousLine = clp0 (lineNumber - 2);
          currentLine = clp0 lineNumber;
          nextLine = clp0 (lineNumber + 2);
          kp = \<bar>\<bar>currentLine h\<bar> - \<bar>previousLine h\<bar>\<bar>;
          kp = kp + \<bar>\<bar>currentLine (h - 1)\<bar> - \<bar>previousLine (h - 1)\<bar>\<bar>;
          kp = kp - (\<bar>currentLine h\<bar> + \<bar>currentLine (h - 1)\<bar>) * (1 / 10);
          kn = \<bar>\<bar>currentLine h\<bar> - \<bar>nextLine h\<bar>\<bar>;
          kn = kn + \<bar>\<bar>currentLine (h - 1)\<bar> - \<bar>nextLine (h - 1)\<bar>\<bar>;
          kn = kn - (\<bar>currentLine h\<bar> + \<bar>nextLine (h - 1)\<bar>) * (1 / 10);
          kp = kp / 2;
          kn = kn / 2;
          p_2drange = 45 * irescale';
          kp = clamp (ieee_sub (Finite 1) (ieee_div (Finite kp) (Finite p_2drange))) 0 1;
          kn = clamp (ieee_sub (Finite 1) (ieee_div (Finite kn) (Finite p_2drange))) 0 1;
          sc = Finite 1
      in if ieee_less (Finite 0) kn \<or> ieee_less (Finite 0) kp
         then (let (kp, kn) =
                     (if ieee_less (ieee_mul (Finite 3) kp) kn then (Finite 0, kn)
                      else if ieee_less (ieee_mul (Finite 3) kn) kp then (kp, Finite 0)
                      else (kp, kn));
                   sc = ieee_div (Finite 2) (ieee_add kn kp);
                   sc = (if ieee_less sc (Finite 1) then Finite 1 else sc)
               in (kp, kn, sc))
         else (if \<bar>\<bar>previousLine h\<bar> - \<bar>nextLine h\<bar>\<bar> - \<bar>(nextLine h + previousLine h) * (2 / 10)\<bar> \<le> 0
               then (Finite 1, Finite 1, sc)
               else (kp, kn, sc)))"

definition split2D_pixel :: "real \<Rightarrow> int \<Rightarrow> int \<Rightarrow> PixelLine list \<Rightarrow> PixelLine list option" where
  "split2D_pixel irescale' lineNumber h clp = do {
     clp0 \<leftarrow> qvector_at clp 0;
     let previousLine = clp0 (lineNumber - 2);
     let nextLine = clp0 (lineNumber + 2);
     let (kp, kn, sc) = split2D_weights irescale' clp0 lineNumber h;
     let tc1 = ieee_mul (ieee_mul (Finite (clp0 lineNumber h - previousLine h)) kp) sc;
     let tc1 = ieee_add tc1 (ieee_mul (ieee_mul (Finite (clp0 lineNumber h - nextLine h)) kn) sc);
     let tc1 = ieee_div tc1 (Finite 8);
     clp1 \<leftarrow> qvector_at clp 1;
     (case tc1 of Finite v \<Rightarrow> qvector_set clp 1 (set_pixel clp1 lineNumber h v) | _ \<Rightarrow> None)
   }"

definition split2D_line :: "'o Comb \<Rightarrow> int \<Rightarrow> FrameBuffer \<Rightarrow> FrameBuffer option" where
  "split2D_line c lineNumber frameBuffer =
     (if lineNumber \<ge> 4 \<and> lineNumber < frameHeight c - 1
      then do {
        clp \<leftarrow> for_loop (activeVideoStart (configuration c)) (activeVideoEnd (configuration c))
                 (split2D_pixel (irescale c) lineNumber) (clpbuffer frameBuffer);
        Some (frameBuffer\<lparr>clpbuffer := clp\<rparr>)
      }
      else Some frameBuffer)"

definition split2D :: "'o Comb \<Rightarrow> FrameBuffer \<Rightarrow> FrameBuffer option" where
  "split2D c frameBuffer =
     for_loop (firstVisibleFrameLine (configuration c)) (frameHeight c) (split2D_line c) frameBuffer"

subsection \<open>split3D\<close>

definition split3D_pixel ::
  "Configuration \<Rightarrow> QByteArray \<Rightarrow> QByteArray \<Rightarrow> int \<Rightarrow> int \<Rightarrow> PixelLine list \<Rightarrow> PixelLine list option" where
  "split3D_pixel cfg currentRaw previousRaw lineNumber h clp = do {
     previousSample \<leftarrow> quint16_at previousRaw ((lineNumber * fieldWidth cfg) * 2) h;
     currentSample \<leftarrow> quint16_at currentRaw ((lineNumber * fieldWidth cfg) * 2) h;
     clp2 \<leftarrow> qvector_at clp 2;
     qvector_set clp 2 (set_pixel clp2 lineNumber h (real_of_int (cdiv (previousSample - currentSample) 2)))
   }"

definition split3D_line :: "Configuration \<Rightarrow> FrameBuffer \<Rightarrow> int \<Rightarrow> FrameBuffer \<Rightarrow> FrameBuffer option" where
  "split3D_line cfg previousFrame lineNumber currentFrame = do {
     clp \<leftarrow> for_loop (activeVideoStart cfg) (activeVideoEnd cfg)
              (split3D_pixel cfg (rawbuffer currentFrame) (rawbuffer previousFrame) lineNumber)
              (clpbuffer currentFrame);
     Some (currentFrame\<lparr>clpbuffer := clp\<rparr>)
   }"

definition split3D :: "'o Comb \<Rightarrow> FrameBuffer \<Rightarrow> FrameBuffer \<Rightarrow> FrameBuffer option" where
  "split3D c currentFrame previousFrame =
     for_loop (firstVisibleFrameLine (configuration c)) (frameHeight c)
       (split3D_line (configuration c) previousFrame) currentFrame"

subsection \<open>splitIQ\<close>

definition yiq_zero :: YIQ where
  "yiq_zero = \<lparr>y = 0, i = 0, q = 0\<rparr>"

text \<open>Modelled from the spec: \<open>YiqBuffer::clear\<close> (yiqbuffer.h, not among the sources) sets
  every triplet of the YIQ plane to zero.\<close>

definition yiq_clear :: YiqBuffer where
  "yiq_clear = (\<lambda>lineNumber h. yiq_zero)"

definition set_yiq :: "YiqBuffer \<Rightarrow> int \<Rightarrow> int \<Rightarrow> YIQ \<Rightarrow> YiqBuffer" where
  "set_yiq b lineNumber h v = b(lineNumber := (b lineNumber)(h := v))"

text \<open>The chroma value \<open>cavg\<close> of a column, before the sign correction.\<close>

definition splitIQ_cavg :: "Configuration \<Rightarrow> FrameBuffer \<Rightarrow> int \<Rightarrow> int \<Rightarrow> real option" where
  "splitIQ_cavg cfg frameBuffer lineNumber h = do {
     clp1 \<leftarrow> qvector_at (clpbuffer frameBuffer) 1;
     let cavg = clp1 lineNumber h;
     if use3D cfg \<and> length (kValues frameBuffer) \<noteq> 0
     then do {
       k \<leftarrow> qvector_at (kValues frameBuffer) ((lineNumber * 910) + h);
       let cavg = clp1 lineNumber h * k;
       clp2 \<leftarrow> qvector_at (clpbuffer frameBuffer) 2;
       Some (cavg + clp2 lineNumber h * (1 - k))
     }
     else Some cavg
   }"

definition splitIQ_pixel ::
  "Configuration \<Rightarrow> FrameBuffer \<Rightarrow> int \<Rightarrow> bool \<Rightarrow> int
     \<Rightarrow> real \<times> real \<times> YiqBuffer \<Rightarrow> (real \<times> real \<times> YiqBuffer) option" where
  "splitIQ_pixel cfg frameBuffer lineNumber invertphase h st =
     (case st of (si, sq, yiq) \<Rightarrow> do {
        let phase = crem h 4;
        cavg \<leftarrow> splitIQ_cavg cfg frameBuffer lineNumber h;
        let cavg = (if \<not> invertphase then - cavg else cavg);
        let (si, sq) =
          (if phase = 0 then (si, cavg)
           else if phase = 1 then (- cavg, sq)
           else if phase = 2 then (si, - cavg)
           else if phase = 3 then (cavg, sq)
           else (si, sq));
        sample \<leftarrow> quint16_at (rawbuffer frameBuffer) ((lineNumber * fieldWidth cfg) * 2) h;
        Some (si, sq, set_yiq yiq lineNumber h \<lparr>y = real_of_int sample, i = si, q = sq\<rparr>)
      })"

definition splitIQ_line ::
  "Configuration \<Rightarrow> FrameBuffer \<Rightarrow> int
     \<Rightarrow> (bool \<times> bool \<times> bool) \<times> YiqBuffer \<Rightarrow> ((bool \<times> bool \<times> bool) \<times> YiqBuffer) option" where
  "splitIQ_line cfg frameBuffer lineNumber st =
     (case st of (ph, yiq) \<Rightarrow> do {
        let ph = line_phase lineNumber ph;
        let invertphase = snd (snd ph);
        (si, sq, yiq) \<leftarrow>
          for_loop (activeVideoStart cfg) (activeVideoEnd cfg)
            (splitIQ_pixel cfg frameBuffer lineNumber invertphase) (0, 0, yiq);
        Some (ph, yiq)
      })"

definition splitIQ :: "'o Comb \<Rightarrow> FrameBuffer \<Rightarrow> FrameBuffer option" where
  "splitIQ c frameBuffer = do {
     (ph, yiq) \<leftarrow>
       for_loop (firstVisibleFrameLine (configuration c)) (frameHeight c)
         (splitIQ_line (configuration c) frameBuffer)
         (initial_phase (firstFieldPhaseID frameBuffer) (secondFieldPhaseID frameBuffer), yiq_clear);
     Some (frameBuffer\<lparr>yiqBuffer := yiq\<rparr>)
   }"

subsection \<open>filterIQ\<close>

definition filterIQ_pixel ::
  "('f, 'o) Externals \<Rightarrow> int \<Rightarrow> int \<Rightarrow> 'f \<times> 'f \<times> real \<times> real \<times> YiqBuffer
     \<Rightarrow> ('f \<times> 'f \<times> real \<times> real \<times> YiqBuffer) option" where
  "filterIQ_pixel ext lineNumber h st =
     (case st of (f_i, f_q, filti, filtq, yiq) \<Rightarrow>
        let qoffset = 2;
            phase = crem h 4;
            (f_i, f_q, filti, filtq) =
              (if phase = 0 then (case feed ext f_i (i (yiq lineNumber h)) of (r, f) \<Rightarrow> (f, f_q, r, filtq))
               else if phase = 1 then (case feed ext f_q (q (yiq lineNumber h)) of (r, f) \<Rightarrow> (f_i, f, filti, r))
               else if phase = 2 then (case feed ext f_i (i (yiq lineNumber h)) of (r, f) \<Rightarrow> (f, f_q, r, filtq))
               else if phase = 3 then (case feed ext f_q (q (yiq lineNumber h)) of (r, f) \<Rightarrow> (f_i, f, filti, r))
               else (f_i, f_q, filti, filtq));
            yiq = set_yiq yiq lineNumber (h - qoffset) ((yiq lineNumber (h - qoffset))\<lparr>i := filti\<rparr>);
            yiq = set_yiq yiq lineNumber (h - qoffset) ((yiq lineNumber (h - qoffset))\<lparr>q := filtq\<rparr>)
        in Some (f_i, f_q, filti, filtq, yiq))"

definition filterIQ_line :: "('f, 'o) Externals \<Rightarrow> Configuration \<Rightarrow> int \<Rightarrow> YiqBuffer \<Rightarrow> YiqBuffer option" where
  "filterIQ_line ext cfg lineNumber yiq = do {
     let f_i = (if colorlpf_hq cfg then f_colorlpi ext else f_colorlpi ext);
     let f_q = (if colorlpf_hq cfg then f_colorlpi ext else f_colorlpq ext);
     (f_i, f_q, filti, filtq, yiq) \<leftarrow>
       for_loop (activeVideoStart cfg) (activeVideoEnd cfg) (filterIQ_pixel ext lineNumber)
         (f_i, f_q, 0, 0, yiq);
     Some yiq
   }"

definition filterIQ :: "('f, 'o) Externals \<Rightarrow> 'o Comb \<Rightarrow> YiqBuffer \<Rightarrow> YiqBuffer option" where
  "filterIQ ext c yiq =
     for_loop (firstVisibleFrameLine (configuration c)) (frameHeight c)
       (filterIQ_line ext (configuration c)) yiq"

subsection \<open>doCNR and doYNR\<close>

definition doCNR_feed ::
  "('f, 'o) Externals \<Rightarrow> YiqBuffer \<Rightarrow> int \<Rightarrow> int \<Rightarrow> 'f \<times> 'f \<times> YIQ list \<Rightarrow> ('f \<times> 'f \<times> YIQ list) option" where
  "doCNR_feed ext yiq lineNumber h st =
     (case st of (f_hpi, f_hpq, hplinef) \<Rightarrow> do {
        let (r, f_hpi) = feed ext f_hpi (i (yiq lineNumber h));
        e \<leftarrow> qvector_at hplinef h;
        hplinef \<leftarrow> qvector_set hplinef h (e\<lparr>i := r\<rparr>);
        let (r, f_hpq) = feed ext f_hpq (q (yiq lineNumber h));
        e \<leftarrow> qvector_at hplinef h;
        hplinef \<leftarrow> qvector_set hplinef h (e\<lparr>q := r\<rparr>);
        Some (f_hpi, f_hpq, hplinef)
      })"

definition doCNR_clip :: "real \<Rightarrow> YIQ list \<Rightarrow> int \<Rightarrow> int \<Rightarrow> YiqBuffer \<Rightarrow> YiqBuffer option" where
  "doCNR_clip nr_c hplinef lineNumber h yiq = do {
     e \<leftarrow> qvector_at hplinef (h + 12);
     let ai = i e;
     e \<leftarrow> qvector_at hplinef (h + 12);
     let aq = q e;
     let ai = (if \<bar>ai\<bar> > nr_c then (if ai > 0 then nr_c else - nr_c) else ai);
     let aq = (if \<bar>aq\<bar> > nr_c then (if aq > 0 then nr_c else - nr_c) else aq);
     let yiq = set_yiq yiq lineNumber h ((yiq lineNumber h)\<lparr>i := i (yiq lineNumber h) - ai\<rparr>);
     let yiq = set_yiq yiq lineNumber h ((yiq lineNumber h)\<lparr>q := q (yiq lineNumber h) - aq\<rparr>);
     Some yiq
   }"

definition doCNR_line ::
  "('f, 'o) Externals \<Rightarrow> Configuration \<Rightarrow> real \<Rightarrow> int
     \<Rightarrow> 'f \<times> 'f \<times> YIQ list \<times> YiqBuffer \<Rightarrow> ('f \<times> 'f \<times> YIQ list \<times> YiqBuffer) option" where
  "doCNR_line ext cfg nr_c lineNumber st =
     (case st of (f_hpi, f_hpq, hplinef, yiq) \<Rightarrow> do {
        (f_hpi, f_hpq, hplinef) \<leftarrow>
          for_loop (activeVideoStart cfg) (activeVideoEnd cfg + 1) (doCNR_feed ext yiq lineNumber)
            (f_hpi, f_hpq, hplinef);
        yiq \<leftarrow> for_loop (activeVideoStart cfg) (activeVideoEnd cfg) (doCNR_clip nr_c hplinef lineNumber) yiq;
        Some (f_hpi, f_hpq, hplinef, yiq)
      })"

definition doCNR :: "('f, 'o) Externals \<Rightarrow> 'o Comb \<Rightarrow> YiqBuffer \<Rightarrow> YiqBuffer option" where
  "doCNR ext c yiq = do {
     let nr_c = 0.0 * irescale c;
     let hplinef = replicate (nat (fieldWidth (configuration c) + 32)) yiq_zero;
     (f_hpi, f_hpq, hplinef, yiq) \<leftarrow>
       for_loop (firstVisibleFrameLine (configuration c)) (frameHeight c)
         (doCNR_line ext (configuration c) nr_c) (f_nrc ext, f_nrc ext, hplinef, yiq);
     Some yiq
   }"

definition doYNR_feed ::
  "('f, 'o) Externals \<Rightarrow> YiqBuffer \<Rightarrow> int \<Rightarrow> int \<Rightarrow> 'f \<times> YIQ list \<Rightarrow> ('f \<times> YIQ list) option" where
  "doYNR_feed ext yiq lineNumber h st =
     (case st of (f_hpy, hplinef) \<Rightarrow> do {
        let (r, f_hpy) = feed ext f_hpy (y (yiq lineNumber h));
        e \<leftarrow> qvector_at hplinef h;
        hplinef \<leftarrow> qvector_set hplinef h (e\<lparr>y := r\<rparr>);
        Some (f_hpy, hplinef)
      })"

definition doYNR_clip :: "real \<Rightarrow> YIQ list \<Rightarrow> int \<Rightarrow> int \<Rightarrow> YiqBuffer \<Rightarrow> YiqBuffer option" where
  "doYNR_clip nr_y hplinef lineNumber h yiq = do {
     e \<leftarrow> qvector_at hplinef (h + 12);
     let a = y e;
     let a = (if \<bar>a\<bar> > nr_y then (if a > 0 then nr_y else - nr_y) else a);
     Some (set_yiq yiq lineNumber h ((yiq lineNumber h)\<lparr>y := y (yiq lineNumber h) - a\<rparr>))
   }"

definition doYNR_line ::
  "('f, 'o) Externals \<Rightarrow> Configuration \<Rightarrow> real \<Rightarrow> int
     \<Rightarrow> 'f \<times> YIQ list \<times> YiqBuffer \<Rightarrow> ('f \<times> YIQ list \<times> YiqBuffer) option" where
  "doYNR_line ext cfg nr_y lineNumber st =
     (case st of (f_hpy, hplinef, yiq) \<Rightarrow> do {
        (f_hpy, hplinef) \<leftarrow>
          for_loop (activeVideoStart cfg) (activeVideoEnd cfg + 1) (doYNR_feed ext yiq lineNumber)
            (f_hpy, hplinef);
        yiq \<leftarrow> for_loop (activeVideoStart cfg) (activeVideoEnd cfg) (doYNR_clip nr_y hplinef lineNumber) yiq;
        Some (f_hpy, hplinef, yiq)
      })"

definition doYNR :: "('f, 'o) Externals \<Rightarrow> 'o Comb \<Rightarrow> YiqBuffer \<Rightarrow> YiqBuffer option" where
  "doYNR ext c yiq = do {
     let nr_y = 1.0 * irescale c;
     let hplinef = replicate (nat (fieldWidth (configuration c) + 32)) yiq_zero;
     (f_hpy, hplinef, yiq) \<leftarrow>
       for_loop (firstVisibleFrameLine (configuration c)) (frameHeight c)
         (doYNR_line ext (configuration c) nr_y) (f_nr ext, hplinef, yiq);
     Some yiq
   }"

subsection \<open>adjustY\<close>

definition adjustY_pixel :: "int \<Rightarrow> bool \<Rightarrow> int \<Rightarrow> YiqBuffer \<Rightarrow> YiqBuffer option" where
  "adjustY_pixel lineNumber invertphase h yiq =
     (let comp = 0;
          phase = crem h 4;
          px = yiq lineNumber (h + 2);
          comp = (if phase = 0 then q px
                  else if phase = 1 then - i px
                  else if phase = 2 then - q px
                  else if phase = 3 then i px
                  else comp);
          comp = (if invertphase then - comp else comp);
          px = px\<lparr>y := y px + comp\<rparr>
      in Some (set_yiq yiq lineNumber (h + 0) px))"

definition adjustY_line ::
  "Configuration \<Rightarrow> int \<Rightarrow> (bool \<times> bool \<times> bool) \<times> YiqBuffer \<Rightarrow> ((bool \<times> bool \<times> bool) \<times> YiqBuffer) option" where
  "adjustY_line cfg lineNumber st =
     (case st of (ph, yiq) \<Rightarrow> do {
        let ph = line_phase lineNumber ph;
        let invertphase = snd (snd ph);
        yiq \<leftarrow> for_loop (activeVideoStart cfg) (activeVideoEnd cfg) (adjustY_pixel lineNumber invertphase) yiq;
        Some (ph, yiq)
      })"

definition adjustY :: "'o Comb \<Rightarrow> YiqBuffer \<Rightarrow> int \<Rightarrow> int \<Rightarrow> YiqBuffer option" where
  "adjustY c yiq firstFieldPhaseID' secondFieldPhaseID' = do {
     (ph, yiq) \<leftarrow>
       for_loop (firstVisibleFrameLine (configuration c)) (frameHeight c)
         (adjustY_line (configuration c)) (initial_phase firstFieldPhaseID' secondFieldPhaseID', yiq);
     Some yiq
   }"

subsection \<open>yiqToRgbFrame and overlayOpticalFlowMap\<close>

text \<open>\<open>static_cast<quint16>\<close> and \<open>static_cast<qint32>\<close> of a \<open>double\<close>: the fraction is
  dropped; the cast is undefined when the result does not fit.\<close>

definition trunc :: "real \<Rightarrow> int" where
  "trunc r = (if r < 0 then \<lceil>r\<rceil> else \<lfloor>r\<rfloor>)"

definition to_quint16 :: "real \<Rightarrow> int option" where
  "to_quint16 r = (if 0 \<le> trunc r \<and> trunc r \<le> 65535 then Some (trunc r) else None)"

definition to_qint32 :: "real \<Rightarrow> int option" where
  "to_qint32 r = (if - (2 ^ 31) \<le> trunc r \<and> trunc r < 2 ^ 31 then Some (trunc r) else None)"

text \<open>\<open>QByteArray::resize\<close> followed by \<open>fill(0)\<close>; a negative size gives the empty array.\<close>

definition resize_fill :: "int \<Rightarrow> QByteArray" where
  "resize_fill n = replicate (nat n) 0"

definition yiqToRgbFrame_pixel ::
  "('f, 'o) Externals \<Rightarrow> Configuration \<Rightarrow> YiqBuffer \<Rightarrow> real \<Rightarrow> int \<Rightarrow> int
     \<Rightarrow> int \<times> QByteArray \<Rightarrow> (int \<times> QByteArray) option" where
  "yiqToRgbFrame_pixel ext cfg yiq burstLevel' lineNumber h st =
     (case st of (ofs, rgbOutputFrame) \<Rightarrow> do {
        let linePointer = (fieldWidth cfg * 3 * lineNumber) * 2;
        let (r, g, b) = conv ext (whiteIre cfg) (blackIre cfg) (whitePoint100 cfg) (blackAndWhite cfg)
                          (yiq lineNumber h) burstLevel';
        r16 \<leftarrow> to_quint16 r;
        rgbOutputFrame \<leftarrow> set_quint16 rgbOutputFrame linePointer ofs r16;
        g16 \<leftarrow> to_quint16 g;
        rgbOutputFrame \<leftarrow> set_quint16 rgbOutputFrame linePointer (ofs + 1) g16;
        b16 \<leftarrow> to_quint16 b;
        rgbOutputFrame \<leftarrow> set_quint16 rgbOutputFrame linePointer (ofs + 2) b16;
        Some (ofs + 3, rgbOutputFrame)
      })"

definition yiqToRgbFrame_line ::
  "('f, 'o) Externals \<Rightarrow> Configuration \<Rightarrow> YiqBuffer \<Rightarrow> real \<Rightarrow> int \<Rightarrow> QByteArray \<Rightarrow> QByteArray option" where
  "yiqToRgbFrame_line ext cfg yiq burstLevel' lineNumber rgbOutputFrame = do {
     let ofs = (activeVideoStart cfg * 3) + 6;
     (ofs, rgbOutputFrame) \<leftarrow>
       for_loop (activeVideoStart cfg) (activeVideoEnd cfg)
         (yiqToRgbFrame_pixel ext cfg yiq burstLevel' lineNumber) (ofs, rgbOutputFrame);
     Some rgbOutputFrame
   }"

definition yiqToRgbFrame :: "('f, 'o) Externals \<Rightarrow> 'o Comb \<Rightarrow> YiqBuffer \<Rightarrow> real \<Rightarrow> QByteArray option" where
  "yiqToRgbFrame ext c yiq burstLevel' = do {
     let rgbOutputFrame = resize_fill ((fieldWidth (configuration c) * frameHeight c * 3) * 2);
     for_loop (firstVisibleFrameLine (configuration c)) (frameHeight c)
       (yiqToRgbFrame_line ext (configuration c) yiq burstLevel') rgbOutputFrame
   }"

definition overlayOpticalFlowMap_pixel ::
  "Configuration \<Rightarrow> FrameBuffer \<Rightarrow> int \<Rightarrow> int \<Rightarrow> QByteArray \<Rightarrow> QByteArray option" where
  "overlayOpticalFlowMap_pixel cfg frameBuffer lineNumber h rgbFrame = do {
     let linePointer = (fieldWidth cfg * 3 * lineNumber) * 2;
     k \<leftarrow> qvector_at (kValues frameBuffer) ((lineNumber * 910) + h);
     intensity \<leftarrow> to_qint32 (k * 65535);
     r0 \<leftarrow> quint16_at rgbFrame linePointer (h * 3);
     let red = r0 + intensity;
     green \<leftarrow> quint16_at rgbFrame linePointer ((h * 3) + 2);
     b0 \<leftarrow> quint16_at rgbFrame linePointer ((h * 3) + 2);
     let blue = b0 + intensity;
     let red = (if red > 65535 then 65535 else red);
     let green = (if green > 65535 then 65535 else green);
     let blue = (if blue > 65535 then 65535 else blue);
     rgbFrame \<leftarrow> set_quint16 rgbFrame linePointer (h * 3) red;
     rgbFrame \<leftarrow> set_quint16 rgbFrame linePointer ((h * 3) + 1) green;
     set_quint16 rgbFrame linePointer ((h * 3) + 2) blue
   }"

definition overlayOpticalFlowMap :: "'o Comb \<Rightarrow> FrameBuffer \<Rightarrow> QByteArray \<Rightarrow> QByteArray option" where
  "overlayOpticalFlowMap c frameBuffer rgbFrame =
     for_loop (firstVisibleFrameLine (configuration c)) (frameHeight c)
       (\<lambda>lineNumber. for_loop (activeVideoStart (configuration c)) (activeVideoEnd (configuration c))
          (overlayOpticalFlowMap_pixel (configuration c) frameBuffer lineNumber))
       rgbFrame"

subsection \<open>The constructor, setConfiguration and process\<close>

text \<open>A default-constructed \<open>FrameBuffer\<close>: empty arrays. This is the state of
  \<open>previousFrameBuffer\<close> before the first 3D frame.\<close>

definition FrameBuffer_new :: FrameBuffer where
  "FrameBuffer_new =
     \<lparr>rawbuffer = [], clpbuffer = [], kValues = [], yiqBuffer = yiq_clear,
      burstLevel = 0, firstFieldPhaseID = 0, secondFieldPhaseID = 0\<rparr>"

definition Comb_new :: "'o \<Rightarrow> 'o Comb" where
  "Comb_new flow =
     postConfigurationTasks
       \<lparr>configuration =
          \<lparr>blackAndWhite = False, whitePoint100 = False, colorlpf = True, colorlpf_hq = True,
           fieldWidth = 910, fieldHeight = 263, activeVideoStart = 40, activeVideoEnd = 840,
           firstVisibleFrameLine = 43, blackIre = 15360, whiteIre = 51200,
           use3D = False, showOpticalFlowMap = False\<rparr>,
        irescale = 0, frameHeight = 0, previousFrameBuffer = FrameBuffer_new, opticalFlow = flow\<rparr>"

definition getConfiguration :: "'o Comb \<Rightarrow> Configuration" where
  "getConfiguration c = configuration c"

definition setConfiguration :: "'o Comb \<Rightarrow> Configuration \<Rightarrow> 'o Comb" where
  "setConfiguration c configurationParam = postConfigurationTasks (c\<lparr>configuration := configurationParam\<rparr>)"

text \<open>\<open>QByteArray::mid(pos, len)\<close> of Qt.\<close>

definition mid :: "QByteArray \<Rightarrow> int \<Rightarrow> int \<Rightarrow> QByteArray" where
  "mid buf pos len =
     (let n = int (length buf) in
      if pos > n then []
      else if pos < 0 then
        (if len < 0 \<or> len + pos \<ge> n then buf
         else if len + pos \<le> 0 then []
         else take (nat (len + pos)) buf)
      else if len < 0 \<or> len > n - pos then drop (nat pos) buf
      else take (nat len) (drop (nat pos) buf))"

function interlace ::
  "Configuration \<Rightarrow> int \<Rightarrow> QByteArray \<Rightarrow> QByteArray \<Rightarrow> int \<Rightarrow> int \<Rightarrow> QByteArray \<Rightarrow> QByteArray" where
  "interlace cfg frameHeight' firstFieldInputBuffer secondFieldInputBuffer frameLine fieldLine raw =
     (if frameLine < frameHeight'
      then interlace cfg frameHeight' firstFieldInputBuffer secondFieldInputBuffer (frameLine + 2) (fieldLine + 1)
             (raw @ mid firstFieldInputBuffer (fieldLine * fieldWidth cfg * 2) (fieldWidth cfg * 2)
                  @ mid secondFieldInputBuffer (fieldLine * fieldWidth cfg * 2) (fieldWidth cfg * 2))
      else raw)"
  by pat_completeness auto
termination
  by (relation "measure (\<lambda>(cfg, fh, a, b, frameLine, fieldLine, raw). nat (fh - frameLine))") auto

declare interlace.simps [simp del]

definition process ::
  "('f, 'o) Externals \<Rightarrow> 'o Comb \<Rightarrow> QByteArray \<Rightarrow> QByteArray \<Rightarrow> real \<Rightarrow> int \<Rightarrow> int
     \<Rightarrow> (QByteArray \<times> 'o Comb) option" where
  "process ext c firstFieldInputBuffer secondFieldInputBuffer burstMedianIre firstFieldPhaseID' secondFieldPhaseID' = do {
     let currentFrameBuffer = FrameBuffer_new\<lparr>clpbuffer := replicate 3 (\<lambda>lineNumber h. 0)\<rparr>;
     let currentFrameBuffer = currentFrameBuffer\<lparr>rawbuffer :=
           interlace (configuration c) (frameHeight c) firstFieldInputBuffer secondFieldInputBuffer 0 0 []\<rparr>;
     let currentFrameBuffer = currentFrameBuffer\<lparr>burstLevel := burstMedianIre\<rparr>;
     let currentFrameBuffer = currentFrameBuffer\<lparr>firstFieldPhaseID := firstFieldPhaseID',
           secondFieldPhaseID := secondFieldPhaseID'\<rparr>;
     if \<not> use3D (configuration c)
     then do {
       currentFrameBuffer \<leftarrow> split1D ext c currentFrameBuffer;
       currentFrameBuffer \<leftarrow> split2D c currentFrameBuffer;
       currentFrameBuffer \<leftarrow> splitIQ c currentFrameBuffer;
       let tempYiqBuffer = yiqBuffer currentFrameBuffer;
       tempYiqBuffer \<leftarrow> adjustY c tempYiqBuffer (firstFieldPhaseID currentFrameBuffer)
                          (secondFieldPhaseID currentFrameBuffer);
       currentFrameBuffer \<leftarrow>
         (if colorlpf (configuration c)
          then map_option (\<lambda>b. currentFrameBuffer\<lparr>yiqBuffer := b\<rparr>) (filterIQ ext c (yiqBuffer currentFrameBuffer))
          else Some currentFrameBuffer);
       tempYiqBuffer \<leftarrow> doYNR ext c tempYiqBuffer;
       tempYiqBuffer \<leftarrow> doCNR ext c tempYiqBuffer;
       rgbOutputBuffer \<leftarrow> yiqToRgbFrame ext c tempYiqBuffer (burstLevel currentFrameBuffer);
       Some (rgbOutputBuffer, c)
     }
     else do {
       currentFrameBuffer \<leftarrow> split1D ext c currentFrameBuffer;
       currentFrameBuffer \<leftarrow> split2D c currentFrameBuffer;
       currentFrameBuffer \<leftarrow> splitIQ c currentFrameBuffer;
       let tempYiqBuffer = yiqBuffer currentFrameBuffer;
       tempYiqBuffer \<leftarrow> adjustY c tempYiqBuffer (firstFieldPhaseID currentFrameBuffer)
                          (secondFieldPhaseID currentFrameBuffer);
       currentFrameBuffer \<leftarrow>
         (if colorlpf (configuration c)
          then map_option (\<lambda>b. currentFrameBuffer\<lparr>yiqBuffer := b\<rparr>) (filterIQ ext c (yiqBuffer currentFrameBuffer))
          else Some currentFrameBuffer);
       tempYiqBuffer \<leftarrow> doYNR ext c tempYiqBuffer;
       tempYiqBuffer \<leftarrow> doCNR ext c tempYiqBuffer;
       let (k, flow) = denseOpticalFlow ext (opticalFlow c) (yiqBuffer currentFrameBuffer)
                         (kValues currentFrameBuffer);
       let currentFrameBuffer = currentFrameBuffer\<lparr>kValues := k\<rparr>;
       currentFrameBuffer \<leftarrow> split3D c currentFrameBuffer (previousFrameBuffer c);
       currentFrameBuffer \<leftarrow> splitIQ c currentFrameBuffer;
       let tempYiqBuffer = yiqBuffer currentFrameBuffer;
       tempYiqBuffer \<leftarrow> adjustY c tempYiqBuffer (firstFieldPhaseID currentFrameBuffer)
                          (secondFieldPhaseID currentFrameBuffer);
       currentFrameBuffer \<leftarrow>
         (if colorlpf (configuration c)
          then map_option (\<lambda>b. currentFrameBuffer\<lparr>yiqBuffer := b\<rparr>) (filterIQ ext c (yiqBuffer currentFrameBuffer))
          else Some currentFrameBuffer);
       tempYiqBuffer \<leftarrow> doYNR ext c tempYiqBuffer;
       tempYiqBuffer \<leftarrow> doCNR ext c tempYiqBuffer;
       rgbOutputBuffer \<leftarrow> yiqToRgbFrame ext c tempYiqBuffer (burstLevel currentFrameBuffer);
       rgbOutputBuffer \<leftarrow>
         (if showOpticalFlowMap (configuration c)
          then overlayOpticalFlowMap c currentFrameBuffer rgbOutputBuffer
          else Some rgbOutputBuffer);
       Some (rgbOutputBuffer, c\<lparr>previousFrameBuffer := currentFrameBuffer, opticalFlow := flow\<rparr>)
     }
   }"

section \<open>Notions used in the statements and proofs\<close>

text \<open>The tracker run on its own: the state after the lines from \<open>lineNumber\<close> up to
  \<open>n - 1\<close>, and the \<open>invertphase\<close> that a visible line is processed with.\<close>

function track_phase :: "int \<Rightarrow> int \<Rightarrow> bool \<times> bool \<times> bool \<Rightarrow> bool \<times> bool \<times> bool" where
  "track_phase lineNumber n ph =
     (if lineNumber < n then track_phase (lineNumber + 1) n (line_phase lineNumber ph) else ph)"
  by pat_completeness auto
termination
  by (relation "measure (\<lambda>(lineNumber, n, ph). nat (n - lineNumber))") auto

declare track_phase.simps [simp del]

definition invertphase_at :: "Configuration \<Rightarrow> int \<Rightarrow> int \<Rightarrow> int \<Rightarrow> bool" where
  "invertphase_at cfg firstFieldPhaseID' secondFieldPhaseID' lineNumber =
     snd (snd (track_phase (firstVisibleFrameLine cfg) (lineNumber + 1)
                 (initial_phase firstFieldPhaseID' secondFieldPhaseID')))"

text \<open>The raw chroma sample of \<open>split1D\<close>: the integer mean of the samples two columns
  to the right and to the left, minus the sample itself.\<close>

definition avg_minus :: "QByteArray \<Rightarrow> int \<Rightarrow> int \<Rightarrow> real option" where
  "avg_minus raw line h = do {
     a \<leftarrow> quint16_at raw line (h + 2);
     b \<leftarrow> quint16_at raw line (h - 2);
     c \<leftarrow> quint16_at raw line h;
     Some (real_of_int (cdiv (a + b) 2 - c))
   }"

text \<open>Progress of \<open>split1D\<close>: the cells of plane 0 written so far hold the raw chroma
  sample, every other cell and plane is as before.\<close>

definition cells1D :: "Configuration \<Rightarrow> QByteArray \<Rightarrow> int \<Rightarrow> int \<Rightarrow> int \<Rightarrow> PixelLine list \<Rightarrow> PixelLine list \<Rightarrow> bool" where
  "cells1D cfg raw L a j clp0 clp \<longleftrightarrow>
     length clp = length clp0 \<and> (\<forall>k. 0 < k \<longrightarrow> clp ! k = clp0 ! k) \<and>
     (\<forall>l c. (clp ! 0) l c =
        (if l = L \<and> a \<le> c \<and> c < j then the (avg_minus raw ((L * fieldWidth cfg) * 2) c) else (clp0 ! 0) l c)) \<and>
     (\<forall>c. a \<le> c \<and> c < j \<longrightarrow> avg_minus raw ((L * fieldWidth cfg) * 2) c \<noteq> None \<and> clp0 \<noteq> [])"

definition lines1D :: "Configuration \<Rightarrow> int \<Rightarrow> FrameBuffer \<Rightarrow> FrameBuffer \<Rightarrow> bool" where
  "lines1D cfg j fb0 fb \<longleftrightarrow>
     fb = fb0\<lparr>clpbuffer := clpbuffer fb\<rparr> \<and>
     length (clpbuffer fb) = length (clpbuffer fb0) \<and> (\<forall>k. 0 < k \<longrightarrow> clpbuffer fb ! k = clpbuffer fb0 ! k) \<and>
     (\<forall>l c. (clpbuffer fb ! 0) l c =
        (if firstVisibleFrameLine cfg \<le> l \<and> l < j \<and> activeVideoStart cfg \<le> c \<and> c < activeVideoEnd cfg
         then the (avg_minus (rawbuffer fb0) ((l * fieldWidth cfg) * 2) c) else (clpbuffer fb0 ! 0) l c)) \<and>
     (\<forall>l c. firstVisibleFrameLine cfg \<le> l \<and> l < j \<and> activeVideoStart cfg \<le> c \<and> c < activeVideoEnd cfg
        \<longrightarrow> avg_minus (rawbuffer fb0) ((l * fieldWidth cfg) * 2) c \<noteq> None \<and> clpbuffer fb0 \<noteq> [])"

text \<open>Progress of a pass that fills plane \<open>k\<close>: the cells in \<open>A\<close> hold the value
  \<open>F\<close> gives for them, every other cell and plane is as before.\<close>

definition written ::
  "nat \<Rightarrow> (int \<Rightarrow> int \<Rightarrow> real option) \<Rightarrow> (int \<Rightarrow> int \<Rightarrow> bool) \<Rightarrow> PixelLine list \<Rightarrow> PixelLine list \<Rightarrow> bool" where
  "written k F A clp0 clp \<longleftrightarrow>
     length clp = length clp0 \<and> (\<forall>m. m \<noteq> k \<longrightarrow> clp ! m = clp0 ! m) \<and>
     (\<forall>l c. (clp ! k) l c = (if A l c then the (F l c) else (clp0 ! k) l c)) \<and>
     (\<forall>l c. A l c \<longrightarrow> F l c \<noteq> None \<and> k < length clp0)"

text \<open>The value \<open>split3D\<close> computes for a cell.\<close>

definition diff3D :: "Configuration \<Rightarrow> QByteArray \<Rightarrow> QByteArray \<Rightarrow> int \<Rightarrow> int \<Rightarrow> real option" where
  "diff3D cfg currentRaw previousRaw lineNumber h = do {
     previousSample \<leftarrow> quint16_at previousRaw ((lineNumber * fieldWidth cfg) * 2) h;
     currentSample \<leftarrow> quint16_at currentRaw ((lineNumber * fieldWidth cfg) * 2) h;
     Some (real_of_int (cdiv (previousSample - currentSample) 2))
   }"

text \<open>The pixel \<open>adjustY\<close> writes at column \<open>h\<close>, given the pixel \<open>px\<close> it read at
  column \<open>h + 2\<close>.\<close>

definition adjusted :: "bool \<Rightarrow> int \<Rightarrow> YIQ \<Rightarrow> YIQ" where
  "adjusted invertphase h px =
     px\<lparr>y := y px + (if invertphase then - 1 else 1) *
                    (if crem h 4 = 0 then q px
                     else if crem h 4 = 1 then - i px
                     else if crem h 4 = 2 then - q px
                     else if crem h 4 = 3 then i px
                     else 0)\<rparr>"

text \<open>The invariant of the line loop of \<open>adjustY\<close>.\<close>

definition adjustY_inv ::
  "Configuration \<Rightarrow> int \<Rightarrow> int \<Rightarrow> YiqBuffer \<Rightarrow> int \<Rightarrow> int \<Rightarrow> (bool \<times> bool \<times> bool) \<times> YiqBuffer \<Rightarrow> bool" where
  "adjustY_inv cfg p1 p2 b0 n j st \<longleftrightarrow>
     fst st = track_phase (firstVisibleFrameLine cfg) j (initial_phase p1 p2) \<and>
     (\<forall>l c. snd st l c =
        (if firstVisibleFrameLine cfg \<le> l \<and> l < j \<and> l < n \<and> activeVideoStart cfg \<le> c \<and> c < activeVideoEnd cfg
         then adjusted (invertphase_at cfg p1 p2 l) c (b0 l (c + 2)) else b0 l c))"

text \<open>The running values \<open>si\<close>, \<open>sq\<close> of \<open>splitIQ\<close>: one column's update, and the values
  after the columns from \<open>a\<close> up to \<open>n - 1\<close> of a line.\<close>

definition iq_step :: "bool \<Rightarrow> int \<Rightarrow> real \<Rightarrow> real \<times> real \<Rightarrow> real \<times> real" where
  "iq_step invertphase h cavg s =
     (let cv = (if \<not> invertphase then - cavg else cavg) in
      if crem h 4 = 0 then (fst s, cv)
      else if crem h 4 = 1 then (- cv, snd s)
      else if crem h 4 = 2 then (fst s, - cv)
      else if crem h 4 = 3 then (cv, snd s)
      else s)"

function iq_state ::
  "Configuration \<Rightarrow> FrameBuffer \<Rightarrow> int \<Rightarrow> bool \<Rightarrow> int \<Rightarrow> int \<Rightarrow> real \<times> real \<Rightarrow> real \<times> real" where
  "iq_state cfg frameBuffer lineNumber invertphase a n s =
     (if a < n
      then iq_state cfg frameBuffer lineNumber invertphase (a + 1) n
             (iq_step invertphase a (the (splitIQ_cavg cfg frameBuffer lineNumber a)) s)
      else s)"
  by pat_completeness auto
termination
  by (relation "measure (\<lambda>(cfg, frameBuffer, lineNumber, invertphase, a, n, s). nat (n - a))") auto

declare iq_state.simps [simp del]

text \<open>The pixel \<open>splitIQ\<close> writes at a column.\<close>

definition iq_pixel :: "Configuration \<Rightarrow> FrameBuffer \<Rightarrow> int \<Rightarrow> bool \<Rightarrow> int \<Rightarrow> YIQ" where
  "iq_pixel cfg frameBuffer lineNumber invertphase h =
     (let s = iq_state cfg frameBuffer lineNumber invertphase (activeVideoStart cfg) (h + 1) (0, 0) in
      \<lparr>y = real_of_int (the (quint16_at (rawbuffer frameBuffer) ((lineNumber * fieldWidth cfg) * 2) h)),
       i = fst s, q = snd s\<rparr>)"

definition iq_defined :: "Configuration \<Rightarrow> FrameBuffer \<Rightarrow> int \<Rightarrow> int \<Rightarrow> bool" where
  "iq_defined cfg frameBuffer lineNumber h \<longleftrightarrow>
     splitIQ_cavg cfg frameBuffer lineNumber h \<noteq> None \<and>
     quint16_at (rawbuffer frameBuffer) ((lineNumber * fieldWidth cfg) * 2) h \<noteq> None"

text \<open>The invariants of the column loop and of the line loop of \<open>splitIQ\<close>.\<close>

definition splitIQ_cols ::
  "Configuration \<Rightarrow> FrameBuffer \<Rightarrow> int \<Rightarrow> bool \<Rightarrow> YiqBuffer \<Rightarrow> int \<Rightarrow> int \<Rightarrow> real \<times> real \<times> YiqBuffer \<Rightarrow> bool" where
  "splitIQ_cols cfg fb L ip b0 n j st \<longleftrightarrow>
     (fst st, fst (snd st)) = iq_state cfg fb L ip (activeVideoStart cfg) j (0, 0) \<and>
     (\<forall>l c. snd (snd st) l c =
        (if l = L \<and> activeVideoStart cfg \<le> c \<and> c < j \<and> c < n then iq_pixel cfg fb L ip c else b0 l c)) \<and>
     (\<forall>c. activeVideoStart cfg \<le> c \<and> c < j \<and> c < n \<longrightarrow> iq_defined cfg fb L c)"

definition splitIQ_lines ::
  "Configuration \<Rightarrow> FrameBuffer \<Rightarrow> int \<Rightarrow> int \<Rightarrow> (bool \<times> bool \<times> bool) \<times> YiqBuffer \<Rightarrow> bool" where
  "splitIQ_lines cfg fb n j st \<longleftrightarrow>
     fst st = track_phase (firstVisibleFrameLine cfg) j
                (initial_phase (firstFieldPhaseID fb) (secondFieldPhaseID fb)) \<and>
     (\<forall>l c. snd st l c =
        (if firstVisibleFrameLine cfg \<le> l \<and> l < j \<and> l < n \<and> activeVideoStart cfg \<le> c \<and> c < activeVideoEnd cfg
         then iq_pixel cfg fb l (invertphase_at cfg (firstFieldPhaseID fb) (secondFieldPhaseID fb) l) c
         else yiq_clear l c)) \<and>
     (\<forall>l c. firstVisibleFrameLine cfg \<le> l \<and> l < j \<and> l < n \<and> activeVideoStart cfg \<le> c \<and> c < activeVideoEnd cfg
        \<longrightarrow> iq_defined cfg fb l c)"

text \<open>The value \<open>tc1\<close> that \<open>split2D\<close> forms for a cell from plane 0, and the same as an
  optional real: \<open>None\<close> when it is not finite.\<close>

definition est2D :: "real \<Rightarrow> PixelLine \<Rightarrow> int \<Rightarrow> int \<Rightarrow> ieee" where
  "est2D irescale' clp0 lineNumber h =
     (case split2D_weights irescale' clp0 lineNumber h of (kp, kn, sc) \<Rightarrow>
        ieee_div
          (ieee_add (ieee_mul (ieee_mul (Finite (clp0 lineNumber h - clp0 (lineNumber - 2) h)) kp) sc)
                    (ieee_mul (ieee_mul (Finite (clp0 lineNumber h - clp0 (lineNumber + 2) h)) kn) sc))
          (Finite 8))"

definition finite_part :: "ieee \<Rightarrow> real option" where
  "finite_part v = (case v of Finite r \<Rightarrow> Some r | _ \<Rightarrow> None)"

text \<open>The engine with the quality flag of the chroma filter set to \<open>v\<close>.\<close>

definition with_hq :: "bool \<Rightarrow> 'o Comb \<Rightarrow> 'o Comb" where
  "with_hq v c = c\<lparr>configuration := (configuration c)\<lparr>colorlpf_hq := v\<rparr>\<rparr>"

text \<open>Two YIQ buffers with the same Y and I in every pixel.\<close>

definition same_yi :: "YiqBuffer \<Rightarrow> YiqBuffer \<Rightarrow> bool" where
  "same_yi b1 b2 \<longleftrightarrow> (\<forall>l h. y (b1 l h) = y (b2 l h) \<and> i (b1 l h) = i (b2 l h))"

text \<open>The colour conversion yields values that the cast to \<open>quint16\<close> accepts (the
  specification has \<open>RGB::conv\<close> clamp its result to the 16-bit range).\<close>

definition conv_in_range :: "('f, 'o) Externals \<Rightarrow> bool" where
  "conv_in_range ext \<longleftrightarrow>
     (\<forall>w b wp bw px burst.
        to_quint16 (fst (conv ext w b wp bw px burst)) \<noteq> None \<and>
        to_quint16 (fst (snd (conv ext w b wp bw px burst))) \<noteq> None \<and>
        to_quint16 (snd (snd (conv ext w b wp bw px burst))) \<noteq> None)"

section \<open>Concrete frames\<close>

subsection \<open>A small frame: 3 lines of 5 samples\<close>

text \<open>Lines 1 and 2 are visible and column 2 is the only active one. The filters pass
  their input through, the colour conversion returns the clamped luma in all three channels,
  and the optical flow leaves the motion values as they are.\<close>

definition tiny_ext :: "(unit, unit) Externals" where
  "tiny_ext = \<lparr>feed = (\<lambda>f v. (v, f)), f_colorlpi = (), f_colorlpq = (), f_nr = (), f_nrc = (),
     conv = (\<lambda>w b wp bw p burst. (max 0 (min 65535 (y p)), max 0 (min 65535 (y p)), max 0 (min 65535 (y p)))),
     denseOpticalFlow = (\<lambda>opt buf k. (k, opt))\<rparr>"

definition tiny_cfg :: Configuration where
  "tiny_cfg = \<lparr>blackAndWhite = False, whitePoint100 = False, colorlpf = False, colorlpf_hq = False,
     fieldWidth = 5, fieldHeight = 2, activeVideoStart = 2, activeVideoEnd = 3,
     firstVisibleFrameLine = 1, blackIre = 0, whiteIre = 100, use3D = False, showOpticalFlowMap = False\<rparr>"

definition tiny_comb :: "unit Comb" where
  "tiny_comb = postConfigurationTasks \<lparr>configuration = tiny_cfg, irescale = 0, frameHeight = 0,
     previousFrameBuffer = FrameBuffer_new, opticalFlow = ()\<rparr>"

definition tiny_line :: QByteArray where
  "tiny_line = [10, 0, 0, 0, 3, 0, 0, 0, 20, 0]"

definition tiny_frame :: FrameBuffer where
  "tiny_frame = FrameBuffer_new\<lparr>rawbuffer := replicate 10 0 @ tiny_line @ tiny_line,
     clpbuffer := [\<lambda>l h. 0, \<lambda>l h. 0, \<lambda>l h. 0], firstFieldPhaseID := 1, secondFieldPhaseID := 1\<rparr>"

text \<open>A previous frame of the same size, all samples zero.\<close>

definition tiny_previous :: FrameBuffer where
  "tiny_previous = FrameBuffer_new\<lparr>rawbuffer := replicate 30 0\<rparr>"

text \<open>A YIQ buffer for the small frame: two non-zero pixels on line 1.\<close>

definition tiny_yiq :: YiqBuffer where
  "tiny_yiq = set_yiq (set_yiq yiq_clear 1 2 \<lparr>y = 100, i = 1, q = 2\<rparr>) 1 4 \<lparr>y = 200, i = 10, q = 20\<rparr>"

subsection \<open>A second frame: 7 lines of 8 samples\<close>

text \<open>Lines 3 to 6 are visible, columns 2 to 5 are active. Plane 1 holds the column number
  in every cell.\<close>

definition small_cfg :: Configuration where
  "small_cfg = \<lparr>blackAndWhite = False, whitePoint100 = False, colorlpf = False, colorlpf_hq = False,
     fieldWidth = 8, fieldHeight = 4, activeVideoStart = 2, activeVideoEnd = 6,
     firstVisibleFrameLine = 3, blackIre = 0, whiteIre = 100, use3D = False, showOpticalFlowMap = False\<rparr>"

definition small_comb :: "unit Comb" where
  "small_comb = postConfigurationTasks \<lparr>configuration = small_cfg, irescale = 0, frameHeight = 0,
     previousFrameBuffer = FrameBuffer_new, opticalFlow = ()\<rparr>"

definition small_frame :: FrameBuffer where
  "small_frame = FrameBuffer_new\<lparr>rawbuffer := replicate 112 0,
     clpbuffer := [\<lambda>l h. 0, \<lambda>l h. real_of_int h, \<lambda>l h. 0], firstFieldPhaseID := 1, secondFieldPhaseID := 1\<rparr>"

text \<open>Plane 0 for the second frame: column 3 holds 36, 40 and 140 on the lines 2, 4 and 6.
  \<open>small_late\<close> is the same engine with the first visible line moved to 5.\<close>

definition small_plane0 :: PixelLine where
  "small_plane0 = (\<lambda>l h. if h = 3 then (if l = 2 then 36 else if l = 4 then 40 else if l = 6 then 140 else 0) else 0)"



text \<open>A configuration whose IRE levels are 50 apart, and a 1D plane that is zero except for
  100 at line 6, column 3.\<close>

definition narrow_cfg :: Configuration where
  "narrow_cfg = small_cfg\<lparr>whiteIre := 50\<rparr>"

definition narrow_plane0 :: PixelLine where
  "narrow_plane0 = (\<lambda>l h. if l = 6 \<and> h = 3 then 100 else 0)"

text \<open>Filters that multiply their input by their state: a table that passes the signal and a
  table that blocks it, wired as \<open>f_colorlpi\<close> and \<open>f_colorlpq\<close>. And the small frame with
  column 3 as its active column, with a YIQ buffer that has one non-zero pixel there.\<close>

definition gain_ext :: "(real, unit) Externals" where
  "gain_ext = \<lparr>feed = (\<lambda>f v. (f * v, f)), f_colorlpi = 1, f_colorlpq = 0, f_nr = 0, f_nrc = 0,
     conv = (\<lambda>w b wp bw p burst. (y p, y p, y p)),
     denseOpticalFlow = (\<lambda>opt buf k. (k, opt))\<rparr>"

definition odd_comb :: "unit Comb" where
  "odd_comb = setConfiguration tiny_comb (tiny_cfg\<lparr>activeVideoStart := 3, activeVideoEnd := 4\<rparr>)"

definition odd_yiq :: YiqBuffer where
  "odd_yiq = set_yiq yiq_clear 1 3 \<lparr>y = 5, i = 6, q = 8\<rparr>"

text \<open>One field of the small frame (two lines), and the small frame's engine with a field
  height of 0.\<close>

definition tiny_field :: QByteArray where
  "tiny_field = tiny_line @ tiny_line"

definition flat_comb :: "unit Comb" where
  "flat_comb = setConfiguration tiny_comb (tiny_cfg\<lparr>fieldHeight := 0\<rparr>)"

section \<open>Loops\<close>

lemma for_loop_rule:
  assumes "for_loop a n body s = Some s'"
    and "P a s"
    and "\<And>j t t'. a \<le> j \<Longrightarrow> j < n \<Longrightarrow> P j t \<Longrightarrow> body j t = Some t' \<Longrightarrow> P (j + 1) t'"
  shows "P (max a n) s'"
  using assms
proof (induction a n body s rule: for_loop.induct)
  case (1 k n body s)
  show ?case
  proof (cases "k < n")
    case True
    with "1.prems"(1) obtain t where t: "body k s = Some t" and r: "for_loop (k + 1) n body t = Some s'"
      by (subst (asm) for_loop.simps) (auto split: option.splits)
    have "P (k + 1) t" using "1.prems"(3)[of k s t] True "1.prems"(2) t by simp
    then have "P (max (k + 1) n) s'"
      using "1.IH"[OF True t r] "1.prems"(3) by simp
    with True show ?thesis by (simp add: max_def)
  next
    case False
    with "1.prems"(1) have "s' = s" by (subst (asm) for_loop.simps) simp
    with False "1.prems"(2) show ?thesis by (simp add: max_def)
  qed
qed

lemma for_loop_total:
  assumes "P a s"
    and "\<And>j t. a \<le> j \<Longrightarrow> j < n \<Longrightarrow> P j t \<Longrightarrow> \<exists>t'. body j t = Some t' \<and> P (j + 1) t'"
  shows "\<exists>s'. for_loop a n body s = Some s' \<and> P (max a n) s'"
  using assms
proof (induction a n body s rule: for_loop.induct)
  case (1 k n body s)
  show ?case
  proof (cases "k < n")
    case True
    from "1.prems"(2)[of k s] True "1.prems"(1) obtain t where t: "body k s = Some t" and pt: "P (k + 1) t"
      by auto
    have "\<exists>s'. for_loop (k + 1) n body t = Some s' \<and> P (max (k + 1) n) s'"
      using "1.IH"[OF True t pt] "1.prems"(2) by simp
    then show ?thesis using True t by (subst for_loop.simps) (auto simp: max_def)
  next
    case False
    then show ?thesis using "1.prems"(1) by (subst for_loop.simps) (simp add: max_def)
  qed
qed

lemma for_loop_empty: "n \<le> a \<Longrightarrow> for_loop a n body s = Some s"
  by (subst for_loop.simps) simp

section \<open>split1D\<close>

lemma split1D_pixel_Some:
  assumes "split1D_pixel ext cfg raw L ip h (fi, fq, clp) = Some (fi', fq', clp')"
  shows "\<exists>v p. avg_minus raw ((L * fieldWidth cfg) * 2) h = Some v \<and> qvector_at clp 0 = Some p
           \<and> clp' = clp[0 := set_pixel p L h v]"
  using assms
  by (auto simp: split1D_pixel_def avg_minus_def Let_def qvector_set_def qvector_at_def
      split: Option.bind_splits prod.splits if_splits)

lemma cells1D_step:
  assumes "cells1D cfg raw L a j clp0 clp" "a \<le> j"
    and "split1D_pixel ext cfg raw L ip j (fi, fq, clp) = Some (fi', fq', clp')"
  shows "cells1D cfg raw L a (j + 1) clp0 clp'"
proof -
  from split1D_pixel_Some[OF assms(3)] obtain v p where
    v: "avg_minus raw ((L * fieldWidth cfg) * 2) j = Some v" and p: "qvector_at clp 0 = Some p"
    and c: "clp' = clp[0 := set_pixel p L j v]" by blast
  from p have ne: "clp \<noteq> []" and p0: "p = clp ! 0"
    by (auto simp: qvector_at_def split: if_splits)
  from ne assms(1) have ne0: "clp0 \<noteq> []" by (auto simp: cells1D_def)
  have lt: "\<And>c::int. c < j + 1 \<longleftrightarrow> c < j \<or> c = j" by auto
  show ?thesis
    using assms(1,2) v ne ne0 unfolding cells1D_def c p0 set_pixel_def lt
    by (auto simp: nth_list_update)
qed

lemma split1D_columns:
  assumes "for_loop a n (split1D_pixel ext cfg raw L ip) (fi, fq, clp0) = Some (fi', fq', clp')"
  shows "cells1D cfg raw L a n clp0 clp'"
proof -
  have "(\<lambda>j st. cells1D cfg raw L a (if n \<le> a then n else j) clp0 (snd (snd st))) (max a n) (fi', fq', clp')"
  proof (rule for_loop_rule[OF assms])
    show "cells1D cfg raw L a (if n \<le> a then n else a) clp0 (snd (snd (fi, fq, clp0)))"
      by (auto simp: cells1D_def)
  next
    fix j t t'
    assume "a \<le> j" "j < n" "cells1D cfg raw L a (if n \<le> a then n else j) clp0 (snd (snd t))"
      "split1D_pixel ext cfg raw L ip j t = Some t'"
    then show "cells1D cfg raw L a (if n \<le> a then n else j + 1) clp0 (snd (snd t'))"
      using cells1D_step[of cfg raw L a j clp0 "snd (snd t)" ext ip "fst t" "fst (snd t)" "fst t'" "fst (snd t')" "snd (snd t')"]
      by simp
  qed
  then show ?thesis by (auto simp: max_def split: if_splits)
qed

lemma split1D_line_Some:
  assumes "split1D_line ext cfg L (ph, fb) = Some (ph', fb')"
  shows "\<exists>clp'. fb' = fb\<lparr>clpbuffer := clp'\<rparr> \<and>
           cells1D cfg (rawbuffer fb) L (activeVideoStart cfg) (activeVideoEnd cfg) (clpbuffer fb) clp'"
  using assms
  by (auto simp: split1D_line_def Let_def split: Option.bind_splits prod.splits dest: split1D_columns)

lemma lines1D_step:
  assumes "lines1D cfg j fb0 fb" "firstVisibleFrameLine cfg \<le> j"
    and "split1D_line ext cfg j (ph, fb) = Some (ph', fb')"
  shows "lines1D cfg (j + 1) fb0 fb'"
proof -
  from split1D_line_Some[OF assms(3)] obtain clp' where
    fb': "fb' = fb\<lparr>clpbuffer := clp'\<rparr>"
    and c: "cells1D cfg (rawbuffer fb) j (activeVideoStart cfg) (activeVideoEnd cfg) (clpbuffer fb) clp'"
    by blast
  from assms(1) have raw: "rawbuffer fb = rawbuffer fb0"
    unfolding lines1D_def by (metis FrameBuffer.select_convs(1) FrameBuffer.surjective FrameBuffer.update_convs(2))
  have lt: "\<And>c::int. c < j + 1 \<longleftrightarrow> c < j \<or> c = j" by auto
  have eq: "fb' = fb0\<lparr>clpbuffer := clpbuffer fb'\<rparr>"
    using assms(1) fb' unfolding lines1D_def by (metis FrameBuffer.update_convs(2) FrameBuffer.select_convs(2) FrameBuffer.surjective)
  show ?thesis
    unfolding lines1D_def
  proof (intro conjI allI impI)
    show "fb' = fb0\<lparr>clpbuffer := clpbuffer fb'\<rparr>" by (rule eq)
    show "length (clpbuffer fb') = length (clpbuffer fb0)"
      using assms(1) c by (simp add: fb' lines1D_def cells1D_def)
    show "clpbuffer fb' ! k = clpbuffer fb0 ! k" if "0 < k" for k
      using assms(1) c that by (simp add: fb' lines1D_def cells1D_def)
    show "(clpbuffer fb' ! 0) l c =
        (if firstVisibleFrameLine cfg \<le> l \<and> l < j + 1 \<and> activeVideoStart cfg \<le> c \<and> c < activeVideoEnd cfg
         then the (avg_minus (rawbuffer fb0) ((l * fieldWidth cfg) * 2) c) else (clpbuffer fb0 ! 0) l c)" for l c
      using assms(1,2) c unfolding lt by (simp add: fb' raw lines1D_def cells1D_def)
    show "avg_minus (rawbuffer fb0) ((l * fieldWidth cfg) * 2) c \<noteq> None"
      if "firstVisibleFrameLine cfg \<le> l \<and> l < j + 1 \<and> activeVideoStart cfg \<le> c \<and> c < activeVideoEnd cfg" for l c
      using assms(1,2) c that unfolding lt by (auto simp add: fb' raw lines1D_def cells1D_def)
    show "clpbuffer fb0 \<noteq> []"
      if "firstVisibleFrameLine cfg \<le> l \<and> l < j + 1 \<and> activeVideoStart cfg \<le> c \<and> c < activeVideoEnd cfg" for l c
      using assms(1,2) c that unfolding lt by (auto simp add: fb' raw lines1D_def cells1D_def)
  qed
qed

lemma split1D_lines:
  assumes "split1D ext c fb = Some fb'"
  shows "lines1D (configuration c) (frameHeight c) fb fb'"
proof -
  let ?cfg = "configuration c"
  let ?a = "firstVisibleFrameLine ?cfg"
  let ?n = "frameHeight c"
  from assms obtain ph' where
    loop: "for_loop ?a ?n (split1D_line ext ?cfg)
             (initial_phase (firstFieldPhaseID fb) (secondFieldPhaseID fb), fb) = Some (ph', fb')"
    by (auto simp: split1D_def split: Option.bind_splits prod.splits)
  have "(\<lambda>j st. lines1D ?cfg (if ?n \<le> ?a then ?n else j) fb (snd st)) (max ?a ?n) (ph', fb')"
  proof (rule for_loop_rule[OF loop])
    show "lines1D ?cfg (if ?n \<le> ?a then ?n else ?a) fb (snd (initial_phase (firstFieldPhaseID fb) (secondFieldPhaseID fb), fb))"
      by (auto simp: lines1D_def)
  next
    fix j t t'
    assume "?a \<le> j" "j < ?n" "lines1D ?cfg (if ?n \<le> ?a then ?n else j) fb (snd t)"
      "split1D_line ext ?cfg j t = Some t'"
    then show "lines1D ?cfg (if ?n \<le> ?a then ?n else j + 1) fb (snd t')"
      using lines1D_step[of ?cfg j fb "snd t" ext "fst t" "fst t'" "snd t'"] by simp
  qed
  then show ?thesis by (auto simp: max_def split: if_splits)
qed

text \<open>
  C4, as amended. For every visible line and every active column \<open>h\<close>, the value that
  \<open>split1D\<close> stores as the 1D chroma estimate is \<open>(sample[h+2] + sample[h-2]) / 2 - sample[h]\<close>
  (integer mean), whatever the line's phase-inversion state: the sign correction applied for the
  filters is undone before the store.
\<close>

theorem split1D_stores_raw_chroma:
  assumes "split1D ext c frameBuffer = Some frameBuffer'"
    and "firstVisibleFrameLine (configuration c) \<le> lineNumber" and "lineNumber < frameHeight c"
    and "activeVideoStart (configuration c) \<le> h" and "h < activeVideoEnd (configuration c)"
  shows "\<exists>a b s.
           quint16_at (rawbuffer frameBuffer) ((lineNumber * fieldWidth (configuration c)) * 2) (h + 2) = Some a \<and>
           quint16_at (rawbuffer frameBuffer) ((lineNumber * fieldWidth (configuration c)) * 2) (h - 2) = Some b \<and>
           quint16_at (rawbuffer frameBuffer) ((lineNumber * fieldWidth (configuration c)) * 2) h = Some s \<and>
           clpbuffer frameBuffer' \<noteq> [] \<and>
           (clpbuffer frameBuffer' ! 0) lineNumber h = real_of_int (cdiv (a + b) 2 - s)"
proof -
  let ?off = "(lineNumber * fieldWidth (configuration c)) * 2"
  from split1D_lines[OF assms(1)] have L: "lines1D (configuration c) (frameHeight c) frameBuffer frameBuffer'" .
  from L assms(2-5) obtain v where v: "avg_minus (rawbuffer frameBuffer) ?off h = Some v"
    and ne: "clpbuffer frameBuffer \<noteq> []"
    unfolding lines1D_def by blast
  from L assms(2-5) v have val: "(clpbuffer frameBuffer' ! 0) lineNumber h = v"
    unfolding lines1D_def by simp
  from L ne have ne': "clpbuffer frameBuffer' \<noteq> []"
    unfolding lines1D_def by (metis length_0_conv)
  from v obtain a b s where
    "quint16_at (rawbuffer frameBuffer) ?off (h + 2) = Some a"
    "quint16_at (rawbuffer frameBuffer) ?off (h - 2) = Some b"
    "quint16_at (rawbuffer frameBuffer) ?off h = Some s"
    "v = real_of_int (cdiv (a + b) 2 - s)"
    by (auto simp: avg_minus_def split: Option.bind_splits)
  with val ne' show ?thesis by blast
qed

lemma split1D_ex0: "split1D tiny_ext tiny_comb tiny_frame \<noteq> None"
  by code_simp

theorem split1D_stores_raw_chroma_witness:
  "\<exists>fb'. split1D tiny_ext tiny_comb tiny_frame = Some fb' \<and>
     firstVisibleFrameLine (configuration tiny_comb) \<le> 1 \<and> 1 < frameHeight tiny_comb \<and>
     activeVideoStart (configuration tiny_comb) \<le> 2 \<and> 2 < activeVideoEnd (configuration tiny_comb) \<and>
     (clpbuffer fb' ! 0) 1 2 = 12"
proof -
  from split1D_ex0 obtain fb' where r: "split1D tiny_ext tiny_comb tiny_frame = Some fb'" by blast
  have h: "firstVisibleFrameLine (configuration tiny_comb) \<le> 1" "1 < frameHeight tiny_comb"
    "activeVideoStart (configuration tiny_comb) \<le> 2" "2 < activeVideoEnd (configuration tiny_comb)"
    by (simp_all add: tiny_comb_def tiny_cfg_def postConfigurationTasks_def)
  have "(clpbuffer fb' ! 0) 1 2 = 12"
    using split1D_stores_raw_chroma[OF r h]
    by (simp add: quint16_at_def tiny_comb_def tiny_cfg_def tiny_frame_def FrameBuffer_new_def tiny_line_def
        postConfigurationTasks_def cdiv_def nth_append)
  with r h show ?thesis by blast
qed

text \<open>
  C4 as stated fails. With phase IDs 1 and 1, line 1 is processed with \<open>invertphase\<close>
  false and line 2 with \<open>invertphase\<close> true; both hold the samples 10, 0, 3, 0, 20, whose raw
  chroma sample at column 2 is 12. Both lines store 12: the stored value does not follow the
  inversion state.
\<close>

theorem split1D_sign_counterexample:
  "invertphase_at tiny_cfg 1 1 1 = False \<and> invertphase_at tiny_cfg 1 1 2 = True \<and>
   split1D tiny_ext tiny_comb tiny_frame \<noteq> None \<and>
   (clpbuffer (the (split1D tiny_ext tiny_comb tiny_frame)) ! 0) 1 2 = 12 \<and>
   (clpbuffer (the (split1D tiny_ext tiny_comb tiny_frame)) ! 0) 2 2 = 12"
  by code_simp

section \<open>Planes filled cell by cell\<close>

lemma written_refl: "written k F (\<lambda>l c. False) clp clp"
  by (simp add: written_def)

lemma written_pixel:
  assumes "written k F A clp0 clp" "F L j = Some v" "k < length clp"
  shows "written k F (\<lambda>l c. A l c \<or> (l = L \<and> c = j)) clp0 (clp[k := set_pixel (clp ! k) L j v])"
  using assms unfolding written_def set_pixel_def
  by (auto simp: nth_list_update)

lemma written_trans:
  assumes "written k F A clp0 clp1" "written k F B clp1 clp2"
  shows "written k F (\<lambda>l c. A l c \<or> B l c) clp0 clp2"
  using assms unfolding written_def by auto

lemma written_cong:
  assumes "written k F A clp0 clp" "\<And>l c. A l c \<longleftrightarrow> B l c"
  shows "written k F B clp0 clp"
  using assms unfolding written_def by auto

lemma for_loop_written:
  assumes loop: "for_loop a n body clp0 = Some clp'"
    and step: "\<And>j clp clp'. a \<le> j \<Longrightarrow> j < n \<Longrightarrow> body j clp = Some clp' \<Longrightarrow>
                 length clp = length clp0 \<Longrightarrow> (\<forall>m. m \<noteq> k \<longrightarrow> clp ! m = clp0 ! m) \<Longrightarrow>
                 \<exists>v. F L j = Some v \<and> k < length clp \<and> clp' = clp[k := set_pixel (clp ! k) L j v]"
  shows "written k F (\<lambda>l c. l = L \<and> a \<le> c \<and> c < n) clp0 clp'"
proof -
  have "(\<lambda>j clp. written k F (\<lambda>l c. l = L \<and> a \<le> c \<and> c < j \<and> c < n) clp0 clp) (max a n) clp'"
  proof (rule for_loop_rule[OF loop])
    show "written k F (\<lambda>l c. l = L \<and> a \<le> c \<and> c < a \<and> c < n) clp0 clp0"
      by (rule written_cong[OF written_refl]) auto
  next
    fix j t t'
    assume j: "a \<le> j" "j < n" and w: "written k F (\<lambda>l c. l = L \<and> a \<le> c \<and> c < j \<and> c < n) clp0 t"
      and b: "body j t = Some t'"
    from w have "length t = length clp0" "\<forall>m. m \<noteq> k \<longrightarrow> t ! m = clp0 ! m"
      by (simp_all add: written_def)
    from step[OF j b this] obtain v where v: "F L j = Some v" "k < length t"
      and t': "t' = t[k := set_pixel (t ! k) L j v]" by blast
    show "written k F (\<lambda>l c. l = L \<and> a \<le> c \<and> c < j + 1 \<and> c < n) clp0 t'"
      unfolding t' by (rule written_cong[OF written_pixel[OF w v]]) (use j in auto)
  qed
  then show ?thesis by (rule written_cong) (auto simp: max_def)
qed

lemma clpbuffer_only_trans:
  assumes "(t :: FrameBuffer) = fb0\<lparr>clpbuffer := clpbuffer t\<rparr>" "t' = t\<lparr>clpbuffer := clpbuffer t'\<rparr>"
  shows "t' = fb0\<lparr>clpbuffer := clpbuffer t'\<rparr>"
proof -
  have "t' = (fb0\<lparr>clpbuffer := clpbuffer t\<rparr>)\<lparr>clpbuffer := clpbuffer t'\<rparr>"
    using assms by simp
  then show ?thesis by simp
qed

lemma for_loop_lines_written:
  assumes loop: "for_loop a n body (fb0 :: FrameBuffer) = Some fb'"
    and step: "\<And>j fb fb'. a \<le> j \<Longrightarrow> j < n \<Longrightarrow> body j fb = Some fb' \<Longrightarrow>
                 fb = fb0\<lparr>clpbuffer := clpbuffer fb\<rparr> \<Longrightarrow>
                 length (clpbuffer fb) = length (clpbuffer fb0) \<Longrightarrow>
                 (\<forall>m. m \<noteq> k \<longrightarrow> clpbuffer fb ! m = clpbuffer fb0 ! m) \<Longrightarrow>
                 fb' = fb\<lparr>clpbuffer := clpbuffer fb'\<rparr> \<and>
                 written k F (\<lambda>l c. l = j \<and> R j c) (clpbuffer fb) (clpbuffer fb')"
  shows "fb' = fb0\<lparr>clpbuffer := clpbuffer fb'\<rparr> \<and>
         written k F (\<lambda>l c. a \<le> l \<and> l < n \<and> R l c) (clpbuffer fb0) (clpbuffer fb')"
proof -
  let ?P = "\<lambda>j fb. fb = fb0\<lparr>clpbuffer := clpbuffer fb\<rparr> \<and>
         written k F (\<lambda>l c. a \<le> l \<and> l < j \<and> l < n \<and> R l c) (clpbuffer fb0) (clpbuffer fb)"
  have fin: "?P (max a n) fb'"
  proof (rule for_loop_rule[OF loop])
    have "written k F (\<lambda>l c. a \<le> l \<and> l < a \<and> l < n \<and> R l c) (clpbuffer fb0) (clpbuffer fb0)"
      by (rule written_cong[OF written_refl]) auto
    then show "?P a fb0" by simp
  next
    fix j t t'
    assume j: "a \<le> j" "j < n" and p: "?P j t" and b: "body j t = Some t'"
    from p have e: "t = fb0\<lparr>clpbuffer := clpbuffer t\<rparr>" by (rule conjunct1)
    from p have w: "written k F (\<lambda>l c. a \<le> l \<and> l < j \<and> l < n \<and> R l c) (clpbuffer fb0) (clpbuffer t)"
      by (rule conjunct2)
    from w have len: "length (clpbuffer t) = length (clpbuffer fb0)"
      and oth: "\<forall>m. m \<noteq> k \<longrightarrow> clpbuffer t ! m = clpbuffer fb0 ! m"
      by (simp_all add: written_def)
    note s = step[OF j b e len oth]
    from s have e': "t' = t\<lparr>clpbuffer := clpbuffer t'\<rparr>" by (rule conjunct1)
    from s have w': "written k F (\<lambda>l c. l = j \<and> R j c) (clpbuffer t) (clpbuffer t')" by (rule conjunct2)
    have "t' = fb0\<lparr>clpbuffer := clpbuffer t'\<rparr>"
      by (rule clpbuffer_only_trans[OF e e'])
    moreover have "written k F (\<lambda>l c. a \<le> l \<and> l < j + 1 \<and> l < n \<and> R l c) (clpbuffer fb0) (clpbuffer t')"
    proof (rule written_cong[OF written_trans[OF w w']])
      fix l c
      have "l < j + 1 \<longleftrightarrow> l < j \<or> l = j" by auto
      then show "(a \<le> l \<and> l < j \<and> l < n \<and> R l c) \<or> (l = j \<and> R j c)
                  \<longleftrightarrow> (a \<le> l \<and> l < j + 1 \<and> l < n \<and> R l c)"
        using j by auto
    qed
    ultimately show "?P (j + 1) t'" by (rule conjI)
  qed
  from fin have e: "fb' = fb0\<lparr>clpbuffer := clpbuffer fb'\<rparr>" by (rule conjunct1)
  from fin have w: "written k F (\<lambda>l c. a \<le> l \<and> l < max a n \<and> l < n \<and> R l c) (clpbuffer fb0) (clpbuffer fb')"
    by (rule conjunct2)
  have "written k F (\<lambda>l c. a \<le> l \<and> l < n \<and> R l c) (clpbuffer fb0) (clpbuffer fb')"
    by (rule written_cong[OF w]) (auto simp: max_def)
  with e show ?thesis by (rule conjI)
qed

section \<open>split3D\<close>

lemma quint16_at_range: "quint16_at buf off idx = Some s \<Longrightarrow> 0 \<le> s \<and> s < 65536"
proof -
  have b: "uint w < 256" for w :: byte
    using uint_bounded[of w] by simp
  assume "quint16_at buf off idx = Some s"
  then obtain lo hi :: byte where "s = uint lo + 256 * uint hi"
    by (auto simp: quint16_at_def Let_def split: if_splits)
  then show ?thesis using b[of lo] b[of hi] by simp
qed

lemma split3D_pixel_Some:
  assumes "split3D_pixel cfg cur prev L h clp = Some clp'"
  shows "\<exists>v. diff3D cfg cur prev L h = Some v \<and> 2 < length clp \<and> clp' = clp[2 := set_pixel (clp ! 2) L h v]"
  using assms
  by (auto simp: split3D_pixel_def diff3D_def qvector_at_def qvector_set_def
      split: Option.bind_splits if_splits)

lemma split3D_line_written:
  assumes "split3D_line cfg previousFrame L fb = Some fb'"
  shows "fb' = fb\<lparr>clpbuffer := clpbuffer fb'\<rparr> \<and>
         written 2 (diff3D cfg (rawbuffer fb) (rawbuffer previousFrame))
           (\<lambda>l c. l = L \<and> activeVideoStart cfg \<le> c \<and> c < activeVideoEnd cfg) (clpbuffer fb) (clpbuffer fb')"
proof -
  from assms obtain clp where
    loop: "for_loop (activeVideoStart cfg) (activeVideoEnd cfg)
             (split3D_pixel cfg (rawbuffer fb) (rawbuffer previousFrame) L) (clpbuffer fb) = Some clp"
    and fb': "fb' = fb\<lparr>clpbuffer := clp\<rparr>"
    by (auto simp: split3D_line_def split: Option.bind_splits)
  have "written 2 (diff3D cfg (rawbuffer fb) (rawbuffer previousFrame))
           (\<lambda>l c. l = L \<and> activeVideoStart cfg \<le> c \<and> c < activeVideoEnd cfg) (clpbuffer fb) clp"
    by (rule for_loop_written[OF loop]) (auto dest: split3D_pixel_Some)
  then show ?thesis by (simp add: fb')
qed

lemma split3D_written:
  assumes "split3D c currentFrame previousFrame = Some currentFrame'"
  shows "currentFrame' = currentFrame\<lparr>clpbuffer := clpbuffer currentFrame'\<rparr> \<and>
         written 2 (diff3D (configuration c) (rawbuffer currentFrame) (rawbuffer previousFrame))
           (\<lambda>l c'. firstVisibleFrameLine (configuration c) \<le> l \<and> l < frameHeight c \<and>
                   activeVideoStart (configuration c) \<le> c' \<and> c' < activeVideoEnd (configuration c))
           (clpbuffer currentFrame) (clpbuffer currentFrame')"
proof (rule for_loop_lines_written[OF assms[unfolded split3D_def]])
  fix j fb fb'
  assume b: "split3D_line (configuration c) previousFrame j fb = Some fb'"
    and e: "fb = currentFrame\<lparr>clpbuffer := clpbuffer fb\<rparr>"
  from e have raw: "rawbuffer fb = rawbuffer currentFrame"
    by (metis FrameBuffer.select_convs(1) FrameBuffer.surjective FrameBuffer.update_convs(2))
  from split3D_line_written[OF b]
  show "fb' = fb\<lparr>clpbuffer := clpbuffer fb'\<rparr> \<and>
         written 2 (diff3D (configuration c) (rawbuffer currentFrame) (rawbuffer previousFrame))
           (\<lambda>l c'. l = j \<and> activeVideoStart (configuration c) \<le> c' \<and> c' < activeVideoEnd (configuration c))
           (clpbuffer fb) (clpbuffer fb')"
    by (simp add: raw)
qed

text \<open>
  C1, as amended. For every visible line and every active column \<open>h\<close> at which the previous
  frame's raw buffer holds the sample 0, \<open>split3D\<close> stores \<open>(0 - currentSample[h]) / 2\<close>
  in integer arithmetic, that is \<open>- (currentSample[h] div 2)\<close>: the estimate is
  \<open>(previous - current) / 2\<close>, so a zero predecessor gives the negated half sample.
\<close>

theorem split3D_zero_previous:
  assumes "split3D c currentFrame previousFrame = Some currentFrame'"
    and "firstVisibleFrameLine (configuration c) \<le> lineNumber" and "lineNumber < frameHeight c"
    and "activeVideoStart (configuration c) \<le> h" and "h < activeVideoEnd (configuration c)"
    and "quint16_at (rawbuffer previousFrame) ((lineNumber * fieldWidth (configuration c)) * 2) h = Some 0"
  shows "\<exists>s. quint16_at (rawbuffer currentFrame) ((lineNumber * fieldWidth (configuration c)) * 2) h = Some s \<and>
           2 < length (clpbuffer currentFrame') \<and>
           (clpbuffer currentFrame' ! 2) lineNumber h = real_of_int (cdiv (0 - s) 2) \<and>
           (clpbuffer currentFrame' ! 2) lineNumber h = - real_of_int (s div 2)"
proof -
  let ?off = "(lineNumber * fieldWidth (configuration c)) * 2"
  let ?F = "diff3D (configuration c) (rawbuffer currentFrame) (rawbuffer previousFrame)"
  from split3D_written[OF assms(1)] have
    w: "written 2 ?F
           (\<lambda>l c'. firstVisibleFrameLine (configuration c) \<le> l \<and> l < frameHeight c \<and>
                   activeVideoStart (configuration c) \<le> c' \<and> c' < activeVideoEnd (configuration c))
           (clpbuffer currentFrame) (clpbuffer currentFrame')" by (rule conjunct2)
  from w assms(2-5) have "?F lineNumber h \<noteq> None" and len0: "2 < length (clpbuffer currentFrame)"
    unfolding written_def by blast+
  then obtain v where v: "?F lineNumber h = Some v" by blast
  from w len0 have len: "2 < length (clpbuffer currentFrame')"
    unfolding written_def by simp
  from w assms(2-5) have val: "(clpbuffer currentFrame' ! 2) lineNumber h = the (?F lineNumber h)"
    unfolding written_def by simp
  from v assms(6) obtain s where s: "quint16_at (rawbuffer currentFrame) ?off h = Some s"
    and vs: "v = real_of_int (cdiv (0 - s) 2)"
    by (auto simp: diff3D_def split: Option.bind_splits)
  from quint16_at_range[OF s] have "cdiv (0 - s) 2 = - (s div 2)"
    by (simp add: cdiv_def sgn_if)
  with s len val v vs show ?thesis by simp
qed

lemma split3D_tiny: "split3D tiny_comb tiny_frame tiny_previous \<noteq> None"
  by code_simp

theorem split3D_zero_previous_witness:
  "\<exists>fb'. split3D tiny_comb tiny_frame tiny_previous = Some fb' \<and>
     firstVisibleFrameLine (configuration tiny_comb) \<le> 1 \<and> 1 < frameHeight tiny_comb \<and>
     activeVideoStart (configuration tiny_comb) \<le> 2 \<and> 2 < activeVideoEnd (configuration tiny_comb) \<and>
     quint16_at (rawbuffer tiny_previous) ((1 * fieldWidth (configuration tiny_comb)) * 2) 2 = Some 0 \<and>
     (clpbuffer fb' ! 2) 1 2 = - 1"
proof -
  from split3D_tiny obtain fb' where r: "split3D tiny_comb tiny_frame tiny_previous = Some fb'" by blast
  have h: "firstVisibleFrameLine (configuration tiny_comb) \<le> 1" "1 < frameHeight tiny_comb"
    "activeVideoStart (configuration tiny_comb) \<le> 2" "2 < activeVideoEnd (configuration tiny_comb)"
    by (simp_all add: tiny_comb_def tiny_cfg_def postConfigurationTasks_def)
  have z: "quint16_at (rawbuffer tiny_previous) ((1 * fieldWidth (configuration tiny_comb)) * 2) 2 = Some 0"
    by (simp add: quint16_at_def tiny_previous_def tiny_comb_def tiny_cfg_def postConfigurationTasks_def)
  have "(clpbuffer fb' ! 2) 1 2 = - 1"
    using split3D_zero_previous[OF r h z]
    by (simp add: quint16_at_def tiny_comb_def tiny_cfg_def tiny_frame_def FrameBuffer_new_def tiny_line_def
        postConfigurationTasks_def nth_append)
  with r h z show ?thesis by blast
qed

text \<open>
  C1 as stated fails. Before the first call the retained buffer is the default-constructed
  one, whose raw array is empty: \<open>split3D\<close> reads it out of bounds. Against a zero-filled
  previous frame, the cell of line 1, column 2, whose current sample is 3, receives -1, not
  the half sample.
\<close>

theorem split3D_first_call_counterexample:
  "previousFrameBuffer (Comb_new ()) = FrameBuffer_new \<and>
   split3D tiny_comb tiny_frame FrameBuffer_new = None \<and>
   quint16_at (rawbuffer tiny_frame) ((1 * fieldWidth (configuration tiny_comb)) * 2) 2 = Some 3 \<and>
   split3D tiny_comb tiny_frame tiny_previous \<noteq> None \<and>
   (clpbuffer (the (split3D tiny_comb tiny_frame tiny_previous)) ! 2) 1 2 = - 1"
proof (intro conjI)
  show "previousFrameBuffer (Comb_new ()) = FrameBuffer_new"
    by (simp add: Comb_new_def postConfigurationTasks_def)
  have "Option.is_none (split3D tiny_comb tiny_frame FrameBuffer_new)"
    by code_simp
  then show "split3D tiny_comb tiny_frame FrameBuffer_new = None"
    by (simp add: Option.is_none_def)
  show "quint16_at (rawbuffer tiny_frame) ((1 * fieldWidth (configuration tiny_comb)) * 2) 2 = Some 3"
    by code_simp
  show "split3D tiny_comb tiny_frame tiny_previous \<noteq> None"
    by code_simp
  show "(clpbuffer (the (split3D tiny_comb tiny_frame tiny_previous)) ! 2) 1 2 = - 1"
    by code_simp
qed

section \<open>The phase-inversion tracker\<close>

lemma track_phase_step:
  "a \<le> j \<Longrightarrow> track_phase a (j + 1) ph = line_phase j (track_phase a j ph)"
proof (induction a j ph rule: track_phase.induct)
  case (1 k n ph)
  show ?case
  proof (cases "k < n")
    case True
    then have "track_phase k (n + 1) ph = track_phase (k + 1) (n + 1) (line_phase k ph)"
      by (subst track_phase.simps) simp
    also have "\<dots> = line_phase n (track_phase (k + 1) n (line_phase k ph))"
      using "1.IH"[OF True] True by simp
    also have "track_phase (k + 1) n (line_phase k ph) = track_phase k n ph"
      using True by (subst (2) track_phase.simps) simp
    finally show ?thesis .
  next
    case False
    with "1.prems" have kn: "k = n" by simp
    have "track_phase n (n + 1) ph = track_phase (n + 1) (n + 1) (line_phase n ph)"
      by (subst track_phase.simps) simp
    also have "\<dots> = line_phase n ph" by (subst track_phase.simps) simp
    finally have a: "track_phase n (n + 1) ph = line_phase n ph" .
    have b: "track_phase n n ph = ph" by (subst track_phase.simps) simp
    show ?thesis using kn a b by simp
  qed
qed

lemma track_phase_empty: "track_phase a a ph = ph"
  by (subst track_phase.simps) simp

lemma invertphase_at_line_phase:
  "firstVisibleFrameLine cfg \<le> L \<Longrightarrow>
   snd (snd (line_phase L (track_phase (firstVisibleFrameLine cfg) L (initial_phase p1 p2))))
     = invertphase_at cfg p1 p2 L"
  by (simp add: invertphase_at_def track_phase_step)

section \<open>adjustY\<close>

lemma adjustY_pixel_eq:
  "adjustY_pixel L ip h b = Some (set_yiq b L h (adjusted ip h (b L (h + 2))))"
  by (simp add: adjustY_pixel_def adjusted_def Let_def)

lemma adjustY_columns:
  assumes "for_loop a n (adjustY_pixel L ip) b0 = Some b'"
  shows "b' l c = (if l = L \<and> a \<le> c \<and> c < n then adjusted ip c (b0 L (c + 2)) else b0 l c)"
proof -
  have "(\<lambda>j b. \<forall>l c. b l c = (if l = L \<and> a \<le> c \<and> c < j \<and> c < n then adjusted ip c (b0 L (c + 2)) else b0 l c))
          (max a n) b'"
  proof (rule for_loop_rule[OF assms])
    show "\<forall>l c. b0 l c = (if l = L \<and> a \<le> c \<and> c < a \<and> c < n then adjusted ip c (b0 L (c + 2)) else b0 l c)"
      by simp
  next
    fix j t t'
    assume j: "a \<le> j" "j < n"
      and inv: "\<forall>l c. t l c = (if l = L \<and> a \<le> c \<and> c < j \<and> c < n then adjusted ip c (b0 L (c + 2)) else b0 l c)"
      and b: "adjustY_pixel L ip j t = Some t'"
    from b have t': "t' = set_yiq t L j (adjusted ip j (t L (j + 2)))"
      by (simp add: adjustY_pixel_eq)
    from inv have rd: "t L (j + 2) = b0 L (j + 2)" by simp
    have lt: "\<And>c::int. c < j + 1 \<longleftrightarrow> c < j \<or> c = j" by auto
    show "\<forall>l c. t' l c = (if l = L \<and> a \<le> c \<and> c < j + 1 \<and> c < n then adjusted ip c (b0 L (c + 2)) else b0 l c)"
      unfolding t' rd lt using inv j by (auto simp: set_yiq_def)
  qed
  then show ?thesis by (simp add: max_def split: if_splits)
qed

lemma adjustY_line_Some:
  assumes "adjustY_line cfg L (ph, b) = Some (ph', b')"
  shows "ph' = line_phase L ph \<and>
         (\<forall>l c. b' l c = (if l = L \<and> activeVideoStart cfg \<le> c \<and> c < activeVideoEnd cfg
                           then adjusted (snd (snd (line_phase L ph))) c (b L (c + 2)) else b l c))"
proof -
  from assms have ph': "ph' = line_phase L ph"
    and loop: "for_loop (activeVideoStart cfg) (activeVideoEnd cfg)
                 (adjustY_pixel L (snd (snd (line_phase L ph)))) b = Some b'"
    by (auto simp: adjustY_line_def Let_def split: Option.bind_splits)
  from adjustY_columns[OF loop] ph' show ?thesis by simp
qed

lemma adjustY_inv_step:
  assumes j: "firstVisibleFrameLine cfg \<le> j" "j < n"
    and inv: "adjustY_inv cfg p1 p2 b0 n j st"
    and b: "adjustY_line cfg j st = Some st'"
  shows "adjustY_inv cfg p1 p2 b0 n (j + 1) st'"
proof -
  obtain ph t where st: "st = (ph, t)" by (cases st)
  obtain ph' t' where st': "st' = (ph', t')" by (cases st')
  from inv st have ph: "ph = track_phase (firstVisibleFrameLine cfg) j (initial_phase p1 p2)"
    and t: "\<And>l c. t l c =
        (if firstVisibleFrameLine cfg \<le> l \<and> l < j \<and> l < n \<and> activeVideoStart cfg \<le> c \<and> c < activeVideoEnd cfg
         then adjusted (invertphase_at cfg p1 p2 l) c (b0 l (c + 2)) else b0 l c)"
    by (simp_all add: adjustY_inv_def)
  from adjustY_line_Some[OF b[unfolded st st']] have ph': "ph' = line_phase j ph"
    and t': "\<And>l c. t' l c = (if l = j \<and> activeVideoStart cfg \<le> c \<and> c < activeVideoEnd cfg
                           then adjusted (snd (snd (line_phase j ph))) c (t j (c + 2)) else t l c)"
    by blast+
  have ip: "snd (snd (line_phase j ph)) = invertphase_at cfg p1 p2 j"
    unfolding ph by (rule invertphase_at_line_phase[OF j(1)])
  have tj: "t j c = b0 j c" for c using t[of j c] by simp
  have lt: "\<And>l::int. l < j + 1 \<longleftrightarrow> l < j \<or> l = j" by auto
  show ?thesis
    unfolding adjustY_inv_def st' fst_conv snd_conv
  proof (intro conjI allI)
    show "ph' = track_phase (firstVisibleFrameLine cfg) (j + 1) (initial_phase p1 p2)"
      by (simp add: ph' ph track_phase_step[OF j(1)])
    show "t' l c =
        (if firstVisibleFrameLine cfg \<le> l \<and> l < j + 1 \<and> l < n \<and> activeVideoStart cfg \<le> c \<and> c < activeVideoEnd cfg
         then adjusted (invertphase_at cfg p1 p2 l) c (b0 l (c + 2)) else b0 l c)" for l c
      unfolding t' ip tj lt using j t[of l c] by auto
  qed
qed

lemma adjustY_cells:
  assumes "adjustY c b0 p1 p2 = Some b'"
  shows "b' l h =
        (if firstVisibleFrameLine (configuration c) \<le> l \<and> l < frameHeight c \<and>
            activeVideoStart (configuration c) \<le> h \<and> h < activeVideoEnd (configuration c)
         then adjusted (invertphase_at (configuration c) p1 p2 l) h (b0 l (h + 2)) else b0 l h)"
proof -
  let ?cfg = "configuration c"
  from assms obtain ph' where
    loop: "for_loop (firstVisibleFrameLine ?cfg) (frameHeight c) (adjustY_line ?cfg) (initial_phase p1 p2, b0) = Some (ph', b')"
    by (auto simp: adjustY_def split: Option.bind_splits)
  have "adjustY_inv ?cfg p1 p2 b0 (frameHeight c) (max (firstVisibleFrameLine ?cfg) (frameHeight c)) (ph', b')"
  proof (rule for_loop_rule[OF loop])
    show "adjustY_inv ?cfg p1 p2 b0 (frameHeight c) (firstVisibleFrameLine ?cfg) (initial_phase p1 p2, b0)"
      by (simp add: adjustY_inv_def track_phase_empty)
  qed (rule adjustY_inv_step)
  then show ?thesis by (simp add: adjustY_inv_def max_def split: if_splits)
qed

lemma for_loop_always:
  assumes "\<And>j s. a \<le> j \<Longrightarrow> j < n \<Longrightarrow> \<exists>s'. body j s = Some s'"
  shows "\<exists>s'. for_loop a n body s = Some s'"
  using for_loop_total[of "\<lambda>j s. True" a s n body] assms by blast

lemma adjustY_total: "\<exists>b'. adjustY c b p1 p2 = Some b'"
proof -
  have col: "\<exists>b'. for_loop a n (adjustY_pixel L ip) b = Some b'" for a n L ip b
    by (rule for_loop_always) (simp add: adjustY_pixel_eq)
  have line: "\<exists>st'. adjustY_line cfg L st = Some st'" for cfg L st
  proof -
    obtain ph b where st: "st = (ph, b)" by (cases st)
    from col[of "activeVideoStart cfg" "activeVideoEnd cfg" L "snd (snd (line_phase L ph))" b]
    obtain b' where "for_loop (activeVideoStart cfg) (activeVideoEnd cfg)
                       (adjustY_pixel L (snd (snd (line_phase L ph)))) b = Some b'" by blast
    then have "adjustY_line cfg L st = Some (line_phase L ph, b')"
      by (simp add: adjustY_line_def st Let_def)
    then show ?thesis by blast
  qed
  have "\<exists>st'. for_loop (firstVisibleFrameLine (configuration c)) (frameHeight c)
           (adjustY_line (configuration c)) (initial_phase p1 p2, b) = Some st'"
    by (rule for_loop_always) (rule line)
  then show ?thesis by (auto simp: adjustY_def)
qed

text \<open>
  C2, as amended. For every YIQ buffer, every visible line and every active column \<open>h\<close>,
  \<open>adjustY\<close> returns, and the pixel at column \<open>h\<close> becomes the pixel that stood at column
  \<open>h + 2\<close>, with the correction term added to that pixel's Y: the term is selected by the phase
  of \<open>h\<close> from the I or Q of the pixel at \<open>h + 2\<close> (0: +Q, 1: -I, 2: -Q, 3: +I) and negated when
  the line's inversion state is set. So the new Y is the Y of column \<open>h + 2\<close> plus the term,
  and the new I and Q are the I and Q of column \<open>h + 2\<close>.
\<close>

theorem adjustY_moves_pixel:
  assumes "firstVisibleFrameLine (configuration c) \<le> lineNumber" and "lineNumber < frameHeight c"
    and "activeVideoStart (configuration c) \<le> h" and "h < activeVideoEnd (configuration c)"
  shows "\<exists>yiq'. adjustY c yiq firstFieldPhaseID' secondFieldPhaseID' = Some yiq' \<and>
           yiq' lineNumber h =
             (yiq lineNumber (h + 2))
               \<lparr>y := y (yiq lineNumber (h + 2)) +
                  (if invertphase_at (configuration c) firstFieldPhaseID' secondFieldPhaseID' lineNumber
                   then - 1 else 1) *
                  (if crem h 4 = 0 then q (yiq lineNumber (h + 2))
                   else if crem h 4 = 1 then - i (yiq lineNumber (h + 2))
                   else if crem h 4 = 2 then - q (yiq lineNumber (h + 2))
                   else if crem h 4 = 3 then i (yiq lineNumber (h + 2))
                   else 0)\<rparr>"
proof -
  from adjustY_total obtain yiq' where r: "adjustY c yiq firstFieldPhaseID' secondFieldPhaseID' = Some yiq'"
    by blast
  from adjustY_cells[OF r, of lineNumber h] assms
  have "yiq' lineNumber h =
          adjusted (invertphase_at (configuration c) firstFieldPhaseID' secondFieldPhaseID' lineNumber) h
            (yiq lineNumber (h + 2))"
    by simp
  with r show ?thesis by (simp add: adjusted_def)
qed

theorem adjustY_moves_pixel_witness:
  "firstVisibleFrameLine (configuration tiny_comb) \<le> 1 \<and> 1 < frameHeight tiny_comb \<and>
   activeVideoStart (configuration tiny_comb) \<le> 2 \<and> 2 < activeVideoEnd (configuration tiny_comb) \<and>
   (\<exists>yiq'. adjustY tiny_comb tiny_yiq 1 1 = Some yiq' \<and> yiq' 1 2 = \<lparr>y = 180, i = 10, q = 20\<rparr>)"
proof -
  have h: "firstVisibleFrameLine (configuration tiny_comb) \<le> 1" "1 < frameHeight tiny_comb"
    "activeVideoStart (configuration tiny_comb) \<le> 2" "2 < activeVideoEnd (configuration tiny_comb)"
    by (simp_all add: tiny_comb_def tiny_cfg_def postConfigurationTasks_def)
  have ip: "invertphase_at (configuration tiny_comb) 1 1 1 = False"
    by code_simp
  have c: "crem 2 4 = 2" by (simp add: crem_def cdiv_def)
  have px: "tiny_yiq 1 (2 + 2) = \<lparr>y = 200, i = 10, q = 20\<rparr>"
    by (simp add: tiny_yiq_def set_yiq_def)
  from adjustY_moves_pixel[OF h, of tiny_yiq 1 1]
  have "\<exists>yiq'. adjustY tiny_comb tiny_yiq 1 1 = Some yiq' \<and> yiq' 1 2 = \<lparr>y = 180, i = 10, q = 20\<rparr>"
    unfolding ip c px by simp
  with h show ?thesis by blast
qed

text \<open>
  C2 as stated fails. On the small frame the pixel at line 1, column 2 is (100, 1, 2) and the
  pixel at column 4 is (200, 10, 20). After \<open>adjustY\<close> the pixel at column 2 is (180, 10, 20):
  its Y is not 100 plus a correction, and its I and Q are not 1 and 2.
\<close>

theorem adjustY_own_pixel_counterexample:
  "tiny_yiq 1 2 = \<lparr>y = 100, i = 1, q = 2\<rparr> \<and> tiny_yiq 1 4 = \<lparr>y = 200, i = 10, q = 20\<rparr> \<and>
   adjustY tiny_comb tiny_yiq 1 1 \<noteq> None \<and>
   the (adjustY tiny_comb tiny_yiq 1 1) 1 2 = \<lparr>y = 180, i = 10, q = 20\<rparr>"
  by code_simp

section \<open>splitIQ\<close>

lemma iq_state_empty: "iq_state cfg fb L ip a a s = s"
  by (subst iq_state.simps) simp

lemma iq_state_step:
  "a \<le> j \<Longrightarrow> iq_state cfg fb L ip a (j + 1) s
     = iq_step ip j (the (splitIQ_cavg cfg fb L j)) (iq_state cfg fb L ip a j s)"
proof (induction cfg fb L ip a j s rule: iq_state.induct)
  case (1 cfg fb L ip k n s)
  show ?case
  proof (cases "k < n")
    case True
    let ?s = "iq_step ip k (the (splitIQ_cavg cfg fb L k)) s"
    have "iq_state cfg fb L ip k (n + 1) s = iq_state cfg fb L ip (k + 1) (n + 1) ?s"
      using True by (subst iq_state.simps) simp
    also have "\<dots> = iq_step ip n (the (splitIQ_cavg cfg fb L n)) (iq_state cfg fb L ip (k + 1) n ?s)"
      using "1.IH"[OF True] True by simp
    also have "iq_state cfg fb L ip (k + 1) n ?s = iq_state cfg fb L ip k n s"
      using True by (subst (2) iq_state.simps) simp
    finally show ?thesis .
  next
    case False
    with "1.prems" have kn: "k = n" by simp
    have "iq_state cfg fb L ip n (n + 1) s
            = iq_state cfg fb L ip (n + 1) (n + 1) (iq_step ip n (the (splitIQ_cavg cfg fb L n)) s)"
      by (subst iq_state.simps) simp
    also have "\<dots> = iq_step ip n (the (splitIQ_cavg cfg fb L n)) s"
      by (rule iq_state_empty)
    finally show ?thesis using kn by (simp add: iq_state_empty)
  qed
qed

lemma splitIQ_pixel_Some:
  assumes "splitIQ_pixel cfg fb L ip h (si, sq, b) = Some (si', sq', b')"
  shows "iq_defined cfg fb L h \<and>
         (si', sq') = iq_step ip h (the (splitIQ_cavg cfg fb L h)) (si, sq) \<and>
         b' = set_yiq b L h
                \<lparr>y = real_of_int (the (quint16_at (rawbuffer fb) ((L * fieldWidth cfg) * 2) h)),
                 i = si', q = sq'\<rparr>"
  using assms
  by (auto simp: splitIQ_pixel_def iq_defined_def iq_step_def Let_def
      split: Option.bind_splits if_splits)

lemma splitIQ_cols_step:
  assumes j: "activeVideoStart cfg \<le> j" "j < n"
    and inv: "splitIQ_cols cfg fb L ip b0 n j st"
    and b: "splitIQ_pixel cfg fb L ip j st = Some st'"
  shows "splitIQ_cols cfg fb L ip b0 n (j + 1) st'"
proof -
  obtain si sq t where st: "st = (si, sq, t)" by (cases st)
  obtain si' sq' t' where st': "st' = (si', sq', t')" by (cases st')
  from inv st have s: "(si, sq) = iq_state cfg fb L ip (activeVideoStart cfg) j (0, 0)"
    and t: "\<And>l c. t l c =
        (if l = L \<and> activeVideoStart cfg \<le> c \<and> c < j \<and> c < n then iq_pixel cfg fb L ip c else b0 l c)"
    and d: "\<And>c. activeVideoStart cfg \<le> c \<and> c < j \<and> c < n \<Longrightarrow> iq_defined cfg fb L c"
    by (simp_all add: splitIQ_cols_def)
  note p = splitIQ_pixel_Some[OF b[unfolded st st']]
  from p have dj: "iq_defined cfg fb L j" by (rule conjunct1)
  from p have s': "(si', sq') = iq_step ip j (the (splitIQ_cavg cfg fb L j)) (si, sq)" by simp
  from p have t': "t' = set_yiq t L j
                \<lparr>y = real_of_int (the (quint16_at (rawbuffer fb) ((L * fieldWidth cfg) * 2) j)),
                 i = si', q = sq'\<rparr>" by simp
  have s'': "(si', sq') = iq_state cfg fb L ip (activeVideoStart cfg) (j + 1) (0, 0)"
    using s' s by (simp add: iq_state_step[OF j(1)])
  have px: "iq_pixel cfg fb L ip j
              = \<lparr>y = real_of_int (the (quint16_at (rawbuffer fb) ((L * fieldWidth cfg) * 2) j)),
                 i = si', q = sq'\<rparr>"
    unfolding iq_pixel_def Let_def s''[symmetric] by simp
  have lt: "\<And>c::int. c < j + 1 \<longleftrightarrow> c < j \<or> c = j" by auto
  show ?thesis
    unfolding splitIQ_cols_def st' fst_conv snd_conv
  proof (intro conjI allI impI)
    show "(si', sq') = iq_state cfg fb L ip (activeVideoStart cfg) (j + 1) (0, 0)" by (rule s'')
    show "t' l c =
        (if l = L \<and> activeVideoStart cfg \<le> c \<and> c < j + 1 \<and> c < n then iq_pixel cfg fb L ip c else b0 l c)" for l c
      unfolding t' px[symmetric] lt using j t[of l c] by (auto simp: set_yiq_def)
    show "iq_defined cfg fb L c" if "activeVideoStart cfg \<le> c \<and> c < j + 1 \<and> c < n" for c
      using that d[of c] dj unfolding lt by auto
  qed
qed

lemma splitIQ_line_Some:
  assumes "splitIQ_line cfg fb L (ph, b) = Some (ph', b')"
  shows "ph' = line_phase L ph \<and>
         (\<forall>l c. b' l c =
            (if l = L \<and> activeVideoStart cfg \<le> c \<and> c < activeVideoEnd cfg
             then iq_pixel cfg fb L (snd (snd (line_phase L ph))) c else b l c)) \<and>
         (\<forall>c. activeVideoStart cfg \<le> c \<and> c < activeVideoEnd cfg \<longrightarrow> iq_defined cfg fb L c)"
proof -
  let ?ip = "snd (snd (line_phase L ph))"
  let ?a = "activeVideoStart cfg"
  let ?n = "activeVideoEnd cfg"
  from assms obtain si sq where ph': "ph' = line_phase L ph"
    and loop: "for_loop ?a ?n (splitIQ_pixel cfg fb L ?ip) (0, 0, b) = Some (si, sq, b')"
    by (auto simp: splitIQ_line_def Let_def split: Option.bind_splits prod.splits)
  have "splitIQ_cols cfg fb L ?ip b ?n (max ?a ?n) (si, sq, b')"
  proof (rule for_loop_rule[OF loop])
    show "splitIQ_cols cfg fb L ?ip b ?n ?a (0, 0, b)"
      by (auto simp: splitIQ_cols_def iq_state_empty)
  qed (rule splitIQ_cols_step)
  then show ?thesis using ph' by (simp add: splitIQ_cols_def max_def split: if_splits)
qed

lemma splitIQ_lines_step:
  assumes j: "firstVisibleFrameLine cfg \<le> j" "j < n"
    and inv: "splitIQ_lines cfg fb n j st"
    and b: "splitIQ_line cfg fb j st = Some st'"
  shows "splitIQ_lines cfg fb n (j + 1) st'"
proof -
  let ?p1 = "firstFieldPhaseID fb"
  let ?p2 = "secondFieldPhaseID fb"
  obtain ph t where st: "st = (ph, t)" by (cases st)
  obtain ph' t' where st': "st' = (ph', t')" by (cases st')
  from inv st have ph: "ph = track_phase (firstVisibleFrameLine cfg) j (initial_phase ?p1 ?p2)"
    and t: "\<And>l c. t l c =
        (if firstVisibleFrameLine cfg \<le> l \<and> l < j \<and> l < n \<and> activeVideoStart cfg \<le> c \<and> c < activeVideoEnd cfg
         then iq_pixel cfg fb l (invertphase_at cfg ?p1 ?p2 l) c else yiq_clear l c)"
    and d: "\<And>l c. firstVisibleFrameLine cfg \<le> l \<and> l < j \<and> l < n \<and> activeVideoStart cfg \<le> c \<and> c < activeVideoEnd cfg
        \<Longrightarrow> iq_defined cfg fb l c"
    by (simp_all add: splitIQ_lines_def)
  have ip: "snd (snd (line_phase j ph)) = invertphase_at cfg ?p1 ?p2 j"
    unfolding ph by (rule invertphase_at_line_phase[OF j(1)])
  note r = splitIQ_line_Some[OF b[unfolded st st'], unfolded ip]
  from r have ph': "ph' = line_phase j ph" by (rule conjunct1)
  from r have t': "\<And>l c. t' l c =
            (if l = j \<and> activeVideoStart cfg \<le> c \<and> c < activeVideoEnd cfg
             then iq_pixel cfg fb j (invertphase_at cfg ?p1 ?p2 j) c else t l c)" by simp
  from r have d': "\<And>c. activeVideoStart cfg \<le> c \<and> c < activeVideoEnd cfg \<Longrightarrow> iq_defined cfg fb j c" by simp
  have lt: "\<And>l::int. l < j + 1 \<longleftrightarrow> l < j \<or> l = j" by auto
  show ?thesis
    unfolding splitIQ_lines_def st' fst_conv snd_conv
  proof (intro conjI allI impI)
    show "ph' = track_phase (firstVisibleFrameLine cfg) (j + 1) (initial_phase ?p1 ?p2)"
      by (simp add: ph' ph track_phase_step[OF j(1)])
    show "t' l c =
        (if firstVisibleFrameLine cfg \<le> l \<and> l < j + 1 \<and> l < n \<and> activeVideoStart cfg \<le> c \<and> c < activeVideoEnd cfg
         then iq_pixel cfg fb l (invertphase_at cfg ?p1 ?p2 l) c else yiq_clear l c)" for l c
      unfolding t' lt using j t[of l c] by auto
    show "iq_defined cfg fb l c"
      if "firstVisibleFrameLine cfg \<le> l \<and> l < j + 1 \<and> l < n \<and> activeVideoStart cfg \<le> c \<and> c < activeVideoEnd cfg" for l c
      using that d[of l c] d'[of c] unfolding lt by auto
  qed
qed

lemma splitIQ_cells:
  assumes "splitIQ c fb = Some fb'"
  shows "fb' = fb\<lparr>yiqBuffer := yiqBuffer fb'\<rparr>"
    and "yiqBuffer fb' l h =
        (if firstVisibleFrameLine (configuration c) \<le> l \<and> l < frameHeight c \<and>
            activeVideoStart (configuration c) \<le> h \<and> h < activeVideoEnd (configuration c)
         then iq_pixel (configuration c) fb l
                (invertphase_at (configuration c) (firstFieldPhaseID fb) (secondFieldPhaseID fb) l) h
         else yiq_clear l h)"
    and "firstVisibleFrameLine (configuration c) \<le> l \<and> l < frameHeight c \<and>
            activeVideoStart (configuration c) \<le> h \<and> h < activeVideoEnd (configuration c)
         \<Longrightarrow> iq_defined (configuration c) fb l h"
proof -
  let ?cfg = "configuration c"
  let ?a = "firstVisibleFrameLine ?cfg"
  let ?n = "frameHeight c"
  from assms obtain ph' b' where
    loop: "for_loop ?a ?n (splitIQ_line ?cfg fb)
             (initial_phase (firstFieldPhaseID fb) (secondFieldPhaseID fb), yiq_clear) = Some (ph', b')"
    and fb': "fb' = fb\<lparr>yiqBuffer := b'\<rparr>"
    by (auto simp: splitIQ_def split: Option.bind_splits prod.splits)
  have fin: "splitIQ_lines ?cfg fb ?n (max ?a ?n) (ph', b')"
  proof (rule for_loop_rule[OF loop])
    show "splitIQ_lines ?cfg fb ?n ?a (initial_phase (firstFieldPhaseID fb) (secondFieldPhaseID fb), yiq_clear)"
      by (auto simp: splitIQ_lines_def track_phase_empty)
  qed (rule splitIQ_lines_step)
  show "fb' = fb\<lparr>yiqBuffer := yiqBuffer fb'\<rparr>" by (simp add: fb')
  from fin show "yiqBuffer fb' l h =
        (if firstVisibleFrameLine (configuration c) \<le> l \<and> l < frameHeight c \<and>
            activeVideoStart (configuration c) \<le> h \<and> h < activeVideoEnd (configuration c)
         then iq_pixel (configuration c) fb l
                (invertphase_at (configuration c) (firstFieldPhaseID fb) (secondFieldPhaseID fb) l) h
         else yiq_clear l h)"
    by (simp add: fb' splitIQ_lines_def max_def split: if_splits)
  from fin show "iq_defined (configuration c) fb l h"
    if "firstVisibleFrameLine (configuration c) \<le> l \<and> l < frameHeight c \<and>
            activeVideoStart (configuration c) \<le> h \<and> h < activeVideoEnd (configuration c)"
    using that by (simp add: splitIQ_lines_def max_def split: if_splits)
qed

lemma iq_state_fst_keep:
  assumes "a \<le> j" "j \<le> n" "\<And>k. j \<le> k \<Longrightarrow> k < n \<Longrightarrow> crem k 4 \<noteq> 1 \<and> crem k 4 \<noteq> 3"
  shows "fst (iq_state cfg fb L ip a n s) = fst (iq_state cfg fb L ip a j s)"
  using assms(2,3)
proof (induction n rule: int_ge_induct)
  case base
  show ?case by simp
next
  case (step m)
  have "a \<le> m" using assms(1) step.hyps by simp
  from iq_state_step[OF this, of cfg fb L ip s] step.prems[of m] step.hyps
  have "fst (iq_state cfg fb L ip a (m + 1) s) = fst (iq_state cfg fb L ip a m s)"
    by (simp add: iq_step_def Let_def)
  with step.IH step.prems show ?case by simp
qed

lemma iq_state_snd_keep:
  assumes "a \<le> j" "j \<le> n" "\<And>k. j \<le> k \<Longrightarrow> k < n \<Longrightarrow> crem k 4 \<noteq> 0 \<and> crem k 4 \<noteq> 2"
  shows "snd (iq_state cfg fb L ip a n s) = snd (iq_state cfg fb L ip a j s)"
  using assms(2,3)
proof (induction n rule: int_ge_induct)
  case base
  show ?case by simp
next
  case (step m)
  have "a \<le> m" using assms(1) step.hyps by simp
  from iq_state_step[OF this, of cfg fb L ip s] step.prems[of m] step.hyps
  have "snd (iq_state cfg fb L ip a (m + 1) s) = snd (iq_state cfg fb L ip a m s)"
    by (simp add: iq_step_def Let_def)
  with step.IH step.prems show ?case by simp
qed

lemma iq_pixel_new:
  assumes "activeVideoStart cfg \<le> h"
  shows "(crem h 4 = 0 \<longrightarrow> q (iq_pixel cfg fb L ip h) = (if ip then 1 else - 1) * the (splitIQ_cavg cfg fb L h)) \<and>
         (crem h 4 = 1 \<longrightarrow> i (iq_pixel cfg fb L ip h) = - ((if ip then 1 else - 1) * the (splitIQ_cavg cfg fb L h))) \<and>
         (crem h 4 = 2 \<longrightarrow> q (iq_pixel cfg fb L ip h) = - ((if ip then 1 else - 1) * the (splitIQ_cavg cfg fb L h))) \<and>
         (crem h 4 = 3 \<longrightarrow> i (iq_pixel cfg fb L ip h) = (if ip then 1 else - 1) * the (splitIQ_cavg cfg fb L h))"
  by (simp add: iq_pixel_def Let_def iq_state_step[OF assms] iq_step_def)

lemma iq_pixel_i_keep:
  assumes "activeVideoStart cfg \<le> h'" "h' < h"
    and "\<And>k. h' < k \<Longrightarrow> k \<le> h \<Longrightarrow> crem k 4 \<noteq> 1 \<and> crem k 4 \<noteq> 3"
  shows "i (iq_pixel cfg fb L ip h) = i (iq_pixel cfg fb L ip h')"
  using iq_state_fst_keep[of "activeVideoStart cfg" "h' + 1" "h + 1" cfg fb L ip "(0, 0)"] assms
  by (simp add: iq_pixel_def Let_def)

lemma iq_pixel_q_keep:
  assumes "activeVideoStart cfg \<le> h'" "h' < h"
    and "\<And>k. h' < k \<Longrightarrow> k \<le> h \<Longrightarrow> crem k 4 \<noteq> 0 \<and> crem k 4 \<noteq> 2"
  shows "q (iq_pixel cfg fb L ip h) = q (iq_pixel cfg fb L ip h')"
  using iq_state_snd_keep[of "activeVideoStart cfg" "h' + 1" "h + 1" cfg fb L ip "(0, 0)"] assms
  by (simp add: iq_pixel_def Let_def)

lemma iq_pixel_i_zero:
  assumes "activeVideoStart cfg \<le> h"
    and "\<And>k. activeVideoStart cfg \<le> k \<Longrightarrow> k \<le> h \<Longrightarrow> crem k 4 \<noteq> 1 \<and> crem k 4 \<noteq> 3"
  shows "i (iq_pixel cfg fb L ip h) = 0"
  using iq_state_fst_keep[of "activeVideoStart cfg" "activeVideoStart cfg" "h + 1" cfg fb L ip "(0, 0)"] assms
  by (simp add: iq_pixel_def Let_def iq_state_empty)

lemma iq_pixel_q_zero:
  assumes "activeVideoStart cfg \<le> h"
    and "\<And>k. activeVideoStart cfg \<le> k \<Longrightarrow> k \<le> h \<Longrightarrow> crem k 4 \<noteq> 0 \<and> crem k 4 \<noteq> 2"
  shows "q (iq_pixel cfg fb L ip h) = 0"
  using iq_state_snd_keep[of "activeVideoStart cfg" "activeVideoStart cfg" "h + 1" cfg fb L ip "(0, 0)"] assms
  by (simp add: iq_pixel_def Let_def iq_state_empty)

lemma crem_nonneg: "0 \<le> h \<Longrightarrow> crem h 4 = h mod 4"
  by (simp add: crem_def cdiv_def sgn_if minus_mult_div_eq_mod)

text \<open>
  C10. After \<open>splitIQ\<close>, at every visible line and active column \<open>h\<close>: a column of phase 0 or
  2 holds a new Q value (the sign-corrected \<open>cavg\<close> of the column, negated for phase 2) and a
  column of phase 1 or 3 a new I value (negated for phase 1). The other channel of a column is
  that of the most recent earlier active column of the line that updated it, and 0 when no
  earlier active column did. The phase is \<open>h % 4\<close>, which is \<open>h mod 4\<close> for the columns from
  0 on.
\<close>

theorem splitIQ_one_channel_per_column:
  assumes "splitIQ c frameBuffer = Some frameBuffer'"
    and "firstVisibleFrameLine (configuration c) \<le> lineNumber" and "lineNumber < frameHeight c"
    and "activeVideoStart (configuration c) \<le> h" and "h < activeVideoEnd (configuration c)"
  shows "\<exists>cavg. splitIQ_cavg (configuration c) frameBuffer lineNumber h = Some cavg \<and>
     (crem h 4 = 0 \<longrightarrow> q (yiqBuffer frameBuffer' lineNumber h) =
        (if invertphase_at (configuration c) (firstFieldPhaseID frameBuffer) (secondFieldPhaseID frameBuffer) lineNumber
         then cavg else - cavg)) \<and>
     (crem h 4 = 1 \<longrightarrow> i (yiqBuffer frameBuffer' lineNumber h) =
        - (if invertphase_at (configuration c) (firstFieldPhaseID frameBuffer) (secondFieldPhaseID frameBuffer) lineNumber
           then cavg else - cavg)) \<and>
     (crem h 4 = 2 \<longrightarrow> q (yiqBuffer frameBuffer' lineNumber h) =
        - (if invertphase_at (configuration c) (firstFieldPhaseID frameBuffer) (secondFieldPhaseID frameBuffer) lineNumber
           then cavg else - cavg)) \<and>
     (crem h 4 = 3 \<longrightarrow> i (yiqBuffer frameBuffer' lineNumber h) =
        (if invertphase_at (configuration c) (firstFieldPhaseID frameBuffer) (secondFieldPhaseID frameBuffer) lineNumber
         then cavg else - cavg)) \<and>
     (crem h 4 = 0 \<or> crem h 4 = 2 \<longrightarrow>
        (\<forall>h'. activeVideoStart (configuration c) \<le> h' \<and> h' < h \<and> (crem h' 4 = 1 \<or> crem h' 4 = 3) \<and>
              (\<forall>k. h' < k \<and> k < h \<longrightarrow> crem k 4 \<noteq> 1 \<and> crem k 4 \<noteq> 3)
           \<longrightarrow> i (yiqBuffer frameBuffer' lineNumber h) = i (yiqBuffer frameBuffer' lineNumber h')) \<and>
        ((\<forall>k. activeVideoStart (configuration c) \<le> k \<and> k < h \<longrightarrow> crem k 4 \<noteq> 1 \<and> crem k 4 \<noteq> 3)
           \<longrightarrow> i (yiqBuffer frameBuffer' lineNumber h) = 0)) \<and>
     (crem h 4 = 1 \<or> crem h 4 = 3 \<longrightarrow>
        (\<forall>h'. activeVideoStart (configuration c) \<le> h' \<and> h' < h \<and> (crem h' 4 = 0 \<or> crem h' 4 = 2) \<and>
              (\<forall>k. h' < k \<and> k < h \<longrightarrow> crem k 4 \<noteq> 0 \<and> crem k 4 \<noteq> 2)
           \<longrightarrow> q (yiqBuffer frameBuffer' lineNumber h) = q (yiqBuffer frameBuffer' lineNumber h')) \<and>
        ((\<forall>k. activeVideoStart (configuration c) \<le> k \<and> k < h \<longrightarrow> crem k 4 \<noteq> 0 \<and> crem k 4 \<noteq> 2)
           \<longrightarrow> q (yiqBuffer frameBuffer' lineNumber h) = 0)) \<and>
     (0 \<le> h \<longrightarrow> crem h 4 = h mod 4)"
proof -
  let ?cfg = "configuration c"
  let ?ip = "invertphase_at ?cfg (firstFieldPhaseID frameBuffer) (secondFieldPhaseID frameBuffer) lineNumber"
  let ?px = "iq_pixel ?cfg frameBuffer lineNumber ?ip"
  note cells = splitIQ_cells(2)[OF assms(1)]
  have px: "yiqBuffer frameBuffer' lineNumber k = ?px k"
    if "activeVideoStart ?cfg \<le> k" "k \<le> h" for k
    using cells[of lineNumber k] assms(2,3,5) that by simp
  from splitIQ_cells(3)[OF assms(1), of lineNumber h] assms(2-5)
  obtain cavg where cavg: "splitIQ_cavg ?cfg frameBuffer lineNumber h = Some cavg"
    by (auto simp: iq_defined_def)
  have new: "(crem h 4 = 0 \<longrightarrow> q (?px h) = (if ?ip then cavg else - cavg)) \<and>
             (crem h 4 = 1 \<longrightarrow> i (?px h) = - (if ?ip then cavg else - cavg)) \<and>
             (crem h 4 = 2 \<longrightarrow> q (?px h) = - (if ?ip then cavg else - cavg)) \<and>
             (crem h 4 = 3 \<longrightarrow> i (?px h) = (if ?ip then cavg else - cavg))"
    using iq_pixel_new[OF assms(4), of frameBuffer lineNumber ?ip] cavg by simp
  have ikeep: "i (?px h) = i (?px h')"
    if "crem h 4 = 0 \<or> crem h 4 = 2" "activeVideoStart ?cfg \<le> h'" "h' < h"
      "\<forall>k. h' < k \<and> k < h \<longrightarrow> crem k 4 \<noteq> 1 \<and> crem k 4 \<noteq> 3" for h'
  proof (rule iq_pixel_i_keep[OF that(2,3)])
    fix k assume "h' < k" "k \<le> h"
    then show "crem k 4 \<noteq> 1 \<and> crem k 4 \<noteq> 3"
      using that(1,4) by (cases "k = h") auto
  qed
  have izero: "i (?px h) = 0"
    if "crem h 4 = 0 \<or> crem h 4 = 2"
      "\<forall>k. activeVideoStart ?cfg \<le> k \<and> k < h \<longrightarrow> crem k 4 \<noteq> 1 \<and> crem k 4 \<noteq> 3"
  proof (rule iq_pixel_i_zero[OF assms(4)])
    fix k assume "activeVideoStart ?cfg \<le> k" "k \<le> h"
    then show "crem k 4 \<noteq> 1 \<and> crem k 4 \<noteq> 3"
      using that by (cases "k = h") auto
  qed
  have qkeep: "q (?px h) = q (?px h')"
    if "crem h 4 = 1 \<or> crem h 4 = 3" "activeVideoStart ?cfg \<le> h'" "h' < h"
      "\<forall>k. h' < k \<and> k < h \<longrightarrow> crem k 4 \<noteq> 0 \<and> crem k 4 \<noteq> 2" for h'
  proof (rule iq_pixel_q_keep[OF that(2,3)])
    fix k assume "h' < k" "k \<le> h"
    then show "crem k 4 \<noteq> 0 \<and> crem k 4 \<noteq> 2"
      using that(1,4) by (cases "k = h") auto
  qed
  have qzero: "q (?px h) = 0"
    if "crem h 4 = 1 \<or> crem h 4 = 3"
      "\<forall>k. activeVideoStart ?cfg \<le> k \<and> k < h \<longrightarrow> crem k 4 \<noteq> 0 \<and> crem k 4 \<noteq> 2"
  proof (rule iq_pixel_q_zero[OF assms(4)])
    fix k assume "activeVideoStart ?cfg \<le> k" "k \<le> h"
    then show "crem k 4 \<noteq> 0 \<and> crem k 4 \<noteq> 2"
      using that by (cases "k = h") auto
  qed
  have pxh: "yiqBuffer frameBuffer' lineNumber h = ?px h"
    using px[of h] assms(4) by simp
  show ?thesis
  proof (intro exI[of _ cavg] conjI impI allI)
    show "splitIQ_cavg ?cfg frameBuffer lineNumber h = Some cavg" by (rule cavg)
    show "q (yiqBuffer frameBuffer' lineNumber h) = (if ?ip then cavg else - cavg)" if "crem h 4 = 0"
      using new that by (simp add: pxh)
    show "i (yiqBuffer frameBuffer' lineNumber h) = - (if ?ip then cavg else - cavg)" if "crem h 4 = 1"
      using new that by (simp add: pxh)
    show "q (yiqBuffer frameBuffer' lineNumber h) = - (if ?ip then cavg else - cavg)" if "crem h 4 = 2"
      using new that by (simp add: pxh)
    show "i (yiqBuffer frameBuffer' lineNumber h) = (if ?ip then cavg else - cavg)" if "crem h 4 = 3"
      using new that by (simp add: pxh)
    show "i (yiqBuffer frameBuffer' lineNumber h) = i (yiqBuffer frameBuffer' lineNumber h')"
      if "crem h 4 = 0 \<or> crem h 4 = 2"
        "activeVideoStart ?cfg \<le> h' \<and> h' < h \<and> (crem h' 4 = 1 \<or> crem h' 4 = 3) \<and>
         (\<forall>k. h' < k \<and> k < h \<longrightarrow> crem k 4 \<noteq> 1 \<and> crem k 4 \<noteq> 3)" for h'
      using ikeep[of h'] that px[of h'] pxh by simp
    show "i (yiqBuffer frameBuffer' lineNumber h) = 0"
      if "crem h 4 = 0 \<or> crem h 4 = 2"
        "\<forall>k. activeVideoStart ?cfg \<le> k \<and> k < h \<longrightarrow> crem k 4 \<noteq> 1 \<and> crem k 4 \<noteq> 3"
      using izero that pxh by simp
    show "q (yiqBuffer frameBuffer' lineNumber h) = q (yiqBuffer frameBuffer' lineNumber h')"
      if "crem h 4 = 1 \<or> crem h 4 = 3"
        "activeVideoStart ?cfg \<le> h' \<and> h' < h \<and> (crem h' 4 = 0 \<or> crem h' 4 = 2) \<and>
         (\<forall>k. h' < k \<and> k < h \<longrightarrow> crem k 4 \<noteq> 0 \<and> crem k 4 \<noteq> 2)" for h'
      using qkeep[of h'] that px[of h'] pxh by simp
    show "q (yiqBuffer frameBuffer' lineNumber h) = 0"
      if "crem h 4 = 1 \<or> crem h 4 = 3"
        "\<forall>k. activeVideoStart ?cfg \<le> k \<and> k < h \<longrightarrow> crem k 4 \<noteq> 0 \<and> crem k 4 \<noteq> 2"
      using qzero that pxh by simp
    show "crem h 4 = h mod 4" if "0 \<le> h"
      using that by (rule crem_nonneg)
  qed
qed

lemma splitIQ_small: "splitIQ small_comb small_frame \<noteq> None"
  by code_simp

theorem splitIQ_one_channel_per_column_witness:
  "firstVisibleFrameLine (configuration small_comb) \<le> 3 \<and> 3 < frameHeight small_comb \<and>
   activeVideoStart (configuration small_comb) \<le> 4 \<and> 4 < activeVideoEnd (configuration small_comb) \<and>
   (\<exists>fb'. splitIQ small_comb small_frame = Some fb' \<and>
      q (yiqBuffer fb' 3 4) = - 4 \<and> i (yiqBuffer fb' 3 4) = i (yiqBuffer fb' 3 3))"
proof -
  from splitIQ_small obtain fb' where r: "splitIQ small_comb small_frame = Some fb'" by blast
  have h: "firstVisibleFrameLine (configuration small_comb) \<le> 3" "3 < frameHeight small_comb"
    "activeVideoStart (configuration small_comb) \<le> 4" "4 < activeVideoEnd (configuration small_comb)"
    by (simp_all add: small_comb_def small_cfg_def postConfigurationTasks_def)
  have ip: "invertphase_at (configuration small_comb) (firstFieldPhaseID small_frame)
              (secondFieldPhaseID small_frame) 3 = False"
    by code_simp
  have cv: "splitIQ_cavg (configuration small_comb) small_frame 3 4 = Some 4"
    by (simp add: splitIQ_cavg_def small_comb_def small_cfg_def small_frame_def FrameBuffer_new_def
        postConfigurationTasks_def qvector_at_def)
  have c4: "crem 4 4 = 0" and c3: "crem 3 4 = 3" by (simp_all add: crem_def cdiv_def)
  have a: "activeVideoStart (configuration small_comb) = 2"
    by (simp add: small_comb_def small_cfg_def postConfigurationTasks_def)
  from splitIQ_one_channel_per_column[OF r h]
  have "q (yiqBuffer fb' 3 4) = - 4 \<and> i (yiqBuffer fb' 3 4) = i (yiqBuffer fb' 3 3)"
    unfolding ip cv c4 a using c3 by auto
  with r h show ?thesis by blast
qed

section \<open>split2D\<close>

lemma clamp_Finite:
  "clamp (Finite v) 0 1 = Finite (if v < 0 then 0 else if 1 < v then 1 else v)"
  by (simp add: clamp_def)

lemma scaled_weight_Finite:
  assumes "p \<noteq> 0"
  shows "\<exists>k. clamp (ieee_sub (Finite 1) (ieee_div (Finite a) (Finite p))) 0 1 = Finite k \<and> 0 \<le> k \<and> k \<le> 1"
  using assms by (simp add: ieee_sub_def clamp_Finite)

lemma split2D_weights_tail:
  fixes kp kn :: real
  assumes "0 \<le> kp" "kp \<le> 1" "0 \<le> kn" "kn \<le> 1"
  shows "\<exists>kp' kn' sc.
     (if ieee_less (Finite 0) (Finite kn) \<or> ieee_less (Finite 0) (Finite kp)
      then (let (kp, kn) =
                  (if ieee_less (ieee_mul (Finite 3) (Finite kp)) (Finite kn) then (Finite 0, Finite kn)
                   else if ieee_less (ieee_mul (Finite 3) (Finite kn)) (Finite kp) then (Finite kp, Finite 0)
                   else (Finite kp, Finite kn));
                sc = ieee_div (Finite 2) (ieee_add kn kp);
                sc = (if ieee_less sc (Finite 1) then Finite 1 else sc)
            in (kp, kn, sc))
      else (if d \<le> 0 then (Finite 1, Finite 1, Finite 1) else (Finite kp, Finite kn, Finite 1)))
       = (Finite kp', Finite kn', Finite sc) \<and> 0 \<le> kp' \<and> kp' \<le> 1 \<and> 0 \<le> kn' \<and> kn' \<le> 1 \<and> 1 \<le> sc"
proof (cases "0 < kn \<or> 0 < kp")
  case True
  show ?thesis
  proof (cases "3 * kp < kn")
    case a: True
    then have "0 < kn" using assms by simp
    with a True assms show ?thesis by simp
  next
    case a: False
    show ?thesis
    proof (cases "3 * kn < kp")
      case b: True
      then have "0 < kp" using assms by simp
      with a b True assms show ?thesis by simp
    next
      case b: False
      from True assms have "kn + kp \<noteq> 0" by auto
      with a b True assms show ?thesis by simp
    qed
  qed
next
  case False
  with assms show ?thesis by simp
qed

lemma split2D_weights_Finite:
  assumes "irescale' \<noteq> 0"
  shows "\<exists>kp kn sc. split2D_weights irescale' clp0 lineNumber h = (Finite kp, Finite kn, Finite sc) \<and>
           0 \<le> kp \<and> kp \<le> 1 \<and> 0 \<le> kn \<and> kn \<le> 1 \<and> 1 \<le> sc"
proof -
  have p: "45 * irescale' \<noteq> 0" using assms by simp
  let ?kp = "(\<bar>\<bar>clp0 lineNumber h\<bar> - \<bar>clp0 (lineNumber - 2) h\<bar>\<bar>
               + \<bar>\<bar>clp0 lineNumber (h - 1)\<bar> - \<bar>clp0 (lineNumber - 2) (h - 1)\<bar>\<bar>
               - (\<bar>clp0 lineNumber h\<bar> + \<bar>clp0 lineNumber (h - 1)\<bar>) * (1 / 10)) / 2"
  let ?kn = "(\<bar>\<bar>clp0 lineNumber h\<bar> - \<bar>clp0 (lineNumber + 2) h\<bar>\<bar>
               + \<bar>\<bar>clp0 lineNumber (h - 1)\<bar> - \<bar>clp0 (lineNumber + 2) (h - 1)\<bar>\<bar>
               - (\<bar>clp0 lineNumber h\<bar> + \<bar>clp0 (lineNumber + 2) (h - 1)\<bar>) * (1 / 10)) / 2"
  from scaled_weight_Finite[OF p, of ?kp] obtain kp where
    kp: "clamp (ieee_sub (Finite 1) (ieee_div (Finite ?kp) (Finite (45 * irescale')))) 0 1 = Finite kp"
    and kpr: "0 \<le> kp" "kp \<le> 1" by blast
  from scaled_weight_Finite[OF p, of ?kn] obtain kn where
    kn: "clamp (ieee_sub (Finite 1) (ieee_div (Finite ?kn) (Finite (45 * irescale')))) 0 1 = Finite kn"
    and knr: "0 \<le> kn" "kn \<le> 1" by blast
  show ?thesis
    using split2D_weights_tail[OF kpr knr,
        of "\<bar>\<bar>clp0 (lineNumber - 2) h\<bar> - \<bar>clp0 (lineNumber + 2) h\<bar>\<bar>
             - \<bar>(clp0 (lineNumber + 2) h + clp0 (lineNumber - 2) h) * (2 / 10)\<bar>"]
    unfolding split2D_weights_def Let_def kp kn .
qed


lemma split2D_pixel_Some:
  assumes "split2D_pixel ir L h clp = Some clp'"
  shows "\<exists>v. finite_part (est2D ir (clp ! 0) L h) = Some v \<and> 1 < length clp \<and>
             clp' = clp[1 := set_pixel (clp ! 1) L h v]"
  using assms
  by (auto simp: split2D_pixel_def est2D_def finite_part_def Let_def qvector_at_def qvector_set_def
      split: Option.bind_splits if_splits ieee.splits prod.splits)

lemma split2D_line_written:
  assumes b: "split2D_line c L fb = Some fb'"
    and p0: "clpbuffer fb ! 0 = clp0"
  shows "fb' = fb\<lparr>clpbuffer := clpbuffer fb'\<rparr> \<and>
         written 1 (\<lambda>l h. finite_part (est2D (irescale c) clp0 l h))
           (\<lambda>l h. l = L \<and> 4 \<le> L \<and> L < frameHeight c - 1 \<and>
                  activeVideoStart (configuration c) \<le> h \<and> h < activeVideoEnd (configuration c))
           (clpbuffer fb) (clpbuffer fb')"
proof (cases "L \<ge> 4 \<and> L < frameHeight c - 1")
  case True
  with b obtain clp where
    loop: "for_loop (activeVideoStart (configuration c)) (activeVideoEnd (configuration c))
             (split2D_pixel (irescale c) L) (clpbuffer fb) = Some clp"
    and fb': "fb' = fb\<lparr>clpbuffer := clp\<rparr>"
    by (auto simp: split2D_line_def split: Option.bind_splits)
  have "written 1 (\<lambda>l h. finite_part (est2D (irescale c) clp0 l h))
           (\<lambda>l h. l = L \<and> activeVideoStart (configuration c) \<le> h \<and> h < activeVideoEnd (configuration c))
           (clpbuffer fb) clp"
  proof (rule for_loop_written[OF loop])
    fix j t t'
    assume s: "split2D_pixel (irescale c) L j t = Some t'"
      and o: "\<forall>m. m \<noteq> 1 \<longrightarrow> t ! m = clpbuffer fb ! m"
    from o p0 have "t ! 0 = clp0" by simp
    with split2D_pixel_Some[OF s]
    show "\<exists>v. finite_part (est2D (irescale c) clp0 L j) = Some v \<and> 1 < length t \<and>
              t' = t[1 := set_pixel (t ! 1) L j v]" by simp
  qed
  then have "written 1 (\<lambda>l h. finite_part (est2D (irescale c) clp0 l h))
           (\<lambda>l h. l = L \<and> 4 \<le> L \<and> L < frameHeight c - 1 \<and>
                  activeVideoStart (configuration c) \<le> h \<and> h < activeVideoEnd (configuration c))
           (clpbuffer fb) clp"
    by (rule written_cong) (use True in auto)
  then show ?thesis by (simp add: fb')
next
  case False
  with b have fb': "fb' = fb" by (auto simp: split2D_line_def)
  have "written 1 (\<lambda>l h. finite_part (est2D (irescale c) clp0 l h))
           (\<lambda>l h. l = L \<and> 4 \<le> L \<and> L < frameHeight c - 1 \<and>
                  activeVideoStart (configuration c) \<le> h \<and> h < activeVideoEnd (configuration c))
           (clpbuffer fb) (clpbuffer fb)"
    by (rule written_cong[OF written_refl]) (use False in auto)
  then show ?thesis by (simp add: fb')
qed

lemma split2D_written:
  assumes "split2D c fb = Some fb'"
  shows "fb' = fb\<lparr>clpbuffer := clpbuffer fb'\<rparr> \<and>
         written 1 (\<lambda>l h. finite_part (est2D (irescale c) (clpbuffer fb ! 0) l h))
           (\<lambda>l h. firstVisibleFrameLine (configuration c) \<le> l \<and> l < frameHeight c \<and>
                  4 \<le> l \<and> l < frameHeight c - 1 \<and>
                  activeVideoStart (configuration c) \<le> h \<and> h < activeVideoEnd (configuration c))
           (clpbuffer fb) (clpbuffer fb')"
proof (rule for_loop_lines_written[OF assms[unfolded split2D_def]])
  fix j t t'
  assume b: "split2D_line c j t = Some t'"
    and o: "\<forall>m. m \<noteq> 1 \<longrightarrow> clpbuffer t ! m = clpbuffer fb ! m"
  from o have "clpbuffer t ! 0 = clpbuffer fb ! 0" by simp
  from split2D_line_written[OF b this]
  show "t' = t\<lparr>clpbuffer := clpbuffer t'\<rparr> \<and>
         written 1 (\<lambda>l h. finite_part (est2D (irescale c) (clpbuffer fb ! 0) l h))
           (\<lambda>l h. l = j \<and> 4 \<le> j \<and> j < frameHeight c - 1 \<and>
                  activeVideoStart (configuration c) \<le> h \<and> h < activeVideoEnd (configuration c))
           (clpbuffer t) (clpbuffer t')" .
qed

lemma split2D_total:
  assumes "irescale c \<noteq> 0" "1 < length (clpbuffer fb)"
  shows "\<exists>fb'. split2D c fb = Some fb'"
proof -
  have px: "\<exists>clp'. split2D_pixel (irescale c) L h clp = Some clp' \<and> 1 < length clp'"
    if "1 < length clp" for L h clp
  proof -
    from split2D_weights_Finite[OF assms(1), of "clp ! 0" L h] obtain kp kn sc where
      "split2D_weights (irescale c) (clp ! 0) L h = (Finite kp, Finite kn, Finite sc)" by blast
    with that show ?thesis
      by (auto simp: split2D_pixel_def qvector_at_def qvector_set_def Let_def)
  qed
  have col: "\<exists>clp'. for_loop a n (split2D_pixel (irescale c) L) clp = Some clp' \<and> 1 < length clp'"
    if "1 < length clp" for a n L clp
    using for_loop_total[of "\<lambda>j t. 1 < length t" a clp n "split2D_pixel (irescale c) L"] that px
    by blast
  have line: "\<exists>t'. split2D_line c L t = Some t' \<and> 1 < length (clpbuffer t')"
    if "1 < length (clpbuffer t)" for L t
    using col[OF that, of "activeVideoStart (configuration c)" "activeVideoEnd (configuration c)" L] that
    by (auto simp: split2D_line_def)
  from for_loop_total[of "\<lambda>j t. 1 < length (clpbuffer t)" "firstVisibleFrameLine (configuration c)" fb
      "frameHeight c" "split2D_line c"] assms(2) line
  show ?thesis unfolding split2D_def by blast
qed





lemma irescale_setConfiguration:
  "irescale (setConfiguration c p) = real_of_int (cdiv (whiteIre p - blackIre p) 100)"
  by (simp add: setConfiguration_def postConfigurationTasks_def)

lemma cdiv_100_pos: "100 \<le> d \<Longrightarrow> 1 \<le> cdiv d 100"
proof -
  assume d: "100 \<le> d"
  then have "1 \<le> d div 100" by (simp add: pos_le_divide_eq zdiv_mono1 [of 100 d 100, simplified])
  with d show ?thesis by (simp add: cdiv_def sgn_if)
qed

text \<open>
  C8, as amended. When the IRE levels are at least 100 apart (so that the integer quotient
  \<open>irescale\<close> is not zero), for every content of the 1D plane the weights \<open>kp\<close> and \<open>kn\<close> are
  finite and lie in [0, 1] at the point where the 2D estimate is formed.
\<close>

theorem split2D_weights_in_unit_interval:
  assumes "100 \<le> whiteIre configurationParam - blackIre configurationParam"
  shows "\<exists>kp kn sc.
           split2D_weights (irescale (setConfiguration c configurationParam)) clp0 lineNumber h
             = (Finite kp, Finite kn, Finite sc) \<and>
           0 \<le> kp \<and> kp \<le> 1 \<and> 0 \<le> kn \<and> kn \<le> 1"
proof -
  from cdiv_100_pos[OF assms] have "irescale (setConfiguration c configurationParam) \<noteq> 0"
    by (simp add: irescale_setConfiguration)
  from split2D_weights_Finite[OF this, of clp0 lineNumber h] show ?thesis by blast
qed

theorem split2D_weights_in_unit_interval_witness:
  "100 \<le> whiteIre small_cfg - blackIre small_cfg \<and>
   (\<exists>kp kn sc.
      split2D_weights (irescale (setConfiguration small_comb small_cfg)) small_plane0 4 3
        = (Finite kp, Finite kn, Finite sc) \<and>
      0 \<le> kp \<and> kp \<le> 1 \<and> 0 \<le> kn \<and> kn \<le> 1)"
proof -
  have h: "100 \<le> whiteIre small_cfg - blackIre small_cfg"
    by (simp add: small_cfg_def)
  from split2D_weights_in_unit_interval[OF h, of small_comb small_plane0 4 3] h
  show ?thesis by blast
qed

text \<open>
  C8 as stated fails. With \<open>whiteIre = 50\<close> and \<open>blackIre = 0\<close> the precondition
  \<open>whiteIre > blackIre\<close> holds, but \<open>irescale\<close> is the integer quotient 50 / 100 = 0 and
  \<open>p_2drange\<close> is 0. At line 4, column 3 of the plane above the raw \<open>kp\<close> is 0, so
  \<open>kp / p_2drange\<close> is NaN, which \<open>clamp\<close> returns unchanged; \<open>kn\<close> is 0 and the both-zero rule
  does not apply. The weight \<open>kp\<close> is NaN when the estimate is formed.
\<close>

theorem split2D_weights_nan_counterexample:
  "blackIre narrow_cfg < whiteIre narrow_cfg \<and>
   irescale (setConfiguration small_comb narrow_cfg) = 0 \<and>
   split2D_weights (irescale (setConfiguration small_comb narrow_cfg)) narrow_plane0 4 3
     = (NaN, Finite 0, Finite 1)"
  by code_simp

section \<open>doCNR\<close>

lemma set_yiq_same: "set_yiq b L h (b L h) = b"
  by (simp add: set_yiq_def)

lemma doCNR_clip_zero:
  assumes "doCNR_clip 0 hplinef L h b = Some b'"
  shows "b' = b"
proof -
  have z: "(if \<bar>a\<bar> > 0 then (if a > 0 then 0 else - 0) else a) = (0::real)" for a
    by simp
  have upd: "(b L h)\<lparr>i := i (b L h) - 0\<rparr> = b L h" by simp
  have upd2: "(b L h)\<lparr>q := q (b L h) - 0\<rparr> = b L h" by simp
  from assms show ?thesis
    by (auto simp: doCNR_clip_def Let_def z set_yiq_same split: Option.bind_splits)
qed

lemma doCNR_clip_loop:
  assumes "for_loop a n (doCNR_clip 0 hplinef L) b = Some b'"
  shows "b' = b"
  using for_loop_rule[OF assms, of "\<lambda>j t. t = b"] doCNR_clip_zero by blast



lemma doCNR_feed_total:
  assumes "0 \<le> h" "h < int (length hp)"
  shows "\<exists>fi' fq' hp'. doCNR_feed ext b L h (fi, fq, hp) = Some (fi', fq', hp') \<and> length hp' = length hp"
  using assms
  by (auto simp: doCNR_feed_def qvector_at_def qvector_set_def split: prod.splits)

lemma doCNR_line_total:
  assumes "0 \<le> activeVideoStart cfg" "activeVideoEnd cfg + 12 \<le> int (length hp)"
  shows "\<exists>fi' fq' hp'. doCNR_line ext cfg 0 L (fi, fq, hp, b) = Some (fi', fq', hp', b) \<and> length hp' = length hp"
proof -
  have "\<exists>st. for_loop (activeVideoStart cfg) (activeVideoEnd cfg + 1) (doCNR_feed ext b L) (fi, fq, hp) = Some st
          \<and> length (snd (snd st)) = length hp"
  proof -
    have "\<exists>t'. doCNR_feed ext b L j t = Some t' \<and> length (snd (snd t')) = length hp"
      if "activeVideoStart cfg \<le> j" "j < activeVideoEnd cfg + 1" "length (snd (snd t)) = length hp" for j t
    proof -
      obtain a1 a2 a3 where t: "t = (a1, a2, a3)" by (cases t)
      from that assms have "0 \<le> j" "j < int (length a3)" by (simp_all add: t)
      from doCNR_feed_total[OF this, of ext b L a1 a2] that(3) show ?thesis by (auto simp: t)
    qed
    from for_loop_total[of "\<lambda>j t. length (snd (snd t)) = length hp" "activeVideoStart cfg" "(fi, fq, hp)"
        "activeVideoEnd cfg + 1" "doCNR_feed ext b L"] this
    show ?thesis by auto
  qed
  then obtain fi' fq' hp' where
    feed: "for_loop (activeVideoStart cfg) (activeVideoEnd cfg + 1) (doCNR_feed ext b L) (fi, fq, hp) = Some (fi', fq', hp')"
    and len: "length hp' = length hp" by auto
  have "\<exists>t'. doCNR_clip 0 hp' L j t = Some t'"
    if "activeVideoStart cfg \<le> j" "j < activeVideoEnd cfg" for j t
    using that assms len by (simp add: doCNR_clip_def qvector_at_def Let_def)
  from for_loop_always[of "activeVideoStart cfg" "activeVideoEnd cfg" "doCNR_clip 0 hp' L" b] this
  obtain b' where clip: "for_loop (activeVideoStart cfg) (activeVideoEnd cfg) (doCNR_clip 0 hp' L) b = Some b'"
    by blast
  from doCNR_clip_loop[OF clip] have "b' = b" .
  with feed clip len show ?thesis by (simp add: doCNR_line_def)
qed

lemma doCNR_total:
  fixes ext :: "('f, 'o) Externals"
  assumes "0 \<le> activeVideoStart (configuration c)"
    and "activeVideoEnd (configuration c) + 12 \<le> fieldWidth (configuration c) + 32"
  shows "doCNR ext c b = Some b"
proof -
  let ?hp = "replicate (nat (fieldWidth (configuration c) + 32)) yiq_zero"
  let ?P = "\<lambda>(j::int) (t :: 'f \<times> 'f \<times> YIQ list \<times> YiqBuffer). length (fst (snd (snd t))) = length ?hp \<and> snd (snd (snd t)) = b"
  have "\<exists>t'. doCNR_line ext (configuration c) 0 j t = Some t' \<and> ?P (j + 1) t'" if "?P j t" for j t
  proof -
    obtain fi fq hp t0 where t: "t = (fi, fq, hp, t0)" by (cases t)
    from that t have l: "length hp = length ?hp" and t0: "t0 = b" by simp_all
    from assms l have "activeVideoEnd (configuration c) + 12 \<le> int (length hp)" by simp
    from doCNR_line_total[OF assms(1) this, of ext j fi fq b] l show ?thesis
      by (auto simp: t t0)
  qed
  from for_loop_total[of ?P "firstVisibleFrameLine (configuration c)" "(f_nrc ext, f_nrc ext, ?hp, b)"
      "frameHeight c" "doCNR_line ext (configuration c) 0"] this
  obtain st where "for_loop (firstVisibleFrameLine (configuration c)) (frameHeight c)
             (doCNR_line ext (configuration c) 0) (f_nrc ext, f_nrc ext, ?hp, b) = Some st"
    and "snd (snd (snd st)) = b" by auto
  then show ?thesis by (auto simp: doCNR_def Let_def split: prod.splits)
qed



section \<open>filterIQ\<close>

lemma for_loop_rel:
  assumes "for_loop a n body1 s1 = Some s1'" "for_loop a n body2 s2 = Some s2'" "R s1 s2"
    and "\<And>j t1 t2 t1' t2'. a \<le> j \<Longrightarrow> j < n \<Longrightarrow> R t1 t2 \<Longrightarrow> body1 j t1 = Some t1' \<Longrightarrow> body2 j t2 = Some t2'
           \<Longrightarrow> R t1' t2'"
  shows "R s1' s2'"
  using assms
proof (induction a n body1 s1 arbitrary: s2 rule: for_loop.induct)
  case (1 k n body1 s1)
  show ?case
  proof (cases "k < n")
    case True
    from "1.prems"(1) True obtain t1 where t1: "body1 k s1 = Some t1"
      and r1: "for_loop (k + 1) n body1 t1 = Some s1'"
      by (subst (asm) for_loop.simps) (auto split: option.splits)
    from "1.prems"(2) True obtain t2 where t2: "body2 k s2 = Some t2"
      and r2: "for_loop (k + 1) n body2 t2 = Some s2'"
      by (subst (asm) for_loop.simps) (auto split: option.splits)
    have R: "R t1 t2" using "1.prems"(4)[OF _ True "1.prems"(3) t1 t2] by simp
    show ?thesis
    proof (rule "1.IH"[OF True t1 r1 r2 R])
      fix j u1 u2 u1' u2'
      assume "k + 1 \<le> j" "j < n" "R u1 u2" "body1 j u1 = Some u1'" "body2 j u2 = Some u2'"
      then show "R u1' u2'" using "1.prems"(4)[of j u1 u2 u1' u2'] by simp
    qed
  next
    case False
    from "1.prems"(1) False have "s1' = s1"
      by (subst (asm) for_loop.simps) simp
    moreover from "1.prems"(2) False have "s2' = s2"
      by (subst (asm) for_loop.simps) simp
    ultimately show ?thesis using "1.prems"(3) by simp
  qed
qed

lemma filterIQ_pixel_Some:
  assumes "filterIQ_pixel ext L h (fi, fq, ti, tq, b) = Some (fi', fq', ti', tq', b')"
  shows "fi' = (if crem h 4 = 0 \<or> crem h 4 = 2 then snd (feed ext fi (i (b L h))) else fi)"
    and "ti' = (if crem h 4 = 0 \<or> crem h 4 = 2 then fst (feed ext fi (i (b L h))) else ti)"
    and "y (b' l c) = y (b l c)"
    and "i (b' l c) = (if l = L \<and> c = h - 2 then ti' else i (b l c))"
proof -
  have r: "(fi', fq', ti', tq') =
     (if crem h 4 = 0 then (case feed ext fi (i (b L h)) of (r, f) \<Rightarrow> (f, fq, r, tq))
      else if crem h 4 = 1 then (case feed ext fq (q (b L h)) of (r, f) \<Rightarrow> (fi, f, ti, r))
      else if crem h 4 = 2 then (case feed ext fi (i (b L h)) of (r, f) \<Rightarrow> (f, fq, r, tq))
      else if crem h 4 = 3 then (case feed ext fq (q (b L h)) of (r, f) \<Rightarrow> (fi, f, ti, r))
      else (fi, fq, ti, tq))"
    and b': "b' = set_yiq (set_yiq b L (h - 2) ((b L (h - 2))\<lparr>i := ti'\<rparr>)) L (h - 2)
                    ((set_yiq b L (h - 2) ((b L (h - 2))\<lparr>i := ti'\<rparr>) L (h - 2))\<lparr>q := tq'\<rparr>)"
    using assms unfolding filterIQ_pixel_def Let_def by (auto split: prod.splits if_splits)
  from r show "fi' = (if crem h 4 = 0 \<or> crem h 4 = 2 then snd (feed ext fi (i (b L h))) else fi)"
    by (simp split: if_splits prod.splits)
  from r show "ti' = (if crem h 4 = 0 \<or> crem h 4 = 2 then fst (feed ext fi (i (b L h))) else ti)"
    by (simp split: if_splits prod.splits)
  show "y (b' l c) = y (b l c)" unfolding b' by (simp add: set_yiq_def)
  show "i (b' l c) = (if l = L \<and> c = h - 2 then ti' else i (b l c))"
    unfolding b' by (simp add: set_yiq_def)
qed

lemma filterIQ_pixel_rel:
  assumes s1: "filterIQ_pixel ext L h (fi, fq1, ti, tq1, b1) = Some (fi1', fq1', ti1', tq1', b1')"
    and s2: "filterIQ_pixel ext L h (fi, fq2, ti, tq2, b2) = Some (fi2', fq2', ti2', tq2', b2')"
    and sy: "same_yi b1 b2"
  shows "fi1' = fi2' \<and> ti1' = ti2' \<and> same_yi b1' b2'"
proof -
  from sy have e: "i (b1 L h) = i (b2 L h)" by (simp add: same_yi_def)
  have f: "fi1' = fi2'"
    unfolding filterIQ_pixel_Some(1)[OF s1] filterIQ_pixel_Some(1)[OF s2] e ..
  have t: "ti1' = ti2'"
    unfolding filterIQ_pixel_Some(2)[OF s1] filterIQ_pixel_Some(2)[OF s2] e ..
  have "same_yi b1' b2'"
    unfolding same_yi_def
    using filterIQ_pixel_Some(3,4)[OF s1] filterIQ_pixel_Some(3,4)[OF s2] sy t
    by (simp add: same_yi_def)
  with f t show ?thesis by simp
qed

lemma filterIQ_line_rel:
  assumes "filterIQ_line ext (cfg\<lparr>colorlpf_hq := True\<rparr>) L b1 = Some b1'"
    and "filterIQ_line ext (cfg\<lparr>colorlpf_hq := False\<rparr>) L b2 = Some b2'"
    and "same_yi b1 b2"
  shows "same_yi b1' b2'"
proof -
  from assms(1) obtain s1 where
    l1: "for_loop (activeVideoStart cfg) (activeVideoEnd cfg) (filterIQ_pixel ext L)
           (f_colorlpi ext, f_colorlpi ext, 0, 0, b1) = Some s1"
    and b1': "b1' = snd (snd (snd (snd s1)))"
    by (auto simp: filterIQ_line_def split: Option.bind_splits prod.splits)
  from assms(2) obtain s2 where
    l2: "for_loop (activeVideoStart cfg) (activeVideoEnd cfg) (filterIQ_pixel ext L)
           (f_colorlpi ext, f_colorlpq ext, 0, 0, b2) = Some s2"
    and b2': "b2' = snd (snd (snd (snd s2)))"
    by (auto simp: filterIQ_line_def split: Option.bind_splits prod.splits)
  let ?R = "\<lambda>t1 t2. fst t1 = fst t2 \<and> fst (snd (snd t1)) = fst (snd (snd t2)) \<and>
                     same_yi (snd (snd (snd (snd t1)))) (snd (snd (snd (snd t2))))"
  have "?R s1 s2"
  proof (rule for_loop_rel[OF l1 l2, of ?R])
    show "?R (f_colorlpi ext, f_colorlpi ext, 0, 0, b1) (f_colorlpi ext, f_colorlpq ext, 0, 0, b2)"
      using assms(3) by simp
  next
    fix j t1 t2 t1' t2'
    assume R: "?R t1 t2" and s1: "filterIQ_pixel ext L j t1 = Some t1'"
      and s2: "filterIQ_pixel ext L j t2 = Some t2'"
    obtain a1 a2 a3 a4 a5 where t1: "t1 = (a1, a2, a3, a4, a5)" by (cases t1)
    obtain c1 c2 c3 c4 c5 where t2: "t2 = (c1, c2, c3, c4, c5)" by (cases t2)
    obtain d1 d2 d3 d4 d5 where t1': "t1' = (d1, d2, d3, d4, d5)" by (cases t1')
    obtain e1 e2 e3 e4 e5 where t2': "t2' = (e1, e2, e3, e4, e5)" by (cases t2')
    from R have eq: "c1 = a1" "c3 = a3" and sy: "same_yi a5 c5" by (simp_all add: t1 t2)
    from filterIQ_pixel_rel[OF s1[unfolded t1 t1'] s2[unfolded t2 t2' eq] sy]
    show "?R t1' t2'" by (simp add: t1' t2')
  qed
  then show ?thesis by (simp add: b1' b2')
qed

lemma filterIQ_rel:
  assumes "filterIQ ext (with_hq True c) b = Some b1" "filterIQ ext (with_hq False c) b = Some b2"
  shows "same_yi b1 b2"
proof -
  have l1: "for_loop (firstVisibleFrameLine (configuration c)) (frameHeight c)
              (filterIQ_line ext (configuration c\<lparr>colorlpf_hq := True\<rparr>)) b = Some b1"
    using assms(1) by (simp add: filterIQ_def with_hq_def)
  have l2: "for_loop (firstVisibleFrameLine (configuration c)) (frameHeight c)
              (filterIQ_line ext (configuration c\<lparr>colorlpf_hq := False\<rparr>)) b = Some b2"
    using assms(2) by (simp add: filterIQ_def with_hq_def)
  show ?thesis
  proof (rule for_loop_rel[OF l1 l2, of same_yi])
  show "same_yi b b" by (simp add: same_yi_def)
next
  fix j t1 t2 t1' t2'
  assume "same_yi t1 t2"
    "filterIQ_line ext (configuration c\<lparr>colorlpf_hq := True\<rparr>) j t1 = Some t1'"
    "filterIQ_line ext (configuration c\<lparr>colorlpf_hq := False\<rparr>) j t2 = Some t2'"
  then show "same_yi t1' t2'" by (rule filterIQ_line_rel[rotated 2])
qed
qed

lemma filterIQ_total: "\<exists>b'. filterIQ ext c b = Some b'"
proof -
  have px: "\<exists>t'. filterIQ_pixel ext L h t = Some t'" for L h t
    by (cases t) (simp add: filterIQ_pixel_def Let_def split: prod.splits)
  have line: "\<exists>t'. filterIQ_line ext cfg L t = Some t'" for cfg L t
  proof -
    let ?fq = "if colorlpf_hq cfg then f_colorlpi ext else f_colorlpq ext"
    from for_loop_always[of "activeVideoStart cfg" "activeVideoEnd cfg" "filterIQ_pixel ext L"
        "(f_colorlpi ext, ?fq, 0, 0, t)"] px
    obtain s where "for_loop (activeVideoStart cfg) (activeVideoEnd cfg) (filterIQ_pixel ext L)
        (f_colorlpi ext, ?fq, 0, 0, t) = Some s" by blast
    then show ?thesis by (cases s) (auto simp: filterIQ_line_def)
  qed
  show ?thesis unfolding filterIQ_def by (rule for_loop_always) (rule line)
qed

lemma filterIQ_same_tables:
  assumes "f_colorlpq ext = f_colorlpi ext"
  shows "filterIQ ext (with_hq True c) b = filterIQ ext (with_hq False c) b"
proof -
  have "filterIQ_line ext (configuration c\<lparr>colorlpf_hq := True\<rparr>)
          = filterIQ_line ext (configuration c\<lparr>colorlpf_hq := False\<rparr>)"
    by (intro ext) (simp add: filterIQ_line_def assms)
  then show ?thesis by (simp add: filterIQ_def with_hq_def)
qed

text \<open>
  C5, as amended. With \<open>colorlpf_hq\<close> set, \<open>filterIQ\<close> filters both channels with the table
  \<open>f_colorlpi\<close>; without it, I with \<open>f_colorlpi\<close> and Q with \<open>f_colorlpq\<close>. Both variants
  return for every input buffer, and their outputs have the same Y and the same I in every
  pixel. The outputs are identical whenever the two tables are the same filter.
\<close>

theorem filterIQ_variants:
  "(\<exists>b1 b2. filterIQ ext (with_hq True c) yiq = Some b1 \<and> filterIQ ext (with_hq False c) yiq = Some b2 \<and>
      (\<forall>lineNumber h. y (b1 lineNumber h) = y (b2 lineNumber h) \<and> i (b1 lineNumber h) = i (b2 lineNumber h))) \<and>
   (f_colorlpq ext = f_colorlpi ext \<longrightarrow>
      filterIQ ext (with_hq True c) yiq = filterIQ ext (with_hq False c) yiq)"
proof -
  from filterIQ_total obtain b1 where b1: "filterIQ ext (with_hq True c) yiq = Some b1" by blast
  from filterIQ_total obtain b2 where b2: "filterIQ ext (with_hq False c) yiq = Some b2" by blast
  from filterIQ_rel[OF b1 b2] b1 b2 filterIQ_same_tables[of ext c yiq]
  show ?thesis unfolding same_yi_def by blast
qed

theorem filterIQ_variants_witness:
  "f_colorlpq tiny_ext = f_colorlpi tiny_ext \<and>
   filterIQ tiny_ext (with_hq True odd_comb) odd_yiq = filterIQ tiny_ext (with_hq False odd_comb) odd_yiq \<and>
   (\<exists>b1 b2. filterIQ gain_ext (with_hq True odd_comb) odd_yiq = Some b1 \<and>
      filterIQ gain_ext (with_hq False odd_comb) odd_yiq = Some b2 \<and>
      i (b1 1 1) = i (b2 1 1))"
proof -
  have h: "f_colorlpq tiny_ext = f_colorlpi tiny_ext" by (simp add: tiny_ext_def)
  from filterIQ_variants[of tiny_ext odd_comb odd_yiq] h
    filterIQ_variants[of gain_ext odd_comb odd_yiq]
  show ?thesis by blast
qed

text \<open>
  C5 as stated fails. With a table \<open>f_colorlpi\<close> that passes the signal and a table
  \<open>f_colorlpq\<close> that blocks it, the Q value 8 at line 1, column 3 reaches column 1 of the
  output in the high-quality variant (8) and not in the standard one (0).
\<close>

theorem filterIQ_hq_counterexample:
  "filterIQ gain_ext (with_hq True odd_comb) odd_yiq \<noteq> None \<and>
   filterIQ gain_ext (with_hq False odd_comb) odd_yiq \<noteq> None \<and>
   q (the (filterIQ gain_ext (with_hq True odd_comb) odd_yiq) 1 1) = 8 \<and>
   q (the (filterIQ gain_ext (with_hq False odd_comb) odd_yiq) 1 1) = 0"
  by code_simp

section \<open>process\<close>

lemma for_loop_preserves:
  assumes "for_loop a n body s = Some s'"
    and "\<And>j t t'. body j t = Some t' \<Longrightarrow> f t' = f t"
  shows "f s' = f s"
proof (rule for_loop_rule[OF assms(1), of "\<lambda>j t. f t = f s"])
  show "f s = f s" ..
next
  fix j t t'
  assume "f t = f s" "body j t = Some t'"
  with assms(2)[of j t t'] show "f t' = f s" by simp
qed

lemma set_quint16_length: "set_quint16 buf off idx v = Some buf' \<Longrightarrow> length buf' = length buf"
  by (auto simp: set_quint16_def Let_def split: if_splits)

lemma yiqToRgbFrame_pixel_length:
  assumes "yiqToRgbFrame_pixel ext cfg b burst L h (ofs, frame) = Some (ofs', frame')"
  shows "length frame' = length frame"
  using assms
  by (auto simp: yiqToRgbFrame_pixel_def Let_def split: Option.bind_splits prod.splits
      dest!: set_quint16_length)

lemma yiqToRgbFrame_line_length:
  assumes "yiqToRgbFrame_line ext cfg b burst L frame = Some frame'"
  shows "length frame' = length frame"
proof -
  from assms obtain st where
    loop: "for_loop (activeVideoStart cfg) (activeVideoEnd cfg) (yiqToRgbFrame_pixel ext cfg b burst L)
             ((activeVideoStart cfg * 3) + 6, frame) = Some st"
    and f: "frame' = snd st"
    by (auto simp: yiqToRgbFrame_line_def Let_def split: Option.bind_splits prod.splits)
  have "length (snd t') = length (snd t)" if "yiqToRgbFrame_pixel ext cfg b burst L j t = Some t'" for j t t'
    using yiqToRgbFrame_pixel_length[of ext cfg b burst L j "fst t" "snd t" "fst t'" "snd t'"] that by simp
  from for_loop_preserves[OF loop, of "\<lambda>t. length (snd t)", OF this]
  have "length (snd st) = length frame" by simp
  with f show ?thesis by simp
qed

lemma yiqToRgbFrame_length:
  assumes "yiqToRgbFrame ext c b burst = Some frame"
  shows "length frame = nat ((fieldWidth (configuration c) * frameHeight c * 3) * 2)"
proof -
  let ?f0 = "resize_fill ((fieldWidth (configuration c) * frameHeight c * 3) * 2)"
  from assms have loop: "for_loop (firstVisibleFrameLine (configuration c)) (frameHeight c)
       (yiqToRgbFrame_line ext (configuration c) b burst) ?f0 = Some frame"
    by (simp add: yiqToRgbFrame_def Let_def)
  have "length frame = length ?f0"
    by (rule for_loop_preserves[OF loop, of length]) (rule yiqToRgbFrame_line_length)
  then show ?thesis by (simp add: resize_fill_def)
qed

lemma overlayOpticalFlowMap_length:
  assumes "overlayOpticalFlowMap c fb frame = Some frame'"
  shows "length frame' = length frame"
proof -
  have px: "length t' = length t" if "overlayOpticalFlowMap_pixel cfg fb L j t = Some t'" for cfg L j t t'
    using that
    by (auto simp: overlayOpticalFlowMap_pixel_def Let_def split: Option.bind_splits
        dest!: set_quint16_length)
  have line: "length t' = length t"
    if "for_loop a n (overlayOpticalFlowMap_pixel cfg fb L) t = Some t'" for cfg a n L t t'
    by (rule for_loop_preserves[OF that, of length]) (rule px)
  show ?thesis
    by (rule for_loop_preserves[OF assms[unfolded overlayOpticalFlowMap_def], of length]) (rule line)
qed

lemma process_length:
  assumes "process ext c f1 f2 burst p1 p2 = Some (out, c')"
  shows "length out = nat ((fieldWidth (configuration c) * frameHeight c * 3) * 2)"
proof (cases "use3D (configuration c)")
  case False
  with assms obtain b bl where "yiqToRgbFrame ext c b bl = Some out"
    by (auto simp: process_def Let_def split: Option.bind_splits if_splits)
  then show ?thesis by (rule yiqToRgbFrame_length)
next
  case True
  with assms obtain b bl fb out0 where y: "yiqToRgbFrame ext c b bl = Some out0"
    and o: "(if showOpticalFlowMap (configuration c) then overlayOpticalFlowMap c fb out0 else Some out0) = Some out"
    by (auto simp: process_def Let_def split: Option.bind_splits prod.splits)
  from o have "length out = length out0"
    by (auto split: if_splits dest: overlayOpticalFlowMap_length)
  with yiqToRgbFrame_length[OF y] show ?thesis by simp
qed

lemma frameHeight_setConfiguration:
  "frameHeight (setConfiguration c p) = 2 * fieldHeight p - 1"
  "configuration (setConfiguration c p) = p"
  by (simp_all add: setConfiguration_def postConfigurationTasks_def)

lemma process_tiny:
  "process tiny_ext (setConfiguration tiny_comb tiny_cfg) tiny_field tiny_field 0 1 1 \<noteq> None"
  by code_simp

lemma passes_ignore_previous:
  "split1D ext (c\<lparr>previousFrameBuffer := p\<rparr>) = split1D ext c"
  "split2D (c\<lparr>previousFrameBuffer := p\<rparr>) = split2D c"
  "splitIQ (c\<lparr>previousFrameBuffer := p\<rparr>) = splitIQ c"
  "adjustY (c\<lparr>previousFrameBuffer := p\<rparr>) = adjustY c"
  "filterIQ ext (c\<lparr>previousFrameBuffer := p\<rparr>) = filterIQ ext c"
  "doYNR ext (c\<lparr>previousFrameBuffer := p\<rparr>) = doYNR ext c"
  "doCNR ext (c\<lparr>previousFrameBuffer := p\<rparr>) = doCNR ext c"
  "yiqToRgbFrame ext (c\<lparr>previousFrameBuffer := p\<rparr>) = yiqToRgbFrame ext c"
proof -
  have "split2D_line (c\<lparr>previousFrameBuffer := p\<rparr>) = split2D_line c"
    by (intro ext) (simp add: split2D_line_def)
  then show "split2D (c\<lparr>previousFrameBuffer := p\<rparr>) = split2D c"
    by (intro ext) (simp add: split2D_def)
qed (intro ext, simp add: split1D_def splitIQ_def adjustY_def filterIQ_def doYNR_def doCNR_def
       yiqToRgbFrame_def)+

lemma process_2D_state:
  assumes "\<not> use3D (configuration c)"
    and "process ext c f1 f2 burst p1 p2 = Some (out, c')"
  shows "c' = c"
  using assms
  by (auto simp: process_def Let_def split: Option.bind_splits if_splits)

lemma process_2D_previous:
  assumes "\<not> use3D (configuration c)"
  shows "map_option fst (process ext (c\<lparr>previousFrameBuffer := p\<rparr>) f1 f2 burst p1 p2)
           = map_option fst (process ext c f1 f2 burst p1 p2)"
  using assms
  by (simp add: process_def Let_def passes_ignore_previous map_option_bind comp_def
      split: Option.bind_split)

text \<open>
  C9. With 3D mode disabled, the bytes \<open>process\<close> returns do not depend on the retained
  previous frame: two engines that differ only in that buffer give the same result on the
  same fields, burst level and phase IDs. And the engine that \<open>process\<close> leaves behind is the
  engine it started from, so the previous-frame buffer is not modified.
\<close>

theorem process_2D_ignores_previous_frame:
  assumes "\<not> use3D (configuration c)"
  shows "map_option fst (process ext (c\<lparr>previousFrameBuffer := previous1\<rparr>) firstFieldInputBuffer
                           secondFieldInputBuffer burstMedianIre firstFieldPhaseID' secondFieldPhaseID')
           = map_option fst (process ext (c\<lparr>previousFrameBuffer := previous2\<rparr>) firstFieldInputBuffer
                               secondFieldInputBuffer burstMedianIre firstFieldPhaseID' secondFieldPhaseID') \<and>
         (\<forall>rgbOutputBuffer c'.
            process ext c firstFieldInputBuffer secondFieldInputBuffer burstMedianIre
              firstFieldPhaseID' secondFieldPhaseID' = Some (rgbOutputBuffer, c')
            \<longrightarrow> c' = c \<and> previousFrameBuffer c' = previousFrameBuffer c)"
  using process_2D_previous[OF assms, of ext previous1] process_2D_previous[OF assms, of ext previous2]
    process_2D_state[OF assms, of ext firstFieldInputBuffer secondFieldInputBuffer burstMedianIre
      firstFieldPhaseID' secondFieldPhaseID']
  by auto

theorem process_2D_ignores_previous_frame_witness:
  "\<not> use3D (configuration (setConfiguration tiny_comb tiny_cfg)) \<and>
   map_option fst (process tiny_ext ((setConfiguration tiny_comb tiny_cfg)\<lparr>previousFrameBuffer := tiny_frame\<rparr>)
                     tiny_field tiny_field 0 1 1)
     = map_option fst (process tiny_ext ((setConfiguration tiny_comb tiny_cfg)\<lparr>previousFrameBuffer := FrameBuffer_new\<rparr>)
                         tiny_field tiny_field 0 1 1) \<and>
   (\<exists>out. process tiny_ext (setConfiguration tiny_comb tiny_cfg) tiny_field tiny_field 0 1 1
            = Some (out, setConfiguration tiny_comb tiny_cfg))"
proof -
  have h: "\<not> use3D (configuration (setConfiguration tiny_comb tiny_cfg))"
    by (simp add: frameHeight_setConfiguration tiny_cfg_def)
  from process_tiny obtain out c' where
    r: "process tiny_ext (setConfiguration tiny_comb tiny_cfg) tiny_field tiny_field 0 1 1 = Some (out, c')"
    by auto
  from process_2D_ignores_previous_frame[OF h, of tiny_ext tiny_frame tiny_field tiny_field 0 1 1 FrameBuffer_new] r h
  show ?thesis by auto
qed

section \<open>Passes that read the raw plane return when their reads are in range\<close>

lemma split1D_returns:
  assumes ne: "clpbuffer fb \<noteq> []"
    and rd: "\<And>l h. firstVisibleFrameLine (configuration c) \<le> l \<Longrightarrow> l < frameHeight c \<Longrightarrow>
               activeVideoStart (configuration c) \<le> h \<Longrightarrow> h < activeVideoEnd (configuration c) \<Longrightarrow>
               avg_minus (rawbuffer fb) ((l * fieldWidth (configuration c)) * 2) h \<noteq> None"
  shows "\<exists>fb'. split1D ext c fb = Some fb'"
proof -
  let ?cfg = "configuration c"
  have px: "\<exists>t'. split1D_pixel ext ?cfg (rawbuffer fb) L ip h t = Some t' \<and> snd (snd t') \<noteq> []"
    if "avg_minus (rawbuffer fb) ((L * fieldWidth ?cfg) * 2) h \<noteq> None" "snd (snd t) \<noteq> []" for L ip h t
  proof -
    obtain fi fq clp where t: "t = (fi, fq, clp)" by (cases t)
    from that(1) obtain a b s where
      "quint16_at (rawbuffer fb) ((L * fieldWidth ?cfg) * 2) (h + 2) = Some a"
      "quint16_at (rawbuffer fb) ((L * fieldWidth ?cfg) * 2) (h - 2) = Some b"
      "quint16_at (rawbuffer fb) ((L * fieldWidth ?cfg) * 2) h = Some s"
      by (auto simp: avg_minus_def split: Option.bind_splits)
    with that(2) show ?thesis
      by (auto simp: split1D_pixel_def t Let_def qvector_at_def qvector_set_def split: prod.splits)
  qed
  have line: "\<exists>t'. split1D_line ext ?cfg L t = Some t' \<and> rawbuffer (snd t') = rawbuffer fb \<and> clpbuffer (snd t') \<noteq> []"
    if L: "firstVisibleFrameLine ?cfg \<le> L" "L < frameHeight c"
      and t: "rawbuffer (snd t) = rawbuffer fb \<and> clpbuffer (snd t) \<noteq> []" for L t
  proof -
    obtain ph u where tu: "t = (ph, u)" by (cases t)
    let ?ip = "snd (snd (line_phase L ph))"
    have "\<exists>s'. for_loop (activeVideoStart ?cfg) (activeVideoEnd ?cfg)
                  (split1D_pixel ext ?cfg (rawbuffer fb) L ?ip) (f_colorlpi ext, f_colorlpq ext, clpbuffer u) = Some s'
                \<and> snd (snd s') \<noteq> []"
    proof -
      have "\<exists>t'. split1D_pixel ext ?cfg (rawbuffer fb) L ?ip j s = Some t' \<and> snd (snd t') \<noteq> []"
        if "activeVideoStart ?cfg \<le> j" "j < activeVideoEnd ?cfg" "snd (snd s) \<noteq> []" for j s
        using px[OF rd[OF L that(1,2)] that(3)] .
      from for_loop_total[of "\<lambda>j s. snd (snd s) \<noteq> []" "activeVideoStart ?cfg"
          "(f_colorlpi ext, f_colorlpq ext, clpbuffer u)" "activeVideoEnd ?cfg"
          "split1D_pixel ext ?cfg (rawbuffer fb) L ?ip"] this t
      show ?thesis by (auto simp: tu)
    qed
    then obtain s' where "for_loop (activeVideoStart ?cfg) (activeVideoEnd ?cfg)
                  (split1D_pixel ext ?cfg (rawbuffer fb) L ?ip) (f_colorlpi ext, f_colorlpq ext, clpbuffer u) = Some s'"
      and "snd (snd s') \<noteq> []" by blast
    with t show ?thesis
      by (cases s') (auto simp: split1D_line_def tu Let_def)
  qed
  from for_loop_total[of "\<lambda>j t. rawbuffer (snd t) = rawbuffer fb \<and> clpbuffer (snd t) \<noteq> []"
      "firstVisibleFrameLine ?cfg" "(initial_phase (firstFieldPhaseID fb) (secondFieldPhaseID fb), fb)"
      "frameHeight c" "split1D_line ext ?cfg"] line ne
  obtain st where "for_loop (firstVisibleFrameLine ?cfg) (frameHeight c) (split1D_line ext ?cfg)
      (initial_phase (firstFieldPhaseID fb) (secondFieldPhaseID fb), fb) = Some st"
    by auto
  then show ?thesis by (cases st) (simp add: split1D_def)
qed

lemma split3D_returns:
  assumes len: "2 < length (clpbuffer cur)"
    and rd: "\<And>l h. firstVisibleFrameLine (configuration c) \<le> l \<Longrightarrow> l < frameHeight c \<Longrightarrow>
               activeVideoStart (configuration c) \<le> h \<Longrightarrow> h < activeVideoEnd (configuration c) \<Longrightarrow>
               diff3D (configuration c) (rawbuffer cur) (rawbuffer prev) l h \<noteq> None"
  shows "\<exists>cur'. split3D c cur prev = Some cur'"
proof -
  let ?cfg = "configuration c"
  have px: "\<exists>t'. split3D_pixel ?cfg (rawbuffer cur) (rawbuffer prev) L h t = Some t' \<and> 2 < length t'"
    if "diff3D ?cfg (rawbuffer cur) (rawbuffer prev) L h \<noteq> None" "2 < length t" for L h t
    using that
    by (auto simp: split3D_pixel_def diff3D_def qvector_at_def qvector_set_def split: Option.bind_splits)
  have line: "\<exists>t'. split3D_line ?cfg prev L t = Some t' \<and> rawbuffer t' = rawbuffer cur \<and> 2 < length (clpbuffer t')"
    if L: "firstVisibleFrameLine ?cfg \<le> L" "L < frameHeight c"
      and t: "rawbuffer t = rawbuffer cur \<and> 2 < length (clpbuffer t)" for L t
  proof -
    have "\<exists>t'. split3D_pixel ?cfg (rawbuffer cur) (rawbuffer prev) L j s = Some t' \<and> 2 < length t'"
      if "activeVideoStart ?cfg \<le> j" "j < activeVideoEnd ?cfg" "2 < length s" for j s
      using px[OF rd[OF L that(1,2)] that(3)] .
    from for_loop_total[of "\<lambda>j s. 2 < length s" "activeVideoStart ?cfg" "clpbuffer t" "activeVideoEnd ?cfg"
        "split3D_pixel ?cfg (rawbuffer cur) (rawbuffer prev) L"] this t
    obtain s' where "for_loop (activeVideoStart ?cfg) (activeVideoEnd ?cfg)
        (split3D_pixel ?cfg (rawbuffer cur) (rawbuffer prev) L) (clpbuffer t) = Some s'" "2 < length s'"
      by auto
    with t show ?thesis by (simp add: split3D_line_def)
  qed
  from for_loop_total[of "\<lambda>j t. rawbuffer t = rawbuffer cur \<and> 2 < length (clpbuffer t)"
      "firstVisibleFrameLine ?cfg" cur "frameHeight c" "split3D_line ?cfg prev"] line len
  show ?thesis by (auto simp: split3D_def)
qed

lemma splitIQ_returns:
  assumes rd: "\<And>l h. firstVisibleFrameLine (configuration c) \<le> l \<Longrightarrow> l < frameHeight c \<Longrightarrow>
               activeVideoStart (configuration c) \<le> h \<Longrightarrow> h < activeVideoEnd (configuration c) \<Longrightarrow>
               iq_defined (configuration c) fb l h"
  shows "\<exists>fb'. splitIQ c fb = Some fb'"
proof -
  let ?cfg = "configuration c"
  have px: "\<exists>t'. splitIQ_pixel ?cfg fb L ip h t = Some t'" if "iq_defined ?cfg fb L h" for L ip h t
    using that
    by (cases t) (auto simp: splitIQ_pixel_def iq_defined_def Let_def split: prod.splits)
  have line: "\<exists>t'. splitIQ_line ?cfg fb L t = Some t'"
    if L: "firstVisibleFrameLine ?cfg \<le> L" "L < frameHeight c" for L t
  proof -
    obtain ph u where tu: "t = (ph, u)" by (cases t)
    let ?ip = "snd (snd (line_phase L ph))"
    have "\<exists>s'. for_loop (activeVideoStart ?cfg) (activeVideoEnd ?cfg) (splitIQ_pixel ?cfg fb L ?ip) (0, 0, u) = Some s'"
      by (rule for_loop_always) (rule px[OF rd[OF L]])
    then obtain s' where "for_loop (activeVideoStart ?cfg) (activeVideoEnd ?cfg)
        (splitIQ_pixel ?cfg fb L ?ip) (0, 0, u) = Some s'" by blast
    then have "splitIQ_line ?cfg fb L t = Some (line_phase L ph, snd (snd s'))"
      by (cases s') (simp add: splitIQ_line_def tu Let_def)
    then show ?thesis by blast
  qed
  have "\<exists>st. for_loop (firstVisibleFrameLine ?cfg) (frameHeight c) (splitIQ_line ?cfg fb)
      (initial_phase (firstFieldPhaseID fb) (secondFieldPhaseID fb), yiq_clear) = Some st"
    by (rule for_loop_always) (rule line)
  then obtain st where "for_loop (firstVisibleFrameLine ?cfg) (frameHeight c) (splitIQ_line ?cfg fb)
      (initial_phase (firstFieldPhaseID fb) (secondFieldPhaseID fb), yiq_clear) = Some st" by blast
  then show ?thesis by (cases st) (simp add: splitIQ_def)
qed

section \<open>process returns on frames of full size\<close>

lemma mid_length:
  assumes "0 \<le> pos" "0 \<le> len" "pos + len \<le> int (length buf)"
  shows "int (length (mid buf pos len)) = len"
  using assms by (auto simp: mid_def Let_def)

lemma interlace_length:
  assumes "0 \<le> w" "fieldWidth cfg = w" "0 \<le> fieldLine" "frameLine = 2 * fieldLine"
    and "((fh + 1) div 2) * (w * 2) \<le> int (length f1)"
    and "((fh + 1) div 2) * (w * 2) \<le> int (length f2)"
  shows "int (length (interlace cfg fh f1 f2 frameLine fieldLine raw))
           = int (length raw) + (if frameLine < fh then ((fh + 1) div 2 - fieldLine) * (4 * w) else 0)"
  using assms
proof (induction cfg fh f1 f2 frameLine fieldLine raw rule: interlace.induct)
  case (1 cfg fh f1 f2 frameLine fieldLine raw)
  show ?case
  proof (cases "frameLine < fh")
    case False
    then show ?thesis by (subst interlace.simps) simp
  next
    case True
    let ?n = "(fh + 1) div 2"
    from True "1.prems"(4) have fl: "fieldLine + 1 \<le> ?n" by linarith
    have pos: "0 \<le> fieldLine * w * 2" using "1.prems"(1,3) by simp
    have "(fieldLine + 1) * (w * 2) \<le> ?n * (w * 2)"
      using fl "1.prems"(1) by (intro mult_right_mono) simp_all
    then have end1: "fieldLine * w * 2 + w * 2 \<le> int (length f1)"
      and end2: "fieldLine * w * 2 + w * 2 \<le> int (length f2)"
      using "1.prems"(5,6) by (simp_all add: algebra_simps)
    have m1: "int (length (mid f1 (fieldLine * w * 2) (w * 2))) = w * 2"
      by (rule mid_length[OF pos _ end1]) (use "1.prems"(1) in simp)
    have m2: "int (length (mid f2 (fieldLine * w * 2) (w * 2))) = w * 2"
      by (rule mid_length[OF pos _ end2]) (use "1.prems"(1) in simp)
    let ?raw' = "raw @ mid f1 (fieldLine * fieldWidth cfg * 2) (fieldWidth cfg * 2)
                     @ mid f2 (fieldLine * fieldWidth cfg * 2) (fieldWidth cfg * 2)"
    have len': "int (length ?raw') = int (length raw) + 4 * w"
      using m1 m2 by (simp add: "1.prems"(2))
    have IH: "int (length (interlace cfg fh f1 f2 (frameLine + 2) (fieldLine + 1) ?raw'))
           = int (length ?raw') + (if frameLine + 2 < fh then (?n - (fieldLine + 1)) * (4 * w) else 0)"
      by (rule "1.IH"[OF True "1.prems"(1,2)]) (use "1.prems" in simp_all)
    have last: "?n - (fieldLine + 1) = 0" if "\<not> frameLine + 2 < fh"
      using that True "1.prems"(4) by linarith
    have "interlace cfg fh f1 f2 frameLine fieldLine raw
            = interlace cfg fh f1 f2 (frameLine + 2) (fieldLine + 1) ?raw'"
      using True by (subst interlace.simps) simp
    then show ?thesis
      using IH len' True last by (auto simp: algebra_simps)
  qed
qed

lemma interlace_frame_length:
  assumes "0 \<le> fieldWidth cfg" "0 \<le> fh"
    and "((fh + 1) div 2) * (fieldWidth cfg * 2) \<le> int (length f1)"
    and "((fh + 1) div 2) * (fieldWidth cfg * 2) \<le> int (length f2)"
  shows "fh * fieldWidth cfg * 2 \<le> int (length (interlace cfg fh f1 f2 0 0 []))"
proof -
  let ?w = "fieldWidth cfg"
  have l: "int (length (interlace cfg fh f1 f2 0 0 []))
           = (if 0 < fh then ((fh + 1) div 2) * (4 * ?w) else 0)"
    using interlace_length[OF assms(1) refl _ _ assms(3,4), of 0 0 "[]"] by simp
  have "fh * 2 \<le> ((fh + 1) div 2) * 4" by linarith
  then have "(fh * 2) * ?w \<le> (((fh + 1) div 2) * 4) * ?w"
    using assms(1) by (rule mult_right_mono)
  with l assms(2) show ?thesis by (cases "0 < fh") (simp_all add: algebra_simps)
qed

text \<open>Every sample of an active column, and of the two columns on either side, lies inside a
  raw plane of frame size.\<close>

lemma quint16_at_in_frame:
  assumes "0 \<le> l" "l < fh" "0 \<le> k" "k < w" "fh * w * 2 \<le> int (length raw)"
  shows "quint16_at raw ((l * w) * 2) k \<noteq> None"
proof -
  have "0 \<le> l * w" using assms(1,3,4) by simp
  moreover have "(l + 1) * w \<le> fh * w"
    using assms(2,3,4) by (intro mult_right_mono) simp_all
  ultimately have "0 \<le> (l * w) * 2 + 2 * k" "(l * w) * 2 + 2 * k + 1 < int (length raw)"
    using assms(3,4,5) by (simp_all add: algebra_simps)
  then show ?thesis by (simp add: quint16_at_def Let_def)
qed

lemma doYNR_total:
  fixes ext :: "('f, 'o) Externals"
  assumes "0 \<le> activeVideoStart (configuration c)"
    and "activeVideoEnd (configuration c) + 12 \<le> fieldWidth (configuration c) + 32"
  shows "\<exists>b'. doYNR ext c b = Some b'"
proof -
  let ?cfg = "configuration c"
  let ?hp = "replicate (nat (fieldWidth ?cfg + 32)) yiq_zero"
  let ?n = "length ?hp"
  have feed: "\<exists>t'. doYNR_feed ext u L j t = Some t' \<and> length (snd t') = ?n"
    if "activeVideoStart ?cfg \<le> j" "j < activeVideoEnd ?cfg + 1" "length (snd t) = ?n" for u L j t
    using that assms
    by (cases t) (auto simp: doYNR_feed_def qvector_at_def qvector_set_def split: prod.splits)
  have clip: "\<exists>t'. doYNR_clip r hp L j t = Some t'"
    if "activeVideoStart ?cfg \<le> j" "j < activeVideoEnd ?cfg" "length hp = ?n" for r hp L j t
    using that assms by (simp add: doYNR_clip_def qvector_at_def Let_def)
  have line: "\<exists>t'. doYNR_line ext ?cfg r L t = Some t' \<and> length (fst (snd t')) = ?n"
    if "length (fst (snd t)) = ?n" for r L t
  proof -
    obtain f hp u where t: "t = (f, hp, u)" by (cases t)
    from that t have hp: "length hp = ?n" by simp
    from for_loop_total[of "\<lambda>j s. length (snd s) = ?n" "activeVideoStart ?cfg" "(f, hp)"
        "activeVideoEnd ?cfg + 1" "doYNR_feed ext u L"] feed hp
    obtain s where s: "for_loop (activeVideoStart ?cfg) (activeVideoEnd ?cfg + 1) (doYNR_feed ext u L) (f, hp) = Some s"
      and ls: "length (snd s) = ?n" by auto
    obtain f' hp' where s': "s = (f', hp')" by (cases s)
    from ls s' have hp': "length hp' = ?n" by simp
    have "\<exists>u'. for_loop (activeVideoStart ?cfg) (activeVideoEnd ?cfg) (doYNR_clip r hp' L) u = Some u'"
      by (rule for_loop_always) (rule clip[OF _ _ hp'])
    then obtain u' where "for_loop (activeVideoStart ?cfg) (activeVideoEnd ?cfg) (doYNR_clip r hp' L) u = Some u'"
      by blast
    with s hp' show ?thesis by (simp add: doYNR_line_def t s')
  qed
  from for_loop_total[of "\<lambda>j (t :: 'f \<times> YIQ list \<times> YiqBuffer). length (fst (snd t)) = ?n"
      "firstVisibleFrameLine ?cfg" "(f_nr ext, ?hp, b)" "frameHeight c"
      "doYNR_line ext ?cfg (1.0 * irescale c)"] line
  obtain st where "for_loop (firstVisibleFrameLine ?cfg) (frameHeight c)
      (doYNR_line ext ?cfg (1.0 * irescale c)) (f_nr ext, ?hp, b) = Some st" by auto
  then show ?thesis by (cases st) (auto simp: doYNR_def Let_def)
qed

lemma set_quint16_in_range:
  assumes "0 \<le> off + 2 * idx" "off + 2 * idx + 1 < int (length buf)"
  shows "\<exists>buf'. set_quint16 buf off idx v = Some buf' \<and> length buf' = length buf"
  using assms by (simp add: set_quint16_def Let_def)

lemma yiqToRgbFrame_returns:
  assumes cr: "conv_in_range ext"
    and b: "0 \<le> firstVisibleFrameLine (configuration c)" "0 \<le> activeVideoStart (configuration c)"
      "activeVideoEnd (configuration c) + 2 \<le> fieldWidth (configuration c)"
  shows "\<exists>out. yiqToRgbFrame ext c yiq burst = Some out"
proof -
  let ?cfg = "configuration c"
  let ?w = "fieldWidth ?cfg"
  let ?N = "nat ((?w * frameHeight c * 3) * 2)"
  have px: "\<exists>t'. yiqToRgbFrame_pixel ext ?cfg yiq burst L j t = Some t' \<and>
                 fst t' = 3 * (j + 1) + 6 \<and> length (snd t') = ?N"
    if L: "firstVisibleFrameLine ?cfg \<le> L" "L < frameHeight c"
      and j: "activeVideoStart ?cfg \<le> j" "j < activeVideoEnd ?cfg"
      and t: "fst t = 3 * j + 6" "length (snd t) = ?N" for L j t
  proof -
    obtain ofs frame where tt: "t = (ofs, frame)" by (cases t)
    from t tt have ofs: "ofs = 3 * j + 6" and len: "length frame = ?N" by simp_all
    obtain r g bl where cv: "conv ext (whiteIre ?cfg) (blackIre ?cfg) (whitePoint100 ?cfg) (blackAndWhite ?cfg)
                          (yiq L j) burst = (r, g, bl)" by (cases "conv ext (whiteIre ?cfg) (blackIre ?cfg)
                          (whitePoint100 ?cfg) (blackAndWhite ?cfg) (yiq L j) burst") 
    from cr[unfolded conv_in_range_def, rule_format, of "whiteIre ?cfg" "blackIre ?cfg" "whitePoint100 ?cfg"
        "blackAndWhite ?cfg" "yiq L j" burst] cv
    obtain r16 g16 b16 where c16: "to_quint16 r = Some r16" "to_quint16 g = Some g16" "to_quint16 bl = Some b16"
      by auto
    have w0: "0 \<le> ?w" using b j by linarith
    have L0: "0 \<le> L" using b(1) L(1) by simp
    have "0 \<le> ?w * L" using w0 L0 by simp
    moreover have "?w * (L + 1) \<le> ?w * frameHeight c"
      using w0 L(2) by (intro mult_left_mono) simp_all
    ultimately have lo: "0 \<le> (?w * 3 * L) * 2 + 2 * (3 * j + 6)"
      and hi: "(?w * 3 * L) * 2 + 2 * (3 * j + 6 + 2) + 1 < int ?N"
      using b(2,3) j by (simp_all add: algebra_simps)
    from set_quint16_in_range[of "(?w * 3 * L) * 2" ofs frame r16] lo hi len ofs
    obtain f1 where f1: "set_quint16 frame ((?w * 3 * L) * 2) ofs r16 = Some f1" "length f1 = ?N" by auto
    from set_quint16_in_range[of "(?w * 3 * L) * 2" "ofs + 1" f1 g16] lo hi f1(2) ofs
    obtain f2 where f2: "set_quint16 f1 ((?w * 3 * L) * 2) (ofs + 1) g16 = Some f2" "length f2 = ?N" by auto
    from set_quint16_in_range[of "(?w * 3 * L) * 2" "ofs + 2" f2 b16] lo hi f2(2) ofs
    obtain f3 where f3: "set_quint16 f2 ((?w * 3 * L) * 2) (ofs + 2) b16 = Some f3" "length f3 = ?N" by auto
    from cv c16 f1 f2 f3 ofs show ?thesis
      by (simp add: yiqToRgbFrame_pixel_def tt Let_def)
  qed
  have line: "\<exists>t'. yiqToRgbFrame_line ext ?cfg yiq burst L t = Some t' \<and> length t' = ?N"
    if L: "firstVisibleFrameLine ?cfg \<le> L" "L < frameHeight c" and t: "length t = ?N" for L t
  proof -
    let ?a = "activeVideoStart ?cfg"
    let ?P = "\<lambda>j (s :: int \<times> QByteArray). fst s = 3 * j + 6 \<and> length (snd s) = ?N"
    have "\<exists>t'. yiqToRgbFrame_pixel ext ?cfg yiq burst L j s = Some t' \<and> ?P (j + 1) t'"
      if "?a \<le> j" "j < activeVideoEnd ?cfg" "?P j s" for j s
      using px[OF L that(1,2), of s] that(3) by simp
    from for_loop_total[of ?P ?a "((?a * 3) + 6, t)" "activeVideoEnd ?cfg"
        "yiqToRgbFrame_pixel ext ?cfg yiq burst L"] this t
    obtain s' where "for_loop ?a (activeVideoEnd ?cfg) (yiqToRgbFrame_pixel ext ?cfg yiq burst L)
        ((?a * 3) + 6, t) = Some s'" and "length (snd s') = ?N" by auto
    then show ?thesis by (cases s') (simp add: yiqToRgbFrame_line_def Let_def)
  qed
  from for_loop_total[of "\<lambda>j t. length t = ?N" "firstVisibleFrameLine ?cfg"
      "resize_fill ((?w * frameHeight c * 3) * 2)" "frameHeight c" "yiqToRgbFrame_line ext ?cfg yiq burst"] line
  show ?thesis by (auto simp: yiqToRgbFrame_def Let_def resize_fill_def)
qed

lemma clpbuffer_update_fields:
  assumes "(fb' :: FrameBuffer) = fb\<lparr>clpbuffer := x\<rparr>"
  shows "rawbuffer fb' = rawbuffer fb" "kValues fb' = kValues fb"
    "firstFieldPhaseID fb' = firstFieldPhaseID fb" "secondFieldPhaseID fb' = secondFieldPhaseID fb"
    "burstLevel fb' = burstLevel fb"
  using assms by simp_all

lemma process_2D_returns:
  fixes ext :: "('f, 'o) Externals"
  assumes m: "\<not> use3D (configuration c)"
    and fh: "frameHeight c = 2 * fieldHeight (configuration c) - 1" "1 \<le> fieldHeight (configuration c)"
    and ir: "irescale c \<noteq> 0"
    and cr: "conv_in_range ext"
    and b: "0 \<le> firstVisibleFrameLine (configuration c)" "2 \<le> activeVideoStart (configuration c)"
      "activeVideoEnd (configuration c) + 2 \<le> fieldWidth (configuration c)"
    and f: "fieldHeight (configuration c) * (fieldWidth (configuration c) * 2) \<le> int (length f1)"
      "fieldHeight (configuration c) * (fieldWidth (configuration c) * 2) \<le> int (length f2)"
  shows "\<exists>out. process ext c f1 f2 burst p1 p2 = Some (out, c)"
proof -
  let ?cfg = "configuration c"
  let ?w = "fieldWidth ?cfg"
  let ?raw = "interlace ?cfg (frameHeight c) f1 f2 0 0 []"
  let ?fb0 = "FrameBuffer_new\<lparr>clpbuffer := replicate 3 (\<lambda>lineNumber h. 0), rawbuffer := ?raw,
                burstLevel := burst, firstFieldPhaseID := p1, secondFieldPhaseID := p2\<rparr>"
  have vis: "0 \<le> l \<and> 0 \<le> h - 2 \<and> h + 2 < ?w"
    if "firstVisibleFrameLine ?cfg \<le> l" "activeVideoStart ?cfg \<le> h" "h < activeVideoEnd ?cfg" for l h
    using that b by linarith
  have w0: "0 \<le> ?w" if "activeVideoStart ?cfg \<le> h" "h < activeVideoEnd ?cfg" for h
    using that b by linarith
  have half: "(frameHeight c + 1) div 2 = fieldHeight ?cfg" using fh(1) by simp
  have fh0: "0 \<le> frameHeight c" using fh by simp
  have raw: "frameHeight c * ?w * 2 \<le> int (length ?raw)" if "0 \<le> ?w"
    by (rule interlace_frame_length[OF that fh0]) (simp_all add: half f)
  have rd: "quint16_at ?raw ((l * ?w) * 2) k \<noteq> None"
    if "firstVisibleFrameLine ?cfg \<le> l" "l < frameHeight c" "0 \<le> k" "k < ?w" for l k
  proof -
    from that have "0 \<le> ?w" by simp
    from quint16_at_in_frame[OF _ that(2,3,4) raw[OF this]] that(1) b(1) show ?thesis by simp
  qed
  \<comment> \<open>split1D\<close>
  have "\<exists>fb1. split1D ext c ?fb0 = Some fb1"
  proof (rule split1D_returns)
    show "clpbuffer ?fb0 \<noteq> []" by simp
  next
    fix l h
    assume a: "firstVisibleFrameLine ?cfg \<le> l" "l < frameHeight c"
      "activeVideoStart ?cfg \<le> h" "h < activeVideoEnd ?cfg"
    from vis[OF a(1,3,4)] have k: "0 \<le> h + 2" "h + 2 < ?w" "0 \<le> h - 2" "h - 2 < ?w" "0 \<le> h" "h < ?w"
      by simp_all
    from rd[OF a(1,2) k(1,2)] rd[OF a(1,2) k(3,4)] rd[OF a(1,2) k(5,6)]
    show "avg_minus (rawbuffer ?fb0) ((l * ?w) * 2) h \<noteq> None"
      by (auto simp: avg_minus_def)
  qed
  then obtain fb1 where s1: "split1D ext c ?fb0 = Some fb1" by blast
  from split1D_lines[OF s1] have e1: "fb1 = ?fb0\<lparr>clpbuffer := clpbuffer fb1\<rparr>"
    and l1: "length (clpbuffer fb1) = 3"
    by (simp_all add: lines1D_def)
  \<comment> \<open>split2D\<close>
  from split2D_total[OF ir, of fb1] l1 obtain fb2 where s2: "split2D c fb1 = Some fb2" by auto
  from split2D_written[OF s2] have e2: "fb2 = fb1\<lparr>clpbuffer := clpbuffer fb2\<rparr>"
    and l2: "length (clpbuffer fb2) = 3"
    using l1 by (simp_all add: written_def)
  have raw2: "rawbuffer fb2 = ?raw"
    using clpbuffer_update_fields(1)[OF e2] clpbuffer_update_fields(1)[OF e1] by simp
  \<comment> \<open>splitIQ\<close>
  have "\<exists>fb3. splitIQ c fb2 = Some fb3"
  proof (rule splitIQ_returns)
    fix l h
    assume a: "firstVisibleFrameLine ?cfg \<le> l" "l < frameHeight c"
      "activeVideoStart ?cfg \<le> h" "h < activeVideoEnd ?cfg"
    from vis[OF a(1,3,4)] have k: "0 \<le> h" "h < ?w" by simp_all
    from rd[OF a(1,2) k] l2 m show "iq_defined ?cfg fb2 l h"
      by (simp add: iq_defined_def splitIQ_cavg_def qvector_at_def raw2)
  qed
  then obtain fb3 where s3: "splitIQ c fb2 = Some fb3" by blast
  \<comment> \<open>the passes over the YIQ buffers\<close>
  from adjustY_total obtain t1 where
    s4: "adjustY c (yiqBuffer fb3) (firstFieldPhaseID fb3) (secondFieldPhaseID fb3) = Some t1" by blast
  from filterIQ_total obtain t0 where s5: "filterIQ ext c (yiqBuffer fb3) = Some t0" by blast
  have hb: "0 \<le> activeVideoStart ?cfg" "activeVideoEnd ?cfg + 12 \<le> ?w + 32"
    using b by simp_all
  from doYNR_total[OF hb] obtain t2 where s6: "doYNR ext c t1 = Some t2" by blast
  from doCNR_total[OF hb] have s7: "doCNR ext c t2 = Some t2" .
  from yiqToRgbFrame_returns[OF cr b(1) hb(1) b(3)] obtain out where
    s8: "yiqToRgbFrame ext c t2 (burstLevel fb3) = Some out" by blast
  have s8': "yiqToRgbFrame ext c t2 (burstLevel (fb3\<lparr>yiqBuffer := t0\<rparr>)) = Some out"
    using s8 by simp
  have "process ext c f1 f2 burst p1 p2 = Some (out, c)"
    using m s1 s2 s3 s4 s5 s6 s7 s8 s8'
    by (simp add: process_def Let_def)
  then show ?thesis by blast
qed

lemma conv_in_range_tiny: "conv_in_range tiny_ext"
proof -
  have "to_quint16 (max 0 (min 65535 v)) \<noteq> None" for v :: real
  proof -
    let ?u = "max 0 (min 65535 v)"
    have u: "0 \<le> ?u" "?u \<le> 65535" by simp_all
    then have "trunc ?u = \<lfloor>?u\<rfloor>" by (simp add: trunc_def)
    moreover from u have "0 \<le> \<lfloor>?u\<rfloor>" "\<lfloor>?u\<rfloor> \<le> 65535"
      by (simp_all add: floor_le_iff le_floor_iff)
    ultimately show ?thesis by (simp add: to_quint16_def)
  qed
  then show ?thesis by (simp add: conv_in_range_def tiny_ext_def)
qed

text \<open>
  C7, as amended. For every configuration whose product \<open>fieldWidth * frameHeight\<close> is not
  negative and whose buffer size fits the 32-bit integers, and for every pair of field
  buffers, the RGB buffer that \<open>process\<close> returns has exactly
  \<open>fieldWidth * frameHeight * 3 * 2\<close> bytes, where \<open>frameHeight = 2 * fieldHeight - 1\<close>.
  In 2D mode \<open>process\<close> does return such a buffer when the fields hold \<open>fieldHeight\<close> lines
  each, the active window leaves two columns on either side, the first visible line is not
  negative, the IRE levels are at least 100 apart and the colour conversion stays within the
  16-bit range.
\<close>

theorem process_output_size:
  assumes "0 \<le> fieldWidth configurationParam * (2 * fieldHeight configurationParam - 1)"
    and "fieldWidth configurationParam * (2 * fieldHeight configurationParam - 1) * 3 * 2 < 2 ^ 31"
  shows "(\<forall>rgbOutputBuffer c'.
            process ext (setConfiguration c configurationParam) firstFieldInputBuffer secondFieldInputBuffer
              burstMedianIre firstFieldPhaseID' secondFieldPhaseID' = Some (rgbOutputBuffer, c')
            \<longrightarrow> int (length rgbOutputBuffer)
                  = fieldWidth configurationParam * (2 * fieldHeight configurationParam - 1) * 3 * 2) \<and>
         (\<not> use3D configurationParam \<and> 1 \<le> fieldHeight configurationParam \<and>
          100 \<le> whiteIre configurationParam - blackIre configurationParam \<and> conv_in_range ext \<and>
          0 \<le> firstVisibleFrameLine configurationParam \<and> 2 \<le> activeVideoStart configurationParam \<and>
          activeVideoEnd configurationParam + 2 \<le> fieldWidth configurationParam \<and>
          fieldHeight configurationParam * (fieldWidth configurationParam * 2) \<le> int (length firstFieldInputBuffer) \<and>
          fieldHeight configurationParam * (fieldWidth configurationParam * 2) \<le> int (length secondFieldInputBuffer)
            \<longrightarrow> (\<exists>rgbOutputBuffer.
                  process ext (setConfiguration c configurationParam) firstFieldInputBuffer secondFieldInputBuffer
                    burstMedianIre firstFieldPhaseID' secondFieldPhaseID'
                    = Some (rgbOutputBuffer, setConfiguration c configurationParam) \<and>
                  int (length rgbOutputBuffer)
                    = fieldWidth configurationParam * (2 * fieldHeight configurationParam - 1) * 3 * 2))"
proof (intro conjI allI impI)
  fix rgbOutputBuffer c'
  assume "process ext (setConfiguration c configurationParam) firstFieldInputBuffer secondFieldInputBuffer
              burstMedianIre firstFieldPhaseID' secondFieldPhaseID' = Some (rgbOutputBuffer, c')"
  from process_length[OF this] assms(1)
  show "int (length rgbOutputBuffer)
          = fieldWidth configurationParam * (2 * fieldHeight configurationParam - 1) * 3 * 2"
    by (simp add: frameHeight_setConfiguration)
next
  let ?c = "setConfiguration c configurationParam"
  assume a: "\<not> use3D configurationParam \<and> 1 \<le> fieldHeight configurationParam \<and>
          100 \<le> whiteIre configurationParam - blackIre configurationParam \<and> conv_in_range ext \<and>
          0 \<le> firstVisibleFrameLine configurationParam \<and> 2 \<le> activeVideoStart configurationParam \<and>
          activeVideoEnd configurationParam + 2 \<le> fieldWidth configurationParam \<and>
          fieldHeight configurationParam * (fieldWidth configurationParam * 2) \<le> int (length firstFieldInputBuffer) \<and>
          fieldHeight configurationParam * (fieldWidth configurationParam * 2) \<le> int (length secondFieldInputBuffer)"
  have cfg: "configuration ?c = configurationParam" by (simp add: frameHeight_setConfiguration)
  from a cdiv_100_pos[of "whiteIre configurationParam - blackIre configurationParam"]
  have ir: "irescale ?c \<noteq> 0" by (simp add: irescale_setConfiguration)
  have "\<exists>out. process ext ?c firstFieldInputBuffer secondFieldInputBuffer
                 burstMedianIre firstFieldPhaseID' secondFieldPhaseID' = Some (out, ?c)"
    by (rule process_2D_returns[OF _ _ _ ir]) (use a in \<open>simp_all add: frameHeight_setConfiguration\<close>)
  then obtain out where r: "process ext ?c firstFieldInputBuffer secondFieldInputBuffer
                 burstMedianIre firstFieldPhaseID' secondFieldPhaseID' = Some (out, ?c)" by blast
  from process_length[OF r] assms(1)
  have "int (length out) = fieldWidth configurationParam * (2 * fieldHeight configurationParam - 1) * 3 * 2"
    by (simp add: frameHeight_setConfiguration)
  with r show "\<exists>rgbOutputBuffer.
                  process ext ?c firstFieldInputBuffer secondFieldInputBuffer
                    burstMedianIre firstFieldPhaseID' secondFieldPhaseID' = Some (rgbOutputBuffer, ?c) \<and>
                  int (length rgbOutputBuffer)
                    = fieldWidth configurationParam * (2 * fieldHeight configurationParam - 1) * 3 * 2"
    by blast
qed

theorem process_output_size_witness:
  "0 \<le> fieldWidth tiny_cfg * (2 * fieldHeight tiny_cfg - 1) \<and>
   fieldWidth tiny_cfg * (2 * fieldHeight tiny_cfg - 1) * 3 * 2 < 2 ^ 31 \<and>
   \<not> use3D tiny_cfg \<and> 1 \<le> fieldHeight tiny_cfg \<and> 100 \<le> whiteIre tiny_cfg - blackIre tiny_cfg \<and>
   conv_in_range tiny_ext \<and> 0 \<le> firstVisibleFrameLine tiny_cfg \<and> 2 \<le> activeVideoStart tiny_cfg \<and>
   activeVideoEnd tiny_cfg + 2 \<le> fieldWidth tiny_cfg \<and>
   fieldHeight tiny_cfg * (fieldWidth tiny_cfg * 2) \<le> int (length tiny_field) \<and>
   (\<exists>out. process tiny_ext (setConfiguration tiny_comb tiny_cfg) tiny_field tiny_field 0 1 1
             = Some (out, setConfiguration tiny_comb tiny_cfg) \<and>
          int (length out) = 90)"
proof -
  have h: "0 \<le> fieldWidth tiny_cfg * (2 * fieldHeight tiny_cfg - 1)"
    "fieldWidth tiny_cfg * (2 * fieldHeight tiny_cfg - 1) * 3 * 2 < 2 ^ 31"
    by (simp_all add: tiny_cfg_def)
  have g: "\<not> use3D tiny_cfg \<and> 1 \<le> fieldHeight tiny_cfg \<and> 100 \<le> whiteIre tiny_cfg - blackIre tiny_cfg \<and>
     conv_in_range tiny_ext \<and> 0 \<le> firstVisibleFrameLine tiny_cfg \<and> 2 \<le> activeVideoStart tiny_cfg \<and>
     activeVideoEnd tiny_cfg + 2 \<le> fieldWidth tiny_cfg \<and>
     fieldHeight tiny_cfg * (fieldWidth tiny_cfg * 2) \<le> int (length tiny_field)"
    by (simp add: tiny_cfg_def tiny_field_def tiny_line_def conv_in_range_tiny)
  have v: "fieldWidth tiny_cfg * (2 * fieldHeight tiny_cfg - 1) * 3 * 2 = 90"
    by (simp add: tiny_cfg_def)
  from process_output_size[OF h, of tiny_ext tiny_comb tiny_field tiny_field 0 1 1] g
  have "\<exists>out. process tiny_ext (setConfiguration tiny_comb tiny_cfg) tiny_field tiny_field 0 1 1
             = Some (out, setConfiguration tiny_comb tiny_cfg) \<and> int (length out) = 90"
    unfolding v by blast
  with h g show ?thesis by blast
qed

text \<open>
  C7 as stated fails. With a field height of 0 the derived frame height is -1 and the
  product \<open>fieldWidth * frameHeight * 3 * 2\<close> is -30; \<open>process\<close> returns the empty buffer.
\<close>

theorem process_output_size_counterexample:
  "process tiny_ext flat_comb tiny_field tiny_field 0 1 1 \<noteq> None \<and>
   length (fst (the (process tiny_ext flat_comb tiny_field tiny_field 0 1 1))) = 0 \<and>
   frameHeight flat_comb = 2 * fieldHeight (configuration flat_comb) - 1 \<and>
   fieldWidth (configuration flat_comb) * frameHeight flat_comb * 3 * 2 = - 30"
  by code_simp

end
